(* ===== verification/Prelude.thy ===== *)
theory Prelude
  imports Main "HOL-Library.Word" "HOL-Library.Sublist" "HOL-Library.Multiset"
begin

text \<open>
  Shared vocabulary of the development: the machine integers the Rust code uses, results
  and stateful actions (a Rust \<open>Result\<close> computed while the state of the operating system
  changes), and the generic lemmas on lists and words the components share.
\<close>

unbundle bit_operations_syntax

section \<open>Machine integers\<close>

type_synonym u8 = "8 word"
type_synonym u32 = "32 word"
type_synonym u64 = "64 word"

text \<open>Signed integers are words read with \<open>sint\<close>; a cast between the two is the identity.\<close>

type_synonym i32 = "32 word"
type_synonym pid = "32 word"

section \<open>Results and the question-mark operator\<close>

text \<open>
  \<open>Inl e\<close> is \<open>Err(e)\<close> and \<open>Inr x\<close> is \<open>Ok(x)\<close>. \<open>bind_res r f\<close> is \<open>let x = r?; f(x)\<close>,
  \<open>ok_or e o\<close> is \<open>o.ok_or(e)\<close> and \<open>map_err g r\<close> is \<open>r.map_err(g)\<close>.
\<close>

named_theorems result_simps \<open>unfolding the combinators on results\<close>
named_theorems act_simps \<open>unfolding the combinators on stateful actions\<close>

fun bind_res :: "'e + 'a \<Rightarrow> ('a \<Rightarrow> 'e + 'b) \<Rightarrow> 'e + 'b" where
  "bind_res (Inl e) f = Inl e"
| "bind_res (Inr x) f = f x"

fun map_err :: "('e \<Rightarrow> 'd) \<Rightarrow> 'e + 'a \<Rightarrow> 'd + 'a" where
  "map_err g (Inl e) = Inl (g e)"
| "map_err g (Inr x) = Inr x"

fun ok_or :: "'e \<Rightarrow> 'a option \<Rightarrow> 'e + 'a" where
  "ok_or e None = Inl e"
| "ok_or e (Some x) = Inr x"

fun unwrap_or :: "'a \<Rightarrow> 'e + 'a \<Rightarrow> 'a" where
  "unwrap_or d (Inl e) = d"
| "unwrap_or d (Inr x) = x"

fun res_ok :: "'e + 'a \<Rightarrow> 'a option" where
  "res_ok (Inl e) = None"
| "res_ok (Inr x) = Some x"

definition is_ok :: "'e + 'a \<Rightarrow> bool" where
  "is_ok r = (case r of Inl _ \<Rightarrow> False | Inr _ \<Rightarrow> True)"

lemma is_ok_simps [simp]: "is_ok (Inr x)" "\<not> is_ok (Inl e)"
  by (simp_all add: is_ok_def)

lemma is_ok_iff: "is_ok r \<longleftrightarrow> (\<exists>x. r = Inr x)"
  by (cases r) auto

lemma bind_res_Inr [result_simps]:
  "bind_res r f = Inr y \<longleftrightarrow> (\<exists>x. r = Inr x \<and> f x = Inr y)"
  by (cases r) auto

lemma bind_res_Inl [result_simps]:
  "bind_res r f = Inl e \<longleftrightarrow> r = Inl e \<or> (\<exists>x. r = Inr x \<and> f x = Inl e)"
  by (cases r) auto

lemma map_err_Inr [result_simps]: "map_err g r = Inr x \<longleftrightarrow> r = Inr x"
  by (cases r) auto

lemma ok_or_Inr [result_simps]: "ok_or e v = Inr x \<longleftrightarrow> v = Some x"
  by (cases v) auto

lemma ok_or_Inl [result_simps]: "ok_or e v = Inl d \<longleftrightarrow> v = None \<and> d = e"
  by (cases v) auto

section \<open>Actions: a result computed while the system changes\<close>

type_synonym ('k, 'e, 'a) act = "'k \<Rightarrow> ('e + 'a) \<times> 'k"

text \<open>
  \<open>try_act m g f\<close> is \<open>let x = m.map_err(g)?; f(x)\<close>: the action \<open>m\<close> runs, an error leaves the
  function with the state \<open>m\<close> reached, and a value goes on with \<open>f\<close>.
\<close>

definition ok_act :: "'a \<Rightarrow> ('k, 'e, 'a) act" where
  "ok_act x = (\<lambda>s. (Inr x, s))"

definition fail_act :: "'e \<Rightarrow> ('k, 'e, 'a) act" where
  "fail_act e = (\<lambda>s. (Inl e, s))"

definition try_act ::
    "('k, 'd, 'a) act \<Rightarrow> ('d \<Rightarrow> 'e) \<Rightarrow> ('a \<Rightarrow> ('k, 'e, 'b) act) \<Rightarrow> ('k, 'e, 'b) act" where
  "try_act m g f = (\<lambda>s. case m s of (Inl e, t) \<Rightarrow> (Inl (g e), t) | (Inr x, t) \<Rightarrow> f x t)"

definition bind_act ::
    "('k, 'e, 'a) act \<Rightarrow> ('a \<Rightarrow> ('k, 'e, 'b) act) \<Rightarrow> ('k, 'e, 'b) act" where
  "bind_act m f = (\<lambda>s. case m s of (Inl e, t) \<Rightarrow> (Inl e, t) | (Inr x, t) \<Rightarrow> f x t)"

text \<open>An observation: it reads the state of the system and leaves it as it is.\<close>

definition look :: "('k \<Rightarrow> 'e + 'a) \<Rightarrow> ('k, 'e, 'a) act" where
  "look m = (\<lambda>s. (m s, s))"

text \<open>An effect that cannot fail or whose result is ignored (\<open>let _ = \<dots>\<close>).\<close>

definition ignore_act :: "('k, 'd, 'a) act \<Rightarrow> ('k, 'e, 'b) act \<Rightarrow> ('k, 'e, 'b) act" where
  "ignore_act m f = (\<lambda>s. f (snd (m s)))"

lemma ok_act_eq [simp]: "ok_act x s = (r, t) \<longleftrightarrow> r = Inr x \<and> t = s"
  by (auto simp: ok_act_def)

lemma fail_act_eq [simp]: "fail_act e s = (r, t) \<longleftrightarrow> r = Inl e \<and> t = s"
  by (auto simp: fail_act_def)

lemma ok_act_app [act_simps]: "ok_act x s = (Inr x, s)"
  by (simp add: ok_act_def)

lemma fail_act_app [act_simps]: "fail_act e s = (Inl e, s)"
  by (simp add: fail_act_def)

lemma look_eq [simp]: "look m s = (r, t) \<longleftrightarrow> m s = r \<and> t = s"
  by (auto simp: look_def)

lemma look_app [act_simps]: "look m s = (m s, s)"
  by (simp add: look_def)

lemma try_act_Inr_iff:
  "try_act m g f s = (Inr y, u) \<longleftrightarrow> (\<exists>x t. m s = (Inr x, t) \<and> f x t = (Inr y, u))"
  by (auto simp: try_act_def split: prod.splits sum.splits)

lemma bind_act_Inr_iff:
  "bind_act m f s = (Inr y, u) \<longleftrightarrow> (\<exists>x t. m s = (Inr x, t) \<and> f x t = (Inr y, u))"
  by (auto simp: bind_act_def split: prod.splits sum.splits)

lemma try_actE [elim!]:
  assumes "try_act m g f s = (Inr y, u)"
  obtains x t where "m s = (Inr x, t)" and "f x t = (Inr y, u)"
  using assms by (auto simp: try_act_Inr_iff)

lemma bind_actE [elim!]:
  assumes "bind_act m f s = (Inr y, u)"
  obtains x t where "m s = (Inr x, t)" and "f x t = (Inr y, u)"
  using assms by (auto simp: bind_act_Inr_iff)

lemma try_act_step [act_simps]:
  "m s = (Inr x, t) \<Longrightarrow> try_act m g f s = f x t"
  "m s = (Inl e, t) \<Longrightarrow> try_act m g f s = (Inl (g e), t)"
  by (simp_all add: try_act_def)

lemma bind_act_step [act_simps]:
  "m s = (Inr x, t) \<Longrightarrow> bind_act m f s = f x t"
  "m s = (Inl e, t) \<Longrightarrow> bind_act m f s = (Inl e, t)"
  by (simp_all add: bind_act_def)

lemma is_ok_fstE:
  assumes "is_ok (fst (m s))"
  obtains x t where "m s = (Inr x, t)"
  using assms by (cases "m s") (auto simp: is_ok_iff)

text \<open>
  An action that, whatever its result, keeps an observation of the system. The rules follow the
  way actions are built, so such facts are proved from those of the calls alone.
\<close>

named_theorems keeps_intros \<open>observations kept by the parts of an action\<close>

definition keeps :: "('k \<Rightarrow> 'v) \<Rightarrow> ('k, 'e, 'a) act \<Rightarrow> bool" where
  "keeps f m \<longleftrightarrow> (\<forall>s. f (snd (m s)) = f s)"

lemma keepsD: "keeps f m \<Longrightarrow> m s = (r, t) \<Longrightarrow> f t = f s"
  unfolding keeps_def by (metis snd_conv)

lemma keepsI: "(\<And>s r t. m s = (r, t) \<Longrightarrow> f t = f s) \<Longrightarrow> keeps f m"
  unfolding keeps_def by (metis prod.collapse)

lemma keeps_ok [keeps_intros]: "keeps f (ok_act x)"
  by (simp add: keeps_def ok_act_app)

lemma keeps_fail [keeps_intros]: "keeps f (fail_act e)"
  by (simp add: keeps_def fail_act_app)

lemma keeps_try [keeps_intros]:
  assumes "keeps f m" "\<And>x. keeps f (g x)"
  shows "keeps f (try_act m h g)"
  using assms unfolding keeps_def try_act_def by (auto split: prod.splits sum.splits) (metis snd_conv)+

lemma keeps_bind [keeps_intros]:
  assumes "keeps f m" "\<And>x. keeps f (g x)"
  shows "keeps f (bind_act m g)"
  using assms unfolding keeps_def bind_act_def by (auto split: prod.splits sum.splits) (metis snd_conv)+

lemma keeps_ignore [keeps_intros]: "keeps f m \<Longrightarrow> keeps f n \<Longrightarrow> keeps f (ignore_act m n)"
  by (simp add: keeps_def ignore_act_def)

lemma keeps_look [keeps_intros]: "keeps f (look m)"
  by (simp add: keeps_def look_app)

lemma keeps_if [keeps_intros]: "keeps f m \<Longrightarrow> keeps f n \<Longrightarrow> keeps f (if b then m else n)"
  by simp

section \<open>Lists\<close>

text \<open>\<open>xs.windows(2)\<close>: the adjacent pairs.\<close>

definition windows2 :: "'a list \<Rightarrow> ('a \<times> 'a) list" where
  "windows2 xs = zip xs (tl xs)"

lemma windows2_simps [simp]:
  "windows2 [] = []" "windows2 [x] = []"
  "windows2 (x # y # zs) = (x, y) # windows2 (y # zs)"
  by (simp_all add: windows2_def)

text \<open>
  A relation that holds of all adjacent pairs and is transitive along the list holds of all
  pairs in order: the step from what a \<open>windows(2)\<close> loop checks to what it is for.
\<close>

lemma windows2_sorted_wrt:
  assumes "\<forall>p \<in> set (windows2 xs). R (fst p) (snd p)"
    and "\<And>x y z. \<lbrakk>x \<in> set xs; y \<in> set xs; z \<in> set xs; R x y; R y z\<rbrakk> \<Longrightarrow> R x z"
  shows "sorted_wrt R xs"
  using assms
proof (induction xs rule: induct_list012)
  case (3 x y zs)
  have tail: "sorted_wrt R (y # zs)"
    using 3 by auto
  have xy: "R x y"
    using 3 by auto
  have "R x z" if "z \<in> set zs" for z
  proof -
    from tail that have "R y z" by simp
    with xy that show ?thesis
      by (intro "3.prems"(2) [of x y z]) auto
  qed
  with tail xy show ?case by auto
qed auto

lemma sorted_wrt_windows2:
  "sorted_wrt R xs \<Longrightarrow> p \<in> set (windows2 xs) \<Longrightarrow> R (fst p) (snd p)"
  by (induction xs rule: induct_list012) auto

text \<open>A symmetric relation between all pairs of a list does not depend on the order.\<close>

lemma sorted_wrt_insert_sym:
  assumes "\<And>x y. R x y \<Longrightarrow> R y x"
  shows "sorted_wrt R (xs @ x # ys) \<longleftrightarrow> sorted_wrt R (x # xs @ ys)"
  using assms by (auto simp: sorted_wrt_append)

lemma sorted_wrt_mset_sym:
  assumes sym: "\<And>x y. R x y \<Longrightarrow> R y x" and "mset xs = mset ys"
  shows "sorted_wrt R xs \<longleftrightarrow> sorted_wrt R ys"
  using assms(2)
proof (induction xs arbitrary: ys)
  case (Cons x xs)
  then have "x \<in> set ys" by (metis list.set_intros(1) mset_eq_setD)
  then obtain as bs where ys: "ys = as @ x # bs" by (meson split_list)
  with Cons.prems have m: "mset xs = mset (as @ bs)" by simp
  then have "sorted_wrt R xs \<longleftrightarrow> sorted_wrt R (as @ bs)" by (rule Cons.IH)
  moreover from m have "set xs = set (as @ bs)" by (rule mset_eq_setD)
  ultimately show ?case
    using sorted_wrt_insert_sym [of R as x bs] sym by (auto simp: ys)
qed simp

section \<open>Words\<close>

lemma word_le_add_unat:
  fixes a b :: "'a::len word"
  assumes "unat a + unat b < 2 ^ LENGTH('a)"
  shows "unat (a + b) = unat a + unat b"
  using assms by (simp add: unat_word_ariths)

lemma unat_lt2p_word: "unat (w :: 'a::len word) < 2 ^ LENGTH('a)"
  by (rule unsigned_less)

text \<open>A \<open>saturating_sub\<close> on unsigned words.\<close>

definition saturating_sub :: "'a::len word \<Rightarrow> 'a word \<Rightarrow> 'a word" where
  "saturating_sub a b = (if b \<le> a then a - b else 0)"

lemma unat_saturating_sub: "unat (saturating_sub a b) = unat a - unat b"
  by (simp add: saturating_sub_def unat_sub word_le_nat_alt)

lemma saturating_sub_eq_0: "saturating_sub a b = 0 \<longleftrightarrow> a \<le> b"
  by (auto simp: saturating_sub_def not_le)

end
