(* ===== verification/RustStr.thy ===== *)
theory RustStr
  imports Prelude
begin

text \<open>
  The operations of Rust's \<open>str\<close> that the program uses, on HOL strings (lists of 8-bit
  characters, the bytes of the Rust string). \<open>trim\<close> and \<open>split_whitespace\<close> treat the ASCII
  white space of Rust's \<open>char::is_whitespace\<close> as white space: the texts the program parses are
  the kernel's ASCII tables; a pathname with non-ASCII white space at its ends is outside the
  model. Parsing of numbers follows \<open>from_str_radix\<close>: an optional sign, at least one digit,
  upper- and lower-case digits, and an error where the value does not fit.
\<close>

section \<open>White space and trimming\<close>

definition is_ws :: "char \<Rightarrow> bool" where
  "is_ws c = (of_char c \<in> {9, 10, 11, 12, 13, 32 :: nat})"

definition newline :: char where
  "newline = char_of (10 :: nat)"

definition carriage_return :: char where
  "carriage_return = char_of (13 :: nat)"

definition tab :: char where
  "tab = char_of (9 :: nat)"

definition trim :: "string \<Rightarrow> string" where
  "trim s = rev (dropWhile is_ws (rev (dropWhile is_ws s)))"

lemma is_ws_space [simp]: "is_ws CHR '' ''"
  by (simp add: is_ws_def)

lemma is_ws_controls [simp]: "is_ws newline" "is_ws carriage_return" "is_ws tab"
  by (simp_all add: is_ws_def newline_def carriage_return_def tab_def)

lemma trim_Nil [simp]: "trim [] = []"
  by (simp add: trim_def)

text \<open>A string with no white space at its two ends is its own trimming.\<close>

lemma trim_ident:
  assumes "s \<noteq> []" "\<not> is_ws (hd s)" "\<not> is_ws (last s)"
  shows "trim s = s"
proof -
  from assms(1,2) have "dropWhile is_ws s = s"
    by (cases s) auto
  moreover have "dropWhile is_ws (rev s) = rev s"
    using assms(1,3) by (cases "rev s") (auto simp: hd_rev [symmetric])
  ultimately show ?thesis by (simp add: trim_def)
qed

lemma trim_all_ws: "\<forall>c \<in> set s. is_ws c \<Longrightarrow> trim s = []"
proof -
  assume "\<forall>c \<in> set s. is_ws c"
  then have "dropWhile is_ws s = []" by (simp add: dropWhile_eq_Nil_conv)
  then show ?thesis unfolding trim_def by (simp only: rev.simps dropWhile.simps)
qed

lemma controls_not_space [simp]:
  "newline \<noteq> CHR '' ''" "CHR '' '' \<noteq> newline" "CHR '' '' \<noteq> carriage_return"
  by code_simp+

lemma trim_pad_right:
  assumes "s \<noteq> []" "\<not> is_ws (hd s)" "\<forall>c \<in> set p. is_ws c"
  shows "trim (s @ p) = trim s"
proof -
  from assms(1,2) have "dropWhile is_ws (s @ p) = s @ p" "dropWhile is_ws s = s"
    by (cases s; simp)+
  moreover have "dropWhile is_ws (rev p @ rev s) = dropWhile is_ws (rev s)"
    using assms(3) by (intro dropWhile_append2) simp
  ultimately show ?thesis by (simp add: trim_def)
qed

lemma trim_pad_left:
  "\<forall>c \<in> set p. is_ws c \<Longrightarrow> trim (p @ s) = trim s"
  by (simp add: trim_def dropWhile_append2)

section \<open>Prefixes and splitting\<close>

definition starts_with :: "string \<Rightarrow> string \<Rightarrow> bool" where
  "starts_with p s = (take (length p) s = p)"

definition strip_prefix :: "string \<Rightarrow> string \<Rightarrow> string option" where
  "strip_prefix p s = (if starts_with p s then Some (drop (length p) s) else None)"

text \<open>\<open>a.or_else(|| b)\<close>.\<close>

definition or_else :: "'a option \<Rightarrow> 'a option \<Rightarrow> 'a option" where
  "or_else a b = (case a of None \<Rightarrow> b | Some x \<Rightarrow> Some x)"

lemma starts_with_append [simp]: "starts_with p (p @ s)"
  by (simp add: starts_with_def)

lemma starts_with_Nil [simp]: "starts_with [] s"
  by (simp add: starts_with_def)

lemma starts_with_Cons [simp]:
  "starts_with (c # p) (d # s) \<longleftrightarrow> c = d \<and> starts_with p s"
  "\<not> starts_with (c # p) []"
  by (auto simp: starts_with_def)

lemma starts_with_iff_prefix: "starts_with p s \<longleftrightarrow> prefix p s"
  by (auto simp: starts_with_def prefix_def) (metis append_take_drop_id)

lemma strip_prefix_Some: "strip_prefix p s = Some t \<longleftrightarrow> s = p @ t"
  by (auto simp: strip_prefix_def starts_with_def) (metis append_take_drop_id)

text \<open>\<open>s.split_once(c)\<close>: around the first occurrence.\<close>

definition split_once :: "char \<Rightarrow> string \<Rightarrow> (string \<times> string) option" where
  "split_once c s = (case dropWhile (\<lambda>x. x \<noteq> c) s of
       [] \<Rightarrow> None
     | _ # rest \<Rightarrow> Some (takeWhile (\<lambda>x. x \<noteq> c) s, rest))"

lemma split_once_append:
  "c \<notin> set a \<Longrightarrow> split_once c (a @ c # b) = Some (a, b)"
proof -
  assume c: "c \<notin> set a"
  then have "dropWhile (\<lambda>x. x \<noteq> c) (a @ c # b) = c # b"
    by (subst dropWhile_append2) auto
  moreover from c have "takeWhile (\<lambda>x. x \<noteq> c) (a @ c # b) = a"
    by (subst takeWhile_append2) auto
  ultimately show ?thesis by (simp add: split_once_def)
qed

lemma split_once_None: "c \<notin> set s \<Longrightarrow> split_once c s = None"
proof -
  assume "c \<notin> set s"
  then have "dropWhile (\<lambda>x. x \<noteq> c) s = []" by (auto simp: dropWhile_eq_Nil_conv)
  then show ?thesis unfolding split_once_def by (simp only: list.case)
qed

lemma split_once_Some:
  "split_once c s = Some (a, b) \<longleftrightarrow> s = a @ c # b \<and> c \<notin> set a"
proof
  assume h: "split_once c s = Some (a, b)"
  then obtain x where d: "dropWhile (\<lambda>x. x \<noteq> c) s = x # b" and a: "a = takeWhile (\<lambda>x. x \<noteq> c) s"
    by (auto simp: split_once_def split: list.splits)
  from d have "x = c" using hd_dropWhile [of "\<lambda>x. x \<noteq> c" s] by auto
  with a d have "s = a @ c # b"
    by (metis takeWhile_dropWhile_id)
  moreover from a have "c \<notin> set a" by (auto dest: set_takeWhileD)
  ultimately show "s = a @ c # b \<and> c \<notin> set a" by simp
qed (auto simp: split_once_append)

text \<open>\<open>s.splitn(n, c)\<close>: at most \<open>n\<close> pieces, the last one the rest of the string.\<close>

fun splitn :: "nat \<Rightarrow> char \<Rightarrow> string \<Rightarrow> string list" where
  "splitn 0 c s = []"
| "splitn (Suc 0) c s = [s]"
| "splitn (Suc (Suc n)) c s = (case split_once c s of
       None \<Rightarrow> [s]
     | Some (a, b) \<Rightarrow> a # splitn (Suc n) c b)"

lemma splitn_step:
  "0 < n \<Longrightarrow> c \<notin> set a \<Longrightarrow> splitn (Suc n) c (a @ c # b) = a # splitn n c b"
  by (cases n) (simp_all add: split_once_append)

lemma splitn_last: "0 < n \<Longrightarrow> c \<notin> set s \<Longrightarrow> splitn n c s = [s]"
  by (cases "(n, c, s)" rule: splitn.cases) (auto simp: split_once_None)

lemma length_splitn: "length (splitn n c s) \<le> n"
  by (induction n c s rule: splitn.induct) (auto split: option.splits)

text \<open>\<open>s.lines()\<close>: pieces ended by a newline, each without its newline and without a
  carriage return before it; a last piece without a newline is kept as it is.\<close>

definition strip_cr :: "string \<Rightarrow> string" where
  "strip_cr l = (if l \<noteq> [] \<and> last l = carriage_return then butlast l else l)"

fun lines_from :: "string \<Rightarrow> string \<Rightarrow> string list" where
  "lines_from acc [] = (if acc = [] then [] else [rev acc])"
| "lines_from acc (c # cs) =
     (if c = newline then strip_cr (rev acc) # lines_from [] cs else lines_from (c # acc) cs)"

definition lines :: "string \<Rightarrow> string list" where
  "lines s = lines_from [] s"

lemma lines_Nil [simp]: "lines [] = []"
  by (simp add: lines_def)

lemma lines_from_append:
  "newline \<notin> set l \<Longrightarrow> lines_from acc (l @ newline # rest) = strip_cr (rev acc @ l) # lines rest"
  by (induction l arbitrary: acc) (auto simp: lines_def)

lemma lines_Cons:
  "newline \<notin> set l \<Longrightarrow> l = [] \<or> last l \<noteq> carriage_return \<Longrightarrow>
   lines (l @ newline # rest) = l # lines rest"
  using lines_from_append [of l "[]" rest] by (auto simp: lines_def strip_cr_def)

text \<open>\<open>s.split_whitespace()\<close>: the non-empty pieces between white space.\<close>

fun words_from :: "string \<Rightarrow> string \<Rightarrow> string list" where
  "words_from acc [] = (if acc = [] then [] else [rev acc])"
| "words_from acc (c # cs) =
     (if is_ws c then (if acc = [] then words_from [] cs else rev acc # words_from [] cs)
      else words_from (c # acc) cs)"

definition split_whitespace :: "string \<Rightarrow> string list" where
  "split_whitespace s = words_from [] s"

section \<open>Numbers\<close>

definition digit_val :: "char \<Rightarrow> nat option" where
  "digit_val c = (let n = of_char c :: nat in
     if 48 \<le> n \<and> n \<le> 57 then Some (n - 48)
     else if 97 \<le> n \<and> n \<le> 122 then Some (n - 87)
     else if 65 \<le> n \<and> n \<le> 90 then Some (n - 55)
     else None)"

fun digits_acc :: "nat \<Rightarrow> nat \<Rightarrow> string \<Rightarrow> nat option" where
  "digits_acc r acc [] = Some acc"
| "digits_acc r acc (c # cs) = (case digit_val c of
       None \<Rightarrow> None
     | Some d \<Rightarrow> if d < r then digits_acc r (acc * r + d) cs else None)"

definition strip_plus :: "string \<Rightarrow> string" where
  "strip_plus s = (case s of [] \<Rightarrow> [] | c # t \<Rightarrow> if c = CHR ''+'' then t else s)"

text \<open>\<open>u64::from_str_radix\<close> and its relatives: the value if it is below \<open>2 ^ w\<close>.\<close>

definition parse_unsigned :: "nat \<Rightarrow> nat \<Rightarrow> string \<Rightarrow> nat option" where
  "parse_unsigned w r s = (let t = strip_plus s in
     if t = [] then None
     else case digits_acc r 0 t of
         None \<Rightarrow> None
       | Some v \<Rightarrow> if v < 2 ^ w then Some v else None)"

definition parse_signed :: "nat \<Rightarrow> nat \<Rightarrow> string \<Rightarrow> int option" where
  "parse_signed w r s = (case s of
       [] \<Rightarrow> None
     | c # t \<Rightarrow>
         if c = CHR ''-'' then
           (if t = [] then None else case digits_acc r 0 t of
               None \<Rightarrow> None
             | Some v \<Rightarrow> if v \<le> 2 ^ (w - 1) then Some (- int v) else None)
         else
           (let u = strip_plus s in if u = [] then None else case digits_acc r 0 u of
               None \<Rightarrow> None
             | Some v \<Rightarrow> if v < 2 ^ (w - 1) then Some (int v) else None))"

definition u64_from_str_radix :: "nat \<Rightarrow> string \<Rightarrow> u64 option" where
  "u64_from_str_radix r s = map_option of_nat (parse_unsigned 64 r s)"

definition u32_from_str_radix :: "nat \<Rightarrow> string \<Rightarrow> u32 option" where
  "u32_from_str_radix r s = map_option of_nat (parse_unsigned 32 r s)"

definition i32_from_str_radix :: "nat \<Rightarrow> string \<Rightarrow> i32 option" where
  "i32_from_str_radix r s = map_option of_int (parse_signed 32 r s)"

text \<open>Printing in a radix, most significant digit first, as \<open>{}\<close>, \<open>{:o}\<close> and \<open>{:x}\<close> do.\<close>

definition digit_char :: "nat \<Rightarrow> char" where
  "digit_char d = char_of (if d < 10 then d + 48 else d + 87)"

fun show_radix :: "nat \<Rightarrow> nat \<Rightarrow> string" where
  "show_radix r n =
     (if r < 2 \<or> n < r then [digit_char n] else show_radix r (n div r) @ [digit_char (n mod r)])"

declare show_radix.simps [simp del]

definition show_nat :: "nat \<Rightarrow> string" where
  "show_nat n = show_radix 10 n"

definition show_int :: "int \<Rightarrow> string" where
  "show_int i = (if i < 0 then CHR ''-'' # show_nat (nat (- i)) else show_nat (nat i))"

lemma digit_val_char: "d < 36 \<Longrightarrow> digit_val (digit_char d) = Some d"
  by (auto simp: digit_val_def digit_char_def Let_def)

lemma digit_char_not_ws: "d < 36 \<Longrightarrow> \<not> is_ws (digit_char d)"
  by (auto simp: is_ws_def digit_char_def)

lemma digits_acc_append:
  "digits_acc r acc (xs @ ys) =
     (case digits_acc r acc xs of None \<Rightarrow> None | Some a \<Rightarrow> digits_acc r a ys)"
  by (induction xs arbitrary: acc) (auto split: option.splits)

lemma show_radix_nonempty: "show_radix r n \<noteq> []"
  by (subst show_radix.simps) simp

lemma show_nat_nonempty: "show_nat n \<noteq> []"
  by (simp add: show_nat_def show_radix_nonempty)

lemma digits_acc_show_radix:
  assumes "2 \<le> r" "r \<le> 36"
  shows "digits_acc r 0 (show_radix r n) = Some n"
proof (induction n rule: less_induct)
  case (less n)
  show ?case
  proof (cases "n < r")
    case True
    with assms show ?thesis
      by (subst show_radix.simps) (simp add: digit_val_char)
  next
    case False
    with assms have "n div r < n" by simp
    then have "digits_acc r 0 (show_radix r (n div r)) = Some (n div r)"
      by (rule less.IH)
    moreover have "n mod r < 36"
      using assms mod_less_divisor [of r n] by linarith
    ultimately show ?thesis using False assms
      by (subst show_radix.simps) (simp add: digits_acc_append digit_val_char)
  qed
qed

lemma set_show_radix:
  assumes "2 \<le> r" "r \<le> 36" "c \<in> set (show_radix r n)"
  shows "\<exists>d < r. c = digit_char d"
  using assms(3)
proof (induction n rule: less_induct)
  case (less n)
  show ?case
  proof (cases "n < r")
    case True
    with less.prems show ?thesis by (subst (asm) show_radix.simps) auto
  next
    case False
    with assms have d: "n div r < n" by simp
    from False less.prems assms(1)
    have "c \<in> set (show_radix r (n div r)) \<or> c = digit_char (n mod r)"
      by (subst (asm) show_radix.simps) auto
    with less.IH [OF d] show ?thesis
      using assms(1) mod_less_divisor [of r n] by fastforce
  qed
qed

lemma strip_plus_show_radix:
  assumes "2 \<le> r" "r \<le> 36"
  shows "strip_plus (show_radix r n) = show_radix r n"
proof (cases "show_radix r n")
  case (Cons c t)
  then obtain d where "d < r" "c = digit_char d"
    using set_show_radix [of r c n] assms by auto
  with assms have "digit_val c = Some d" by (simp add: digit_val_char)
  then have "c \<noteq> CHR ''+''" by (auto simp: digit_val_def)
  with Cons show ?thesis by (simp add: strip_plus_def)
qed (simp add: strip_plus_def)

text \<open>What is printed in a radix is read back in that radix.\<close>

lemma parse_unsigned_show_radix:
  "2 \<le> r \<Longrightarrow> r \<le> 36 \<Longrightarrow> n < 2 ^ w \<Longrightarrow> parse_unsigned w r (show_radix r n) = Some n"
  by (simp add: parse_unsigned_def Let_def strip_plus_show_radix show_radix_nonempty
      digits_acc_show_radix)

lemma u64_from_str_radix_show:
  "2 \<le> r \<Longrightarrow> r \<le> 36 \<Longrightarrow> u64_from_str_radix r (show_radix r (unat w)) = Some w"
  using parse_unsigned_show_radix [of r "unat w" 64] unat_lt2p_word [of w]
  by (simp add: u64_from_str_radix_def)

end
