(* ===== verification/Proto.thy ===== *)
theory Proto
  imports RustStr
begin

text \<open>
  The messages of \<open>proto/wraith.proto\<close> as records: the types \<open>build.rs\<close> generates into
  \<open>crate::proto::wraith\<close>. A proto3 message field is an \<open>Option\<close>, a repeated field a list.

  The snapshot is parametrised over the type of its file descriptors. The schema, and with it
  \<open>snapshot.rs\<close>, gives a descriptor a textual type and unsigned flags (\<open>pb_fd\<close>), whereas
  \<open>fd_restore.rs\<close> reads an integer type tag and signed \<open>open_flags\<close> from it (\<open>fd_spec\<close>);
  the two views of the same message do not agree, so each side is modelled with the fields it
  uses.
\<close>

section \<open>Registers\<close>

record pb_registers =
  pr_rax :: u64
  pr_rbx :: u64
  pr_rcx :: u64
  pr_rdx :: u64
  pr_rdi :: u64
  pr_rsi :: u64
  pr_rbp :: u64
  pr_rsp :: u64
  pr_r8 :: u64
  pr_r9 :: u64
  pr_r10 :: u64
  pr_r11 :: u64
  pr_r12 :: u64
  pr_r13 :: u64
  pr_r14 :: u64
  pr_r15 :: u64
  pr_rip :: u64
  pr_rflags :: u64
  pr_cs :: u64
  pr_ss :: u64
  pr_ds :: u64
  pr_es :: u64
  pr_fs :: u64
  pr_gs :: u64
  pr_fs_base :: u64
  pr_gs_base :: u64
  pr_fpu_state :: "u8 list"

section \<open>Memory regions, descriptors and the snapshot\<close>

record pb_region =
  start_addr :: u64
  end_addr :: u64
  size_bytes :: u64
  permissions :: string
  region_type :: string
  backing_file :: string
  file_offset :: u64
  data :: "u8 list"
  checksum :: u64

record pb_fd =
  pf_num :: u32
  pf_type :: string
  pf_path :: string
  pf_offset :: u64
  pf_flags :: u32

record fd_spec =
  fs_num :: u32
  fs_type :: i32
  fs_path :: string
  fs_offset :: u64
  fs_open_flags :: i32

record snapshot_metadata =
  machine_hostname :: string
  meta_process_name :: string
  process_age_seconds :: u64
  thread_count :: u32
  virtual_memory_bytes :: u64
  resident_memory_bytes :: u64

record 'fd process_snapshot =
  snap_pid :: u32
  snap_uid :: u32
  snap_arch :: string
  snap_kernel_version :: string
  captured_at_ns :: u64
  snap_metadata :: "snapshot_metadata option"
  snap_registers :: "pb_registers option"
  memory_regions :: "pb_region list"
  file_descriptors :: "'fd list"
  snap_checksum :: u64
  snapshot_version :: string

end
