(* ===== verification/Kernel.thy ===== *)
theory Kernel
  imports Proto
begin

text \<open>
  The operating system as the program sees it. The kernel, \<open>libc\<close> and \<open>nix\<close> are not part of
  the repository, so every call the code makes is a field of the record \<open>kernel\<close>, a parameter
  of the definitions that use it; \<open>'k\<close> is the state of the system. Calls that only read are
  functions of the state; calls that act return a result and the new state. The theory also
  holds the constants of the Linux x86-64 ABI the code takes from \<open>libc\<close>, and the errors of
  the program: an \<open>anyhow\<close> message is a constructor with the values it interpolates.
\<close>

section \<open>Operating-system values\<close>

datatype os_error =
    Errno nat
  | NotUtf8
  | UnexpectedEof
  | NulInPath

definition EPERM :: os_error where "EPERM = Errno 1"
definition EACCES :: os_error where "EACCES = Errno 13"

datatype signal = SIGSTOP | SIGTRAP | SIGKILL | SIGSEGV | SIG nat

datatype wait_status =
    Stopped signal
  | Exited i32
  | Signaled signal
  | OtherStatus

text \<open>A process that a fork starts: the system calls of the child, in order.\<close>

datatype stub_prog =
    Traceme "int \<Rightarrow> stub_prog"
  | RaiseSig signal stub_prog
  | ExitWith i32

definition PROT_NONE :: i32 where "PROT_NONE = 0"
definition PROT_READ :: i32 where "PROT_READ = 1"
definition PROT_WRITE :: i32 where "PROT_WRITE = 2"
definition PROT_EXEC :: i32 where "PROT_EXEC = 4"

definition MAP_PRIVATE :: i32 where "MAP_PRIVATE = 2"
definition MAP_FIXED :: i32 where "MAP_FIXED = 16"
definition MAP_ANONYMOUS :: i32 where "MAP_ANONYMOUS = 32"

definition SYS_mmap :: u64 where "SYS_mmap = 9"
definition SYS_mprotect :: u64 where "SYS_mprotect = 10"
definition SYS_dup2 :: u64 where "SYS_dup2 = 33"

definition O_RDONLY :: i32 where "O_RDONLY = 0"
definition O_WRONLY :: i32 where "O_WRONLY = 1"
definition O_RDWR :: i32 where "O_RDWR = 2"
definition O_ACCMODE :: i32 where "O_ACCMODE = 3"
definition O_APPEND :: i32 where "O_APPEND = 1024"
definition O_DIRECTORY :: i32 where "O_DIRECTORY = 65536"
definition O_CLOEXEC :: i32 where "O_CLOEXEC = 524288"

text \<open>\<open>size_of::<libc::user_fpregs_struct>()\<close> on x86-64.\<close>

definition FPREGS_SIZE :: nat where "FPREGS_SIZE = 512"

text \<open>\<open>libc::user_regs_struct\<close>.\<close>

record user_regs =
  ur_rax :: u64
  ur_rbx :: u64
  ur_rcx :: u64
  ur_rdx :: u64
  ur_rdi :: u64
  ur_rsi :: u64
  ur_rbp :: u64
  ur_rsp :: u64
  ur_r8 :: u64
  ur_r9 :: u64
  ur_r10 :: u64
  ur_r11 :: u64
  ur_r12 :: u64
  ur_r13 :: u64
  ur_r14 :: u64
  ur_r15 :: u64
  ur_rip :: u64
  ur_eflags :: u64
  ur_cs :: u64
  ur_ss :: u64
  ur_ds :: u64
  ur_es :: u64
  ur_fs :: u64
  ur_gs :: u64
  ur_fs_base :: u64
  ur_gs_base :: u64
  ur_orig_rax :: u64

text \<open>An open \<open>/proc/<pid>/mem\<close>: the process and the current position.\<close>

datatype memh = Memh (memh_pid: pid) (memh_pos: u64)

section \<open>The calls\<close>

record 'k kernel =
  k_read_to_string :: "string \<Rightarrow> 'k \<Rightarrow> os_error + string"
  k_read_file :: "string \<Rightarrow> 'k \<Rightarrow> os_error + u8 list"
  k_open_read :: "string \<Rightarrow> 'k \<Rightarrow> os_error + (nat \<Rightarrow> os_error + u8 list)"
  k_write_file :: "string \<Rightarrow> u8 list \<Rightarrow> ('k, os_error, unit) act"
  k_exists :: "string \<Rightarrow> 'k \<Rightarrow> bool"
  k_read_dir :: "string \<Rightarrow> 'k \<Rightarrow> os_error + (os_error + string) list"
  k_read_link :: "string \<Rightarrow> 'k \<Rightarrow> os_error + string"
  k_is_dir :: "string \<Rightarrow> 'k \<Rightarrow> os_error + bool"
  k_now :: "'k \<Rightarrow> os_error + nat"
  k_attach :: "pid \<Rightarrow> ('k, os_error, unit) act"
  k_detach :: "pid \<Rightarrow> ('k, os_error, unit) act"
  k_waitpid :: "pid \<Rightarrow> ('k, os_error, wait_status) act"
  k_cont :: "pid \<Rightarrow> ('k, os_error, unit) act"
  k_kill :: "pid \<Rightarrow> signal \<Rightarrow> ('k, os_error, unit) act"
  k_fork :: "stub_prog \<Rightarrow> ('k, os_error, pid) act"
  k_getregs :: "pid \<Rightarrow> ('k, os_error, user_regs) act"
  k_setregs :: "pid \<Rightarrow> user_regs \<Rightarrow> ('k, os_error, unit) act"
  k_getfpregs :: "pid \<Rightarrow> ('k, os_error, u8 list) act"
  k_setfpregs :: "pid \<Rightarrow> u8 list \<Rightarrow> ('k, os_error, unit) act"
  k_peek :: "pid \<Rightarrow> u64 \<Rightarrow> ('k, os_error, u64) act"
  k_poke :: "pid \<Rightarrow> u64 \<Rightarrow> u64 \<Rightarrow> ('k, os_error, unit) act"
  k_mem_open :: "bool \<Rightarrow> pid \<Rightarrow> ('k, os_error, memh) act"
  k_mem_seek :: "memh \<Rightarrow> u64 \<Rightarrow> ('k, os_error, memh) act"
  k_mem_read_exact :: "memh \<Rightarrow> nat \<Rightarrow> ('k, os_error, u8 list) act"
  k_mem_write_all :: "memh \<Rightarrow> u8 list \<Rightarrow> ('k, os_error, unit) act"
  k_open :: "string \<Rightarrow> i32 \<Rightarrow> ('k, os_error, i32) act"
  k_seek :: "i32 \<Rightarrow> u64 \<Rightarrow> ('k, os_error, unit) act"
  k_close :: "i32 \<Rightarrow> ('k, os_error, unit) act"

section \<open>Errors of the program\<close>

text \<open>One datatype per module, in the order of the modules; \<open>error\<close> is \<open>anyhow::Error\<close>.\<close>

datatype common_error =
    ProcessNotFound pid
  | PermissionDenied string pid
  | NeedsX86_64 string
  | CannotOpen string os_error
  | CannotRead string os_error
  | IoError os_error
  | NotElf pid

datatype memory_error =
    CannotSeek u64 string os_error
  | CannotReadBytes nat u64 u64 string os_error
  | MissingAddressRange string
  | MissingPermissions string
  | MissingOffset string
  | MalformedAddressRange string
  | BadStartAddress string
  | BadEndAddress string
  | BadOffset string

datatype capture_error =
    GetRegsFailed pid os_error
  | GetFpRegsFailed pid os_error
  | RipInKernelSpace u64
  | RspZero
  | FpuStateLength nat nat
  | AttachFailed pid os_error
  | WaitAfterAttachFailed pid os_error
  | DetachFailed pid os_error
  | RegistersRequired
  | WriteSnapshotFailed string os_error
  | ReadSnapshotFailed string os_error
  | DecodeSnapshotFailed string

datatype layout_error =
    StartAboveUserSpace u64 u64
  | CrossesUserSpace u64 u64
  | ZeroSizeRegion u64
  | OverlappingRegions u64 u64 u64 u64

datatype fd_error =
    OpenFailed string os_error
  | SeekFailed u64 string os_error
  | PathHasNul
  | OpenDirFailed string os_error

datatype inject_error =
    InjectGetRegs os_error
  | InjectPeek u64 os_error
  | InjectPoke u64 os_error
  | InjectSetRegs os_error
  | InjectCont os_error
  | InjectWaitpid os_error
  | InjectSignal signal
  | InjectStatus wait_status
  | InjectGetResult os_error
  | InjectRestorePoke os_error
  | InjectRestoreRegs os_error
  | SyscallErrno u64 u64

datatype restore_error =
    SnapshotArch string
  | HostArch string
  | NoRegisters
  | NoMemoryRegions
  | ForkFailed os_error
  | WaitAfterForkFailed os_error
  | StubUnexpectedSignal signal
  | StubUnexpectedStatus wait_status
  | ChecksumMismatch u64 u64 u64
  | MmapPlacement u64 u64

datatype child_error =
    NoRegisterState
  | SetRegsFailed os_error
  | FpuSize nat nat
  | SetFpRegsFailed os_error
  | RestoreDetachFailed os_error
  | MemOpenFailed pid os_error
  | MemSeekFailed u64 os_error
  | MemWriteFailed nat u64 os_error

datatype error =
    Common common_error
  | Memory_Err memory_error
  | Capture_Err capture_error
  | Layout_Err layout_error
  | Fd_Err fd_error
  | Inject_Err inject_error
  | Restore_Err restore_error
  | Child_Err child_error

definition err_process_not_found :: "pid \<Rightarrow> error" where
  "err_process_not_found p = Common (ProcessNotFound p)"

definition err_permission :: "string \<Rightarrow> pid \<Rightarrow> error" where
  "err_permission action p = Common (PermissionDenied action p)"

section \<open>Paths under /proc\<close>

text \<open>\<open>format!("/proc/{}/maps", pid)\<close> and its relatives; a pid prints as a signed integer.\<close>

definition show_pid :: "pid \<Rightarrow> string" where
  "show_pid p = show_int (sint p)"

definition proc_dir :: "pid \<Rightarrow> string" where
  "proc_dir p = ''/proc/'' @ show_pid p"

definition proc_file :: "pid \<Rightarrow> string \<Rightarrow> string" where
  "proc_file p f = proc_dir p @ ''/'' @ f"

end
