(* ===== verification/Interfaces.thy ===== *)
theory Interfaces
  imports Kernel
begin

text \<open>
  What the components promise each other, stated over unbounded addresses and independent of
  how a component keeps the promise: the layout check the restorer relies on before it maps a
  snapshot. The theory of the component that provides an interface interprets its locale.
\<close>

section \<open>Pages\<close>

definition page_up :: "nat \<Rightarrow> nat" where
  "page_up n = (n + 4095) div 4096 * 4096"

lemma page_up_ge: "n \<le> page_up n"
  unfolding page_up_def by linarith
lemma page_up_less: "page_up n < n + 4096"
  unfolding page_up_def by linarith
lemma page_up_dvd: "4096 dvd page_up n"
  by (simp add: page_up_def)
lemma page_up_le: "n \<le> m \<Longrightarrow> 4096 dvd m \<Longrightarrow> page_up n \<le> m"
proof -
  assume "n \<le> m" and "4096 dvd m"
  then obtain k where m: "m = 4096 * k" by (elim dvdE)
  have "(n + 4095) div 4096 \<le> (m + 4095) div 4096"
    using \<open>n \<le> m\<close> by (intro div_le_mono) simp
  with m show ?thesis by (simp add: page_up_def)
qed
lemma page_up_ident: "4096 dvd n \<Longrightarrow> page_up n = n"
  unfolding page_up_def by (elim dvdE) simp

section \<open>Regions\<close>

text \<open>
  What validation is for, in unbounded arithmetic: every region is non-empty and lies below
  \<open>2 ^ 47\<close>, and no two regions share an address.
\<close>

definition region_bounded :: "pb_region \<Rightarrow> bool" where
  "region_bounded r \<longleftrightarrow>
     size_bytes r \<noteq> 0 \<and> unat (start_addr r) + unat (size_bytes r) \<le> 2 ^ 47"

definition region_addrs :: "pb_region \<Rightarrow> nat set" where
  "region_addrs r = {unat (start_addr r) ..< unat (start_addr r) + unat (size_bytes r)}"

definition regions_disjoint :: "pb_region \<Rightarrow> pb_region \<Rightarrow> bool" where
  "regions_disjoint a b \<longleftrightarrow> region_addrs a \<inter> region_addrs b = {}"

lemma regions_disjoint_sym: "regions_disjoint a b \<Longrightarrow> regions_disjoint b a"
  by (auto simp: regions_disjoint_def)

text \<open>
  The addresses a mapping of a region occupies: from its first address to the end of its last
  page. Mappings start on page boundaries, so two disjoint regions have disjoint pages.
\<close>

definition region_pages :: "pb_region \<Rightarrow> nat set" where
  "region_pages r = {unat (start_addr r) ..< page_up (unat (start_addr r) + unat (size_bytes r))}"

definition page_aligned :: "u64 \<Rightarrow> bool" where
  "page_aligned a \<longleftrightarrow> 4096 dvd unat a"

lemma region_addrs_subset_pages: "region_addrs r \<subseteq> region_pages r"
  using page_up_ge [of "unat (start_addr r) + unat (size_bytes r)"]
  by (auto simp: region_addrs_def region_pages_def)

lemma pages_disjoint:
  assumes "regions_disjoint a b" "size_bytes a \<noteq> 0" "size_bytes b \<noteq> 0"
    and "page_aligned (start_addr a)" "page_aligned (start_addr b)"
  shows "region_pages a \<inter> region_pages b = {}"
proof -
  let ?s = "\<lambda>r. unat (start_addr r)" and ?n = "\<lambda>r. unat (size_bytes r)"
  have pos: "?n a > 0" "?n b > 0"
    using assms(2,3) by (simp_all add: unat_gt_0)
  have "?s a + ?n a \<le> ?s b \<or> ?s b + ?n b \<le> ?s a"
    using assms(1) pos unfolding regions_disjoint_def region_addrs_def by auto
  then have "page_up (?s a + ?n a) \<le> ?s b \<or> page_up (?s b + ?n b) \<le> ?s a"
    using assms(4,5) page_up_le unfolding page_aligned_def by blast
  then show ?thesis by (auto simp: region_pages_def)
qed

section \<open>The layout check\<close>

locale layout_checker =
  fixes check :: "'fd process_snapshot \<Rightarrow> error + unit"
  assumes check_bounded:
      "check snap = Inr () \<Longrightarrow> r \<in> set (memory_regions snap) \<Longrightarrow> region_bounded r"
    and check_disjoint:
      "check snap = Inr () \<Longrightarrow> sorted_wrt regions_disjoint (memory_regions snap)"
begin

lemma no_wrap:
  assumes "check snap = Inr ()" "r \<in> set (memory_regions snap)"
  shows "unat (start_addr r + size_bytes r) = unat (start_addr r) + unat (size_bytes r)"
  using check_bounded [OF assms] by (simp add: region_bounded_def word_le_add_unat)

lemma pages_in_user_space:
  assumes "check snap = Inr ()" "r \<in> set (memory_regions snap)"
  shows "region_pages r \<subseteq> {..< 2 ^ 47}"
proof -
  have "page_up (unat (start_addr r) + unat (size_bytes r)) \<le> 2 ^ 47"
    using check_bounded [OF assms] by (intro page_up_le) (simp_all add: region_bounded_def)
  then show ?thesis by (auto simp: region_pages_def)
qed

text \<open>Mapping the regions one after the other never touches an earlier one.\<close>

lemma later_pages_disjoint:
  assumes ok: "check snap = Inr ()" and split: "memory_regions snap = as @ r # bs"
    and b: "b \<in> set bs" and al: "page_aligned (start_addr r)" "page_aligned (start_addr b)"
  shows "region_pages r \<inter> region_pages b = {}"
proof (rule pages_disjoint)
  show "regions_disjoint r b"
    using check_disjoint [OF ok] b unfolding split by (simp add: sorted_wrt_append)
  show "size_bytes r \<noteq> 0" "size_bytes b \<noteq> 0"
    using check_bounded [OF ok, of r] check_bounded [OF ok, of b] b split
    by (simp_all add: region_bounded_def)
qed (use al in simp_all)

end

section \<open>Concrete inputs for the witnesses\<close>

definition sample_region :: "u64 \<Rightarrow> u64 \<Rightarrow> string \<Rightarrow> u8 list \<Rightarrow> u64 \<Rightarrow> pb_region" where
  "sample_region a n perms bs ck = \<lparr>start_addr = a, end_addr = a + n, size_bytes = n,
     permissions = perms, region_type = ''anon'', backing_file = [], file_offset = 0,
     data = bs, checksum = ck\<rparr>"

definition sample_registers :: "u64 \<Rightarrow> u64 \<Rightarrow> u8 list \<Rightarrow> pb_registers" where
  "sample_registers ip sp fpu = \<lparr>pr_rax = 1, pr_rbx = 2, pr_rcx = 3, pr_rdx = 4, pr_rdi = 5,
     pr_rsi = 6, pr_rbp = 7, pr_rsp = sp, pr_r8 = 8, pr_r9 = 9, pr_r10 = 10, pr_r11 = 11,
     pr_r12 = 12, pr_r13 = 13, pr_r14 = 14, pr_r15 = 15, pr_rip = ip, pr_rflags = 0x202,
     pr_cs = 0x33, pr_ss = 0x2b, pr_ds = 0, pr_es = 0, pr_fs = 0, pr_gs = 0,
     pr_fs_base = 0x700000000000, pr_gs_base = 0, pr_fpu_state = fpu\<rparr>"

definition sample_snapshot ::
    "pb_registers option \<Rightarrow> pb_region list \<Rightarrow> 'fd list \<Rightarrow> 'fd process_snapshot" where
  "sample_snapshot regs rs fds = \<lparr>snap_pid = 7, snap_uid = 1000, snap_arch = ''x86_64'',
     snap_kernel_version = ''Linux 6.1.0'', captured_at_ns = 1, snap_metadata = None,
     snap_registers = regs, memory_regions = rs, file_descriptors = fds, snap_checksum = 0,
     snapshot_version = ''1.0''\<rparr>"

end
