(* ===== verification/Aslr.thy ===== *)
theory Aslr
  imports Interfaces
begin

text \<open>
  \<open>aslr.rs\<close>: the address-space layout of a snapshot, its validation before the restorer
  forks, the search for a base above it, and the decoding of permission strings. Additions on
  \<open>u64\<close> wrap, as in a release build; the lemmas show that no validated layout contains a wrap.
\<close>

section \<open>Address ranges\<close>

record addr_range =
  ar_start :: u64
  ar_end :: u64

definition range_size :: "addr_range \<Rightarrow> u64" where
  "range_size r = saturating_sub (ar_end r) (ar_start r)"

definition overlaps :: "addr_range \<Rightarrow> addr_range \<Rightarrow> bool" where
  "overlaps r other \<longleftrightarrow> ar_start r < ar_end other \<and> ar_start other < ar_end r"

lemma overlaps_sym: "overlaps a b = overlaps b a"
  by (auto simp: overlaps_def)

section \<open>The layout of a snapshot\<close>

record address_space_layout =
  ranges :: "addr_range list"

definition region_range :: "pb_region \<Rightarrow> addr_range" where
  "region_range r = \<lparr>ar_start = start_addr r, ar_end = start_addr r + size_bytes r\<rparr>"

definition from_snapshot :: "'fd process_snapshot \<Rightarrow> address_space_layout" where
  "from_snapshot snap = \<lparr>ranges = sort_key ar_start (map region_range (memory_regions snap))\<rparr>"

definition USER_SPACE_LIMIT :: u64 where
  "USER_SPACE_LIMIT = push_bit 47 1"

fun check_ranges :: "addr_range list \<Rightarrow> error + unit" where
  "check_ranges [] = Inr ()"
| "check_ranges (r # rs) =
     (if ar_start r \<ge> USER_SPACE_LIMIT then
        Inl (Layout_Err (StartAboveUserSpace (ar_start r) (ar_end r)))
      else if ar_end r > USER_SPACE_LIMIT then
        Inl (Layout_Err (CrossesUserSpace (ar_start r) (ar_end r)))
      else if range_size r = 0 then
        Inl (Layout_Err (ZeroSizeRegion (ar_start r)))
      else check_ranges rs)"

fun check_pairs :: "(addr_range \<times> addr_range) list \<Rightarrow> error + unit" where
  "check_pairs [] = Inr ()"
| "check_pairs ((a, b) # ps) =
     (if overlaps a b then
        Inl (Layout_Err (OverlappingRegions (ar_start a) (ar_end a) (ar_start b) (ar_end b)))
      else check_pairs ps)"

definition layout_validate :: "address_space_layout \<Rightarrow> error + unit" where
  "layout_validate L =
     bind_res (check_ranges (ranges L)) (\<lambda>_. check_pairs (windows2 (ranges L)))"

definition PAGE :: u64 where
  "PAGE = 4096"

definition max_end :: "address_space_layout \<Rightarrow> u64" where
  "max_end L = (case map ar_end (ranges L) of [] \<Rightarrow> PAGE | e # es \<Rightarrow> fold max es e)"

definition page_round_up :: "u64 \<Rightarrow> u64" where
  "page_round_up a = (a + PAGE - 1) AND NOT (PAGE - 1)"

definition find_safe_base :: "address_space_layout \<Rightarrow> u64" where
  "find_safe_base L = page_round_up (max_end L)"

definition conflicts_with :: "address_space_layout \<Rightarrow> addr_range \<Rightarrow> bool" where
  "conflicts_with L candidate = list_ex (\<lambda>r. overlaps r candidate) (ranges L)"

definition total_bytes :: "address_space_layout \<Rightarrow> u64" where
  "total_bytes L = sum_list (map range_size (ranges L))"

section \<open>Permissions\<close>

definition byte_at :: "string \<Rightarrow> nat \<Rightarrow> char option" where
  "byte_at s i = (if i < length s then Some (s ! i) else None)"

definition perms_to_prot :: "string \<Rightarrow> i32" where
  "perms_to_prot perms =
     (let p0 = PROT_NONE;
          p1 = (if byte_at perms 0 = Some CHR ''r'' then p0 OR PROT_READ else p0);
          p2 = (if byte_at perms 1 = Some CHR ''w'' then p1 OR PROT_WRITE else p1)
      in (if byte_at perms 2 = Some CHR ''x'' then p2 OR PROT_EXEC else p2))"

section \<open>Validation is exact\<close>

definition range_ok :: "addr_range \<Rightarrow> bool" where
  "range_ok r \<longleftrightarrow>
     ar_start r < USER_SPACE_LIMIT \<and> ar_end r \<le> USER_SPACE_LIMIT \<and> ar_start r < ar_end r"

lemma and_not_mask_eq: "w AND NOT (mask n) = push_bit n (drop_bit n w)" for w :: "'a::len word"
  by (rule bit_word_eqI) (auto simp: bit_simps)

lemma unat_and_not_page: "unat (w AND NOT 4095 :: u64) = unat w div 4096 * 4096"
proof -
  have m: "(4095 :: u64) = mask 12" by (simp add: mask_eq_exp_minus_1)
  have "unat w div 4096 * 4096 < 2 ^ 64"
    using unat_lt2p_word [of w] div_times_less_eq_dividend [of "unat w" 4096] by simp
  then show ?thesis
    unfolding m and_not_mask_eq
    by (simp add: unsigned_push_bit_eq unsigned_drop_bit_eq drop_bit_eq_div push_bit_eq_mult
        take_bit_eq_mod unat_word_ariths unat_div)
qed

lemma unat_page_round_up:
  assumes "unat a + 4095 < 2 ^ 64"
  shows "unat (page_round_up a) = page_up (unat a)"
proof -
  have "page_round_up a = (a + 4095) AND NOT 4095"
    by (simp add: page_round_up_def PAGE_def add.commute)
  moreover have "unat (a + 4095) = unat a + 4095"
    using assms by (simp add: word_le_add_unat)
  ultimately show ?thesis
    by (simp only: page_up_def unat_and_not_page)
qed

lemma user_space_limit: "USER_SPACE_LIMIT = 140737488355328"
  by (simp add: USER_SPACE_LIMIT_def)

lemma check_ranges_ok: "check_ranges rs = Inr () \<longleftrightarrow> (\<forall>r \<in> set rs. range_ok r)"
  by (induction rs)
     (auto simp: range_ok_def range_size_def saturating_sub_eq_0 not_le not_less)

lemma check_pairs_ok:
  "check_pairs ps = Inr () \<longleftrightarrow> (\<forall>p \<in> set ps. \<not> overlaps (fst p) (snd p))"
  by (induction ps rule: check_pairs.induct) auto

lemma layout_validate_ok:
  "layout_validate L = Inr () \<longleftrightarrow>
     (\<forall>r \<in> set (ranges L). range_ok r) \<and>
     (\<forall>p \<in> set (windows2 (ranges L)). \<not> overlaps (fst p) (snd p))"
  by (auto simp: layout_validate_def bind_res_Inr check_ranges_ok check_pairs_ok)

lemma region_range_ok: "range_ok (region_range r) \<longleftrightarrow> region_bounded r"
proof -
  have u: "unat (start_addr r + size_bytes r) =
      (unat (start_addr r) + unat (size_bytes r)) mod 2 ^ 64"
    by (simp add: unat_word_ariths)
  have b: "unat (start_addr r) < 2 ^ 64" "unat (size_bytes r) < 2 ^ 64"
    using unat_lt2p_word [of "start_addr r"] unat_lt2p_word [of "size_bytes r"] by simp_all
  have z: "size_bytes r = 0 \<longleftrightarrow> unat (size_bytes r) = 0"
    by (simp add: unat_eq_zero)
  show ?thesis
  proof (cases "unat (start_addr r) + unat (size_bytes r) < 2 ^ 64")
    case True
    then show ?thesis
      by (auto simp: range_ok_def region_bounded_def region_range_def user_space_limit
          word_less_nat_alt word_le_nat_alt u z)
  next
    case False
    then have "(unat (start_addr r) + unat (size_bytes r)) mod 2 ^ 64 =
        unat (start_addr r) + unat (size_bytes r) - 2 ^ 64"
      using b by (simp add: mod_if)
    with False b show ?thesis
      by (auto simp: range_ok_def region_bounded_def region_range_def user_space_limit
          word_less_nat_alt word_le_nat_alt u)
  qed
qed

lemma region_range_start [simp]: "ar_start (region_range r) = start_addr r"
  by (simp add: region_range_def)

lemma region_range_end:
  "region_bounded r \<Longrightarrow>
   unat (ar_end (region_range r)) = unat (start_addr r) + unat (size_bytes r)"
  by (simp add: region_bounded_def region_range_def word_le_add_unat)

text \<open>On ranges that pass the first loop, overlap of ranges is a common address.\<close>

lemma overlaps_region_range:
  assumes "region_bounded a" "region_bounded b"
  shows "overlaps (region_range a) (region_range b) \<longleftrightarrow> \<not> regions_disjoint a b"
proof -
  have pos: "unat (size_bytes a) > 0" "unat (size_bytes b) > 0"
    using assms by (auto simp: region_bounded_def unat_gt_0)
  have "overlaps (region_range a) (region_range b) \<longleftrightarrow>
      unat (start_addr a) < unat (start_addr b) + unat (size_bytes b) \<and>
      unat (start_addr b) < unat (start_addr a) + unat (size_bytes a)"
    unfolding overlaps_def word_less_nat_alt region_range_end [OF assms(1)]
      region_range_end [OF assms(2)] by (simp add: region_range_def)
  also have "\<dots> \<longleftrightarrow> \<not> regions_disjoint a b"
    using pos unfolding regions_disjoint_def region_addrs_def by auto
  finally show ?thesis .
qed

text \<open>In a list sorted by start address, checking adjacent pairs is checking all pairs.\<close>

lemma sorted_no_overlap_iff:
  assumes ok: "\<forall>r \<in> set rs. range_ok r" and srt: "sorted (map ar_start rs)"
  shows "(\<forall>p \<in> set (windows2 rs). \<not> overlaps (fst p) (snd p)) \<longleftrightarrow>
         sorted_wrt (\<lambda>a b. \<not> overlaps a b) rs"
proof
  assume h: "\<forall>p \<in> set (windows2 rs). \<not> overlaps (fst p) (snd p)"
  have chain: "\<forall>p \<in> set (windows2 rs). ar_end (fst p) \<le> ar_start (snd p)"
  proof
    fix p assume p: "p \<in> set (windows2 rs)"
    then have "snd p \<in> set rs"
      by (auto simp: windows2_def dest!: set_zip_rightD list.set_sel(2) [rotated])
        (metis list.sel(2) list.set_sel(2) prod.collapse set_zip_rightD)
    with ok have "ar_start (snd p) < ar_end (snd p)" by (auto simp: range_ok_def)
    moreover have "ar_start (fst p) \<le> ar_start (snd p)"
      using srt p sorted_wrt_windows2 [of "\<lambda>a b. ar_start a \<le> ar_start b" rs p]
      by (simp add: sorted_map)
    ultimately show "ar_end (fst p) \<le> ar_start (snd p)"
      using h p by (fastforce simp: overlaps_def)
  qed
  have "sorted_wrt (\<lambda>a b. ar_end a \<le> ar_start b) rs"
  proof (rule windows2_sorted_wrt [OF chain])
    fix x y z
    assume "y \<in> set rs" "ar_end x \<le> ar_start y" "ar_end y \<le> ar_start z"
    with ok show "ar_end x \<le> ar_start z" by (fastforce simp: range_ok_def)
  qed
  then show "sorted_wrt (\<lambda>a b. \<not> overlaps a b) rs"
    by (rule sorted_wrt_mono_rel [rotated]) (auto simp: overlaps_def)
next
  assume "sorted_wrt (\<lambda>a b. \<not> overlaps a b) rs"
  then show "\<forall>p \<in> set (windows2 rs). \<not> overlaps (fst p) (snd p)"
    by (auto dest: sorted_wrt_windows2)
qed

lemma set_from_snapshot: "set (ranges (from_snapshot snap)) = region_range ` set (memory_regions snap)"
  by (simp add: from_snapshot_def)

lemma sorted_from_snapshot: "sorted (map ar_start (ranges (from_snapshot snap)))"
  by (simp add: from_snapshot_def)

lemma validate_snapshot_ok:
  "layout_validate (from_snapshot snap) = Inr () \<longleftrightarrow>
     (\<forall>r \<in> set (memory_regions snap). region_bounded r) \<and>
     sorted_wrt regions_disjoint (memory_regions snap)"
proof (cases "\<forall>r \<in> set (memory_regions snap). region_bounded r")
  case True
  let ?rs = "map region_range (memory_regions snap)"
  have ok: "\<forall>r \<in> set (ranges (from_snapshot snap)). range_ok r"
    using True by (simp add: set_from_snapshot region_range_ok)
  have "layout_validate (from_snapshot snap) = Inr () \<longleftrightarrow>
      sorted_wrt (\<lambda>a b. \<not> overlaps a b) (ranges (from_snapshot snap))"
    using ok by (simp add: layout_validate_ok sorted_no_overlap_iff sorted_from_snapshot)
  also have "\<dots> \<longleftrightarrow> sorted_wrt (\<lambda>a b. \<not> overlaps a b) ?rs"
    by (rule sorted_wrt_mset_sym) (auto simp: overlaps_sym from_snapshot_def)
  also have "\<dots> \<longleftrightarrow> sorted_wrt regions_disjoint (memory_regions snap)"
    unfolding sorted_wrt_map using True
    by (simp add: sorted_wrt_iff_nth_less overlaps_region_range)
  finally show ?thesis using True by simp
next
  case False
  then show ?thesis
    by (auto simp: layout_validate_ok set_from_snapshot region_range_ok)
qed


interpretation layout: layout_checker "\<lambda>snap. layout_validate (from_snapshot snap)"
  by unfold_locales (simp_all add: validate_snapshot_ok)

section \<open>The base above the layout, conflicts and totals\<close>

lemma fold_max_ge: "(\<forall>x \<in> set xs. x \<le> fold max xs a) \<and> a \<le> fold max xs (a::'a::linorder)"
proof (induction xs arbitrary: a)
  case (Cons x xs)
  from Cons [of "max x a"] show ?case by (auto intro: order.trans)
qed simp
lemma fold_max_in: "fold max xs a \<in> insert a (set xs)" for a :: "'a::linorder"
  by (induction xs arbitrary: a) (auto simp: max_def split: if_splits)


lemma max_end_ge: "r \<in> set (ranges L) \<Longrightarrow> ar_end r \<le> max_end L"
  using fold_max_ge [of "tl (map ar_end (ranges L))" "hd (map ar_end (ranges L))"]
  by (cases "ranges L") (auto simp: max_end_def)

lemma max_end_le:
  assumes "layout_validate L = Inr ()"
  shows "unat (max_end L) \<le> 2 ^ 47"
proof (cases "ranges L")
  case Nil
  then show ?thesis by (simp add: max_end_def PAGE_def)
next
  case (Cons r rs)
  then have "max_end L \<in> ar_end ` set (ranges L)"
    using fold_max_in [of "map ar_end rs" "ar_end r"] by (auto simp: max_end_def)
  with assms show ?thesis
    by (auto simp: layout_validate_ok range_ok_def user_space_limit word_le_nat_alt)
qed

lemma unat_find_safe_base:
  assumes "layout_validate L = Inr ()"
  shows "unat (find_safe_base L) = page_up (unat (max_end L))"
  using max_end_le [OF assms] by (simp add: find_safe_base_def unat_page_round_up)

lemma sum_range_sizes:
  assumes "\<forall>r \<in> set rs. range_ok r \<and> lo \<le> unat (ar_start r)"
    and "sorted_wrt (\<lambda>a b. unat (ar_end a) \<le> unat (ar_start b)) rs" and "lo \<le> 2 ^ 47"
  shows "lo + (\<Sum>r\<leftarrow>rs. unat (ar_end r) - unat (ar_start r)) \<le> 2 ^ 47"
  using assms
proof (induction rs arbitrary: lo)
  case (Cons r rs)
  have r: "unat (ar_end r) \<le> 2 ^ 47" "lo \<le> unat (ar_start r)" "unat (ar_start r) < unat (ar_end r)"
    using Cons.prems(1) by (auto simp: range_ok_def user_space_limit word_le_nat_alt word_less_nat_alt)
  have "unat (ar_end r) + (\<Sum>r\<leftarrow>rs. unat (ar_end r) - unat (ar_start r)) \<le> 2 ^ 47"
    using Cons.prems r(1) by (intro Cons.IH) auto
  with r show ?case by simp
qed simp

lemma unat_sum_list:
  "(\<Sum>w\<leftarrow>ws. unat w) < 2 ^ 64 \<Longrightarrow> unat (sum_list ws) = (\<Sum>w\<leftarrow>ws. unat w)" for ws :: "u64 list"
  by (induction ws) (simp_all add: word_le_add_unat)

lemma sorted_chain:
  assumes "layout_validate (from_snapshot snap) = Inr ()"
  shows "sorted_wrt (\<lambda>a b. unat (ar_end a) \<le> unat (ar_start b)) (ranges (from_snapshot snap))"
proof -
  let ?rs = "ranges (from_snapshot snap)"
  have ok: "\<forall>r \<in> set ?rs. range_ok r"
    using assms by (simp add: layout_validate_ok)
  have "sorted_wrt (\<lambda>a b. \<not> overlaps a b) ?rs"
    using assms ok by (simp add: layout_validate_ok sorted_no_overlap_iff sorted_from_snapshot)
  moreover have "sorted_wrt (\<lambda>a b. ar_start a \<le> ar_start b) ?rs"
    using sorted_from_snapshot [of snap] by (simp add: sorted_map)
  ultimately have both: "sorted_wrt (\<lambda>a b. \<not> overlaps a b \<and> ar_start a \<le> ar_start b) ?rs"
    by (simp add: sorted_wrt_iff_nth_less)
  have "unat (ar_end a) \<le> unat (ar_start b)"
    if "a \<in> set ?rs" "b \<in> set ?rs" "\<not> overlaps a b \<and> ar_start a \<le> ar_start b" for a b
  proof -
    from ok that have "ar_start b < ar_end b" by (simp add: range_ok_def)
    with that show ?thesis
      by (auto simp: overlaps_def word_le_nat_alt word_less_nat_alt not_less)
  qed
  then show ?thesis by (rule sorted_wrt_mono_rel [OF _ both])
qed

lemma total_bytes_sum:
  assumes "layout_validate (from_snapshot snap) = Inr ()"
  shows "unat (total_bytes (from_snapshot snap)) = (\<Sum>r\<leftarrow>memory_regions snap. unat (size_bytes r))"
    and "(\<Sum>r\<leftarrow>memory_regions snap. unat (size_bytes r)) \<le> 2 ^ 47"
proof -
  let ?rs = "ranges (from_snapshot snap)"
  let ?f = "\<lambda>r. unat (ar_end r) - unat (ar_start r)"
  have ok: "\<forall>r \<in> set ?rs. range_ok r"
    using assms by (simp add: layout_validate_ok)
  have m: "mset (map ?f ?rs) = mset (map (?f \<circ> region_range) (memory_regions snap))"
    by (simp add: from_snapshot_def multiset.map_comp comp_def)
  have perm: "sum_list (map ?f ?rs) = sum_list (map (?f \<circ> region_range) (memory_regions snap))"
    using arg_cong [OF m, of sum_mset] by (simp only: sum_mset_sum_list)
  have bd: "\<forall>r \<in> set (memory_regions snap). region_bounded r"
    using assms by (simp add: validate_snapshot_ok)
  have size: "map (?f \<circ> region_range) (memory_regions snap) =
      map (\<lambda>r. unat (size_bytes r)) (memory_regions snap)"
    by (rule map_cong [OF refl]) (simp add: bd region_range_end)
  have le: "sum_list (map ?f ?rs) \<le> 2 ^ 47"
    using sum_range_sizes [of ?rs 0] ok sorted_chain [OF assms] by simp
  have "(\<Sum>w\<leftarrow>map range_size ?rs. unat w) = sum_list (map ?f ?rs)"
    by (simp add: range_size_def unat_saturating_sub comp_def)
  then have "unat (total_bytes (from_snapshot snap)) = sum_list (map ?f ?rs)"
    using le unat_sum_list [of "map range_size ?rs"] by (simp add: total_bytes_def)
  with perm size le
  show "unat (total_bytes (from_snapshot snap)) = (\<Sum>r\<leftarrow>memory_regions snap. unat (size_bytes r))"
    and "(\<Sum>r\<leftarrow>memory_regions snap. unat (size_bytes r)) \<le> 2 ^ 47"
    by simp_all
qed

lemma conflicts_region:
  assumes "region_bounded r" "ar_start c < ar_end c"
  shows "overlaps (region_range r) c \<longleftrightarrow>
     region_addrs r \<inter> {unat (ar_start c) ..< unat (ar_end c)} \<noteq> {}"
proof -
  have pos: "unat (size_bytes r) > 0"
    using assms(1) by (auto simp: region_bounded_def unat_gt_0)
  have "overlaps (region_range r) c \<longleftrightarrow> unat (start_addr r) < unat (ar_end c) \<and>
      unat (ar_start c) < unat (start_addr r) + unat (size_bytes r)"
    unfolding overlaps_def word_less_nat_alt region_range_end [OF assms(1)]
    by (simp add: region_range_def)
  also have "\<dots> \<longleftrightarrow> region_addrs r \<inter> {unat (ar_start c) ..< unat (ar_end c)} \<noteq> {}"
    using pos assms(2) unfolding region_addrs_def word_less_nat_alt by auto
  finally show ?thesis .
qed

lemma prot_bits:
  "bit PROT_NONE i \<longleftrightarrow> False" "bit PROT_READ i \<longleftrightarrow> i = 0"
  "bit PROT_WRITE i \<longleftrightarrow> i = 1" "bit PROT_EXEC i \<longleftrightarrow> i = 2"
proof -
  have e: "bit (2 ^ n :: i32) i \<longleftrightarrow> i < 32 \<and> i = n" for n
    by (auto simp: bit_exp_iff)
  show "bit PROT_WRITE i \<longleftrightarrow> i = 1" "bit PROT_EXEC i \<longleftrightarrow> i = 2"
    using e [of 1] e [of 2] by (auto simp: PROT_WRITE_def PROT_EXEC_def)
qed (simp_all add: PROT_NONE_def PROT_READ_def bit_1_iff)

lemma check_ranges_error:
  "check_ranges rs = Inl e \<Longrightarrow> \<exists>r \<in> set rs.
     e = Layout_Err (StartAboveUserSpace (ar_start r) (ar_end r)) \<and> USER_SPACE_LIMIT \<le> ar_start r \<or>
     e = Layout_Err (CrossesUserSpace (ar_start r) (ar_end r)) \<and> USER_SPACE_LIMIT < ar_end r \<or>
     e = Layout_Err (ZeroSizeRegion (ar_start r)) \<and> ar_end r \<le> ar_start r"
  by (induction rs)
     (auto simp: range_size_def saturating_sub_eq_0 not_le not_less split: if_splits)

lemma check_pairs_error:
  "check_pairs ps = Inl e \<Longrightarrow> \<exists>(a, b) \<in> set ps. overlaps a b \<and>
     e = Layout_Err (OverlappingRegions (ar_start a) (ar_end a) (ar_start b) (ar_end b))"
  by (induction ps rule: check_pairs.induct) (auto split: if_splits)

section \<open>Properties\<close>

text \<open>C27: The layout check accepts a snapshot exactly when every region is non-empty and ends
  at or below \<open>2 ^ 47\<close> (in unbounded arithmetic, so no address computation wraps) and no two
  regions of the snapshot, in whatever order they are listed, share an address.\<close>

theorem layout_validate_exact:
  "layout_validate (from_snapshot snap) = Inr () \<longleftrightarrow>
     list_all region_bounded (memory_regions snap) \<and>
     sorted_wrt regions_disjoint (memory_regions snap)"
  by (simp add: validate_snapshot_ok list_all_iff)

text \<open>An error of the layout check names a real defect: a range of the layout that starts at
  or above the limit, one that ends above it, one without a byte, or two neighbours that
  overlap, with their bounds.\<close>

theorem layout_validate_error_genuine:
  assumes "layout_validate L = Inl e"
  shows "(\<exists>r \<in> set (ranges L).
     e = Layout_Err (StartAboveUserSpace (ar_start r) (ar_end r)) \<and> USER_SPACE_LIMIT \<le> ar_start r \<or>
     e = Layout_Err (CrossesUserSpace (ar_start r) (ar_end r)) \<and> USER_SPACE_LIMIT < ar_end r \<or>
     e = Layout_Err (ZeroSizeRegion (ar_start r)) \<and> ar_end r \<le> ar_start r) \<or>
   (\<exists>(a, b) \<in> set (windows2 (ranges L)). overlaps a b \<and>
     e = Layout_Err (OverlappingRegions (ar_start a) (ar_end a) (ar_start b) (ar_end b)))"
  using assms by (auto simp: layout_validate_def bind_res_Inl dest: check_ranges_error check_pairs_error)

lemma layout_validate_error_genuine_witness:
  "\<exists>(a, b) \<in> set (windows2
       [\<lparr>ar_start = 0x1000, ar_end = 0x3000\<rparr>, \<lparr>ar_start = 0x2000, ar_end = 0x4000\<rparr>]). overlaps a b"
proof -
  let ?L = "\<lparr>ranges = [\<lparr>ar_start = 0x1000, ar_end = 0x3000\<rparr>, \<lparr>ar_start = 0x2000, ar_end = 0x4000\<rparr>]\<rparr>"
  have "layout_validate ?L = Inl (Layout_Err (OverlappingRegions 0x1000 0x3000 0x2000 0x4000))"
    by (simp add: layout_validate_def user_space_limit range_size_def saturating_sub_def
        overlaps_def word_less_nat_alt word_le_nat_alt)
  from layout_validate_error_genuine [OF this] show ?thesis by auto
qed

text \<open>The base found above a validated layout is page-aligned, lies at or above the end of
  every region and at most at \<open>2 ^ 47\<close>, and no range that starts there conflicts with the
  layout.\<close>

theorem find_safe_base_safe:
  assumes "layout_validate L = Inr ()"
  shows "page_aligned (find_safe_base L) \<and> unat (find_safe_base L) \<le> 2 ^ 47 \<and>
     (\<forall>r \<in> set (ranges L). ar_end r \<le> find_safe_base L) \<and>
     (\<forall>e. \<not> conflicts_with L \<lparr>ar_start = find_safe_base L, ar_end = e\<rparr>)"
proof -
  have ge: "ar_end r \<le> find_safe_base L" if "r \<in> set (ranges L)" for r
    using max_end_ge [OF that] page_up_ge [of "unat (max_end L)"]
    by (simp add: word_le_nat_alt unat_find_safe_base [OF assms])
  have "page_up (unat (max_end L)) \<le> 2 ^ 47"
    using max_end_le [OF assms] by (intro page_up_le) simp_all
  then show ?thesis
    using ge page_up_dvd unat_find_safe_base [OF assms]
    by (fastforce simp: page_aligned_def conflicts_with_def overlaps_def list_ex_iff)
qed

lemma find_safe_base_safe_witness:
  "page_aligned (find_safe_base \<lparr>ranges = [\<lparr>ar_start = 0x1000, ar_end = 0x2001\<rparr>]\<rparr>) \<and>
   find_safe_base \<lparr>ranges = [\<lparr>ar_start = 0x1000, ar_end = 0x2001\<rparr>]\<rparr> = 0x3000"
proof -
  let ?L = "\<lparr>ranges = [\<lparr>ar_start = 0x1000, ar_end = 0x2001\<rparr>]\<rparr> :: address_space_layout"
  have "layout_validate ?L = Inr ()"
    by (simp add: layout_validate_ok range_ok_def user_space_limit word_less_nat_alt word_le_nat_alt)
  from find_safe_base_safe [OF this] show ?thesis
    by (simp add: find_safe_base_def max_end_def page_round_up_def PAGE_def)
qed

text \<open>Against a validated snapshot, a conflict is exactly a shared address: a non-empty
  candidate range conflicts with the layout if and only if one of its addresses belongs to a
  region.\<close>

theorem conflicts_with_exact:
  assumes "layout_validate (from_snapshot snap) = Inr ()" "ar_start c < ar_end c"
  shows "conflicts_with (from_snapshot snap) c \<longleftrightarrow>
     (\<exists>r \<in> set (memory_regions snap). region_addrs r \<inter> {unat (ar_start c) ..< unat (ar_end c)} \<noteq> {})"
  using assms
  by (simp add: conflicts_with_def list_ex_iff set_from_snapshot validate_snapshot_ok conflicts_region)

lemma conflicts_with_exact_witness:
  "conflicts_with (from_snapshot (sample_snapshot None
       [sample_region 0x5000 0x1000 ''rw-p'' [] 0, sample_region 0x1000 0x1000 ''r--p'' [] 0]
       ([] :: pb_fd list)))
     \<lparr>ar_start = 0x1fff, ar_end = 0x2001\<rparr>"
proof -
  let ?s = "sample_snapshot None
      [sample_region 0x5000 0x1000 ''rw-p'' [] 0, sample_region 0x1000 0x1000 ''r--p'' [] 0]
      ([] :: pb_fd list)"
  have ok: "layout_validate (from_snapshot ?s) = Inr ()"
    by (auto simp: validate_snapshot_ok sample_snapshot_def sample_region_def region_bounded_def
        regions_disjoint_def region_addrs_def)
  have ne: "ar_start \<lparr>ar_start = 0x1fff, ar_end = 0x2001\<rparr> < ar_end \<lparr>ar_start = 0x1fff, ar_end = 0x2001\<rparr>"
    by (simp add: word_less_nat_alt)
  show ?thesis
    by (subst conflicts_with_exact [OF ok ne])
       (auto simp: sample_snapshot_def sample_region_def region_addrs_def)
qed

text \<open>The byte total of a validated snapshot does not wrap: it is the sum of the sizes of
  the regions, and it is at most \<open>2 ^ 47\<close>.\<close>

theorem total_bytes_exact:
  assumes "layout_validate (from_snapshot snap) = Inr ()"
  shows "unat (total_bytes (from_snapshot snap)) = (\<Sum>r\<leftarrow>memory_regions snap. unat (size_bytes r)) \<and>
     unat (total_bytes (from_snapshot snap)) \<le> 2 ^ 47"
  using total_bytes_sum [OF assms] by simp

lemma total_bytes_exact_witness:
  "unat (total_bytes (from_snapshot (sample_snapshot None
       [sample_region 0x5000 0x1000 ''rw-p'' [] 0, sample_region 0x1000 0x2000 ''r--p'' [] 0]
       ([] :: pb_fd list)))) = 0x3000"
proof -
  let ?s = "sample_snapshot None
      [sample_region 0x5000 0x1000 ''rw-p'' [] 0, sample_region 0x1000 0x2000 ''r--p'' [] 0]
      ([] :: pb_fd list)"
  have ok: "layout_validate (from_snapshot ?s) = Inr ()"
    by (auto simp: validate_snapshot_ok sample_snapshot_def sample_region_def region_bounded_def
        regions_disjoint_def region_addrs_def)
  from total_bytes_exact [OF ok] show ?thesis
    by (simp add: sample_snapshot_def sample_region_def)
qed

text \<open>The protection bits of a permission string are its first three characters: bit 0 is
  set for an \<open>r\<close>, bit 1 for a \<open>w\<close>, bit 2 for an \<open>x\<close>, each in its own place, and no other
  bit is ever set.\<close>

theorem perms_to_prot_bits:
  "bit (perms_to_prot perms) i \<longleftrightarrow>
     (i = 0 \<and> byte_at perms 0 = Some CHR ''r'') \<or>
     (i = 1 \<and> byte_at perms 1 = Some CHR ''w'') \<or>
     (i = 2 \<and> byte_at perms 2 = Some CHR ''x'')"
  by (auto simp: perms_to_prot_def Let_def bit_or_iff prot_bits)

end
