(* ===== verification/Tracee.thy ===== *)
theory Tracee
  imports Interfaces
begin

text \<open>
  A traced child process as the restorer relies on it: its registers, its memory with the
  protection of each mapped byte, its descriptor table, and the laws of the \<open>ptrace\<close> calls,
  of \<open>/proc/<pid>/mem\<close> and of the three system calls that are injected. The laws are those of
  the manual pages \<open>ptrace(2)\<close>, \<open>proc(5)\<close>, \<open>mmap(2)\<close>, \<open>mprotect(2)\<close> and \<open>dup2(2)\<close>. They are
  the assumptions of two locales over an arbitrary kernel: \<open>tracer\<close> says what a call that
  succeeds has done, \<open>live_tracer\<close> adds when a call succeeds.
\<close>

section \<open>Memory\<close>

text \<open>A byte and the protection of the mapping it lies in; \<open>None\<close> where nothing is mapped.\<close>

type_synonym memmap = "u64 \<Rightarrow> (u8 \<times> i32) option"

definition write_bytes :: "memmap \<Rightarrow> u64 \<Rightarrow> u8 list \<Rightarrow> memmap" where
  "write_bytes m a bs = (\<lambda>x. if unat (x - a) < length bs
     then map_option (\<lambda>(_, p). (bs ! unat (x - a), p)) (m x) else m x)"

definition bytes_at :: "memmap \<Rightarrow> u64 \<Rightarrow> u8 list \<Rightarrow> bool" where
  "bytes_at m a bs \<longleftrightarrow> (\<forall>i < length bs. \<exists>p. m (a + of_nat i) = Some (bs ! i, p))"

definition mapped :: "memmap \<Rightarrow> u64 \<Rightarrow> nat \<Rightarrow> bool" where
  "mapped m a n \<longleftrightarrow> (\<forall>i < n. m (a + of_nat i) \<noteq> None)"

definition executable :: "memmap \<Rightarrow> u64 \<Rightarrow> nat \<Rightarrow> bool" where
  "executable m a n \<longleftrightarrow>
     (\<forall>i < n. \<exists>b p. m (a + of_nat i) = Some (b, p) \<and> p AND PROT_EXEC \<noteq> 0)"

definition in_pages :: "u64 \<Rightarrow> u64 \<Rightarrow> u64 \<Rightarrow> bool" where
  "in_pages a n x \<longleftrightarrow> unat a \<le> unat x \<and> unat x < page_up (unat a + unat n)"

definition map_pages :: "memmap \<Rightarrow> u64 \<Rightarrow> u64 \<Rightarrow> i32 \<Rightarrow> memmap" where
  "map_pages m a n prot = (\<lambda>x. if in_pages a n x then Some (0, prot) else m x)"

definition protect_pages :: "memmap \<Rightarrow> u64 \<Rightarrow> u64 \<Rightarrow> i32 \<Rightarrow> memmap" where
  "protect_pages m a n prot =
     (\<lambda>x. if in_pages a n x then map_option (\<lambda>(b, _). (b, prot)) (m x) else m x)"

text \<open>A 64-bit word in memory is its eight bytes, least significant first.\<close>

definition byte_of :: "u64 \<Rightarrow> nat \<Rightarrow> u8" where
  "byte_of w i = ucast (drop_bit (8 * i) w)"

definition word_bytes :: "u64 \<Rightarrow> u8 list" where
  "word_bytes w = map (byte_of w) [0..<8]"

lemma length_word_bytes [simp]: "length (word_bytes w) = 8"
  by (simp add: word_bytes_def)

lemma unat_diff_of_nat: "n < 2 ^ 64 \<Longrightarrow> unat (a + of_nat n - a :: u64) = n"
  by (simp add: unat_of_nat)

text \<open>Writing back what was read undoes a write of the same length in between.\<close>

lemma write_back:
  assumes "bytes_at m a bs" "length cs = length bs"
  shows "write_bytes (write_bytes m a cs) a bs = m"
proof
  fix x
  show "write_bytes (write_bytes m a cs) a bs x = m x"
  proof (cases "unat (x - a) < length bs")
    case True
    then obtain p where "m (a + of_nat (unat (x - a))) = Some (bs ! unat (x - a), p)"
      using assms(1) unfolding bytes_at_def by blast
    with True assms(2) show ?thesis by (simp add: write_bytes_def)
  qed (use assms(2) in \<open>simp add: write_bytes_def\<close>)
qed

lemma write_bytes_outside:
  "length bs \<le> unat (x - a) \<Longrightarrow> write_bytes m a bs x = m x"
  by (simp add: write_bytes_def)

lemma bytes_at_write:
  assumes "mapped m a (length bs)" "length bs \<le> 2 ^ 64"
  shows "bytes_at (write_bytes m a bs) a bs"
  unfolding bytes_at_def
proof (intro allI impI)
  fix i assume i: "i < length bs"
  then have "unat (a + of_nat i - a) = i" using assms(2) by (intro unat_diff_of_nat) simp
  moreover from i assms(1) obtain b p where "m (a + of_nat i) = Some (b, p)"
    unfolding mapped_def by force
  ultimately show "\<exists>p. write_bytes m a bs (a + of_nat i) = Some (bs ! i, p)"
    using i by (simp add: write_bytes_def)
qed

lemma write_bytes_None [simp]: "write_bytes m a bs x = None \<longleftrightarrow> m x = None"
  by (simp add: write_bytes_def)

lemma mapped_write [simp]: "mapped (write_bytes m a bs) b n = mapped m b n"
  unfolding mapped_def by (simp only: write_bytes_None)

lemma bytes_at_mapped: "bytes_at m a bs \<Longrightarrow> mapped m a (length bs)"
  by (auto simp: bytes_at_def mapped_def)

lemma executable_write [simp]: "executable (write_bytes m a bs) b n = executable m b n"
proof -
  have "(\<exists>v p. write_bytes m a bs x = Some (v, p) \<and> p AND PROT_EXEC \<noteq> 0) \<longleftrightarrow>
      (\<exists>v p. m x = Some (v, p) \<and> p AND PROT_EXEC \<noteq> 0)" for x
    by (auto simp: write_bytes_def)
  then show ?thesis by (simp add: executable_def)
qed

section \<open>The child\<close>

record child =
  c_stopped :: bool
  c_regs :: user_regs
  c_fp :: "u8 list"
  c_mem :: memmap
  c_fds :: "i32 \<Rightarrow> nat option"

text \<open>The child is about to execute \<open>syscall; int3\<close>.\<close>

definition at_syscall :: "child \<Rightarrow> bool" where
  "at_syscall c \<longleftrightarrow> bytes_at (c_mem c) (ur_rip (c_regs c)) [0x0f, 0x05, 0xcc]"

definition trap_intact :: "u64 \<Rightarrow> child \<Rightarrow> bool" where
  "trap_intact ip c \<longleftrightarrow> (\<exists>p. c_mem c (ip + 2) = Some (0xcc, p))"

text \<open>System calls of the child: number, six arguments, the child; the value of \<open>rax\<close> and the child after.\<close>

type_synonym syscalls =
  "u64 \<Rightarrow> u64 \<Rightarrow> u64 \<Rightarrow> u64 \<Rightarrow> u64 \<Rightarrow> u64 \<Rightarrow> u64 \<Rightarrow> child \<Rightarrow> u64 \<times> child"

definition do_syscall :: "syscalls \<Rightarrow> child \<Rightarrow> u64 \<times> child" where
  "do_syscall sysc c = (let r = c_regs c in
     sysc (ur_rax r) (ur_rdi r) (ur_rsi r) (ur_rdx r) (ur_r10 r) (ur_r8 r) (ur_r9 r) c)"

definition is_errno :: "u64 \<Rightarrow> bool" where
  "is_errno w \<longleftrightarrow> sint w < 0 \<and> sint w \<ge> - 4095"

text \<open>The eight bytes at the instruction pointer lie outside the pages of a range.\<close>

definition code_clear :: "child \<Rightarrow> u64 \<Rightarrow> u64 \<Rightarrow> bool" where
  "code_clear c a n \<longleftrightarrow> (\<forall>i < 8. \<not> in_pages a n (ur_rip (c_regs c) + of_nat i))"

text \<open>
  Filling a range with data and a final protection: what mapping, writing and protecting it
  amounts to. Bytes of the pages beyond the data are zero.
\<close>

definition load_pages :: "memmap \<Rightarrow> u64 \<Rightarrow> u64 \<Rightarrow> i32 \<Rightarrow> u8 list \<Rightarrow> memmap" where
  "load_pages m a n prot bs = (\<lambda>x. if in_pages a n x
     then Some (if unat (x - a) < length bs then bs ! unat (x - a) else 0, prot) else m x)"

lemma in_pages_start: "page_aligned a \<Longrightarrow> in_pages a n x \<Longrightarrow> unat (x - a) = unat x - unat a"
  by (simp add: in_pages_def unat_sub word_le_nat_alt)

lemma load_pages_eq:
  assumes "length bs \<le> unat n" "unat a + unat n \<le> 2 ^ 47"
  shows "protect_pages (write_bytes (map_pages m a n prot') a bs) a n prot = load_pages m a n prot bs"
    and "write_bytes (map_pages m a n prot) a bs = load_pages m a n prot bs"
proof -
  have out: "\<not> unat (x - a) < length bs" if "\<not> in_pages a n x" for x
  proof
    assume h: "unat (x - a) < length bs"
    have "unat x = (unat a + unat (x - a)) mod 2 ^ 64"
      using unat_word_ariths(1) [of a "x - a"] by simp
    also have "\<dots> = unat a + unat (x - a)"
      using h assms by (intro mod_less) simp
    finally have "in_pages a n x"
      using h assms page_up_ge [of "unat a + unat n"] by (simp add: in_pages_def)
    with that show False by simp
  qed
  show "protect_pages (write_bytes (map_pages m a n prot') a bs) a n prot = load_pages m a n prot bs"
    by (rule ext) (auto simp: protect_pages_def write_bytes_def map_pages_def load_pages_def dest: out)
  show "write_bytes (map_pages m a n prot) a bs = load_pages m a n prot bs"
    by (rule ext) (auto simp: write_bytes_def map_pages_def load_pages_def dest: out)
qed

lemma map_pages_write:
  assumes "\<forall>i < 8. \<not> in_pages a n (ip + of_nat i)" "length bs = 8"
  shows "write_bytes (map_pages m a n prot) ip bs = map_pages (write_bytes m ip bs) a n prot"
proof
  fix x
  have "\<not> in_pages a n x" if "unat (x - ip) < 8"
    using assms(1) that spec [of "\<lambda>i. i < 8 \<longrightarrow> \<not> in_pages a n (ip + of_nat i)" "unat (x - ip)"]
    by simp
  with assms(2) show "write_bytes (map_pages m a n prot) ip bs x = map_pages (write_bytes m ip bs) a n prot x"
    by (auto simp: write_bytes_def map_pages_def)
qed

lemma protect_pages_write:
  "write_bytes (protect_pages m a n prot) ip bs = protect_pages (write_bytes m ip bs) a n prot"
  by (rule ext) (auto simp: write_bytes_def protect_pages_def option.map_comp comp_def split_beta)

section \<open>The interface the region loop relies on\<close>

locale child_memory =
  fixes cv :: "'k \<Rightarrow> pid \<Rightarrow> child"
    and do_map :: "pid \<Rightarrow> u64 \<Rightarrow> u64 \<Rightarrow> i32 \<Rightarrow> ('k, error, u64) act"
    and do_write :: "pid \<Rightarrow> u64 \<Rightarrow> u8 list \<Rightarrow> ('k, error, unit) act"
    and do_protect :: "pid \<Rightarrow> u64 \<Rightarrow> u64 \<Rightarrow> i32 \<Rightarrow> ('k, error, unit) act"
  assumes do_map_ok: "\<lbrakk>do_map p a n prot s = (Inr v, t); code_clear (cv s p) a n\<rbrakk> \<Longrightarrow>
        v = a \<and> page_aligned a \<and> cv t p = (cv s p)\<lparr>c_mem := map_pages (c_mem (cv s p)) a n prot\<rparr>"
    and do_write_ok: "do_write p a bs s = (Inr (), t) \<Longrightarrow>
        cv t p = (cv s p)\<lparr>c_mem := write_bytes (c_mem (cv s p)) a bs\<rparr>"
    and do_protect_ok: "do_protect p a n prot s = (Inr (), t) \<Longrightarrow>
        cv t p = (cv s p)\<lparr>c_mem := protect_pages (c_mem (cv s p)) a n prot\<rparr>"
begin

text \<open>Map writable, write, and take the write permission away again if it was added.\<close>

lemma load_sequence:
  assumes "do_map p a n prot' s = (Inr v, s1)" "code_clear (cv s p) a n"
    and "do_write p a bs s1 = (Inr (), s2)"
    and "if prot \<noteq> prot' then do_protect p a n prot s2 = (Inr (), t) else t = s2"
    and "length bs \<le> unat n" "unat a + unat n \<le> 2 ^ 47"
  shows "cv t p = (cv s p)\<lparr>c_mem := load_pages (c_mem (cv s p)) a n prot bs\<rparr>" "page_aligned a"
proof -
  note m = do_map_ok [OF assms(1,2)]
  then show "page_aligned a" by simp
  have c2: "cv s2 p = (cv s p)\<lparr>c_mem := write_bytes (map_pages (c_mem (cv s p)) a n prot') a bs\<rparr>"
    using m do_write_ok [OF assms(3)] by simp
  show "cv t p = (cv s p)\<lparr>c_mem := load_pages (c_mem (cv s p)) a n prot bs\<rparr>"
  proof (cases "prot = prot'")
    case True
    with assms(4) c2 show ?thesis by (simp add: load_pages_eq(2) [OF assms(5,6)])
  next
    case False
    with assms(4) have "do_protect p a n prot s2 = (Inr (), t)" by simp
    from do_protect_ok [OF this] c2 show ?thesis
      by (simp add: load_pages_eq(1) [OF assms(5,6)])
  qed
qed

end

section \<open>The laws\<close>

locale tracer =
  fixes K :: "'k kernel" and cv :: "'k \<Rightarrow> pid \<Rightarrow> child" and sysc :: syscalls
  assumes getregs_law: "k_getregs K p s = (rr, t) \<Longrightarrow>
        cv t p = cv s p \<and> (\<forall>x. rr = Inr x \<longrightarrow> x = c_regs (cv s p))"
    and setregs_law: "k_setregs K p x s = (ru, t) \<Longrightarrow>
        cv t p = (if is_ok ru then (cv s p)\<lparr>c_regs := x\<rparr> else cv s p)"
    and getfpregs_law: "k_getfpregs K p s = (rb, t) \<Longrightarrow>
        cv t p = cv s p \<and> (\<forall>bs. rb = Inr bs \<longrightarrow> bs = c_fp (cv s p) \<and> length bs = FPREGS_SIZE)"
    and setfpregs_law: "k_setfpregs K p bs s = (ru, t) \<Longrightarrow>
        cv t p = (if is_ok ru then (cv s p)\<lparr>c_fp := bs\<rparr> else cv s p)"
    and peek_law: "k_peek K p a s = (rw, t) \<Longrightarrow>
        cv t p = cv s p \<and> (\<forall>w. rw = Inr w \<longrightarrow> bytes_at (c_mem (cv s p)) a (word_bytes w))"
    and poke_law: "k_poke K p a w s = (ru, t) \<Longrightarrow>
        cv t p = (if is_ok ru
          then (cv s p)\<lparr>c_mem := write_bytes (c_mem (cv s p)) a (word_bytes w)\<rparr> else cv s p)"
    and run_law: "\<lbrakk>k_cont K p s = (Inr (), t); k_waitpid K p t = (Inr (Stopped SIGTRAP), u);
          at_syscall (cv s p); do_syscall sysc (cv s p) = (v, c);
          trap_intact (ur_rip (c_regs (cv s p))) c\<rbrakk> \<Longrightarrow>
        \<exists>regs. cv u p = c\<lparr>c_regs := regs\<rparr> \<and> ur_rax regs = v"
    and detach_law: "k_detach K p s = (Inr (), t) \<Longrightarrow> cv t p = (cv s p)\<lparr>c_stopped := False\<rparr>"
    and mem_open_law: "k_mem_open K wr p s = (rh, t) \<Longrightarrow>
        cv t q = cv s q \<and> (\<forall>h. rh = Inr h \<longrightarrow> memh_pid h = p)"
    and mem_seek_law: "k_mem_seek K h a s = (rh, t) \<Longrightarrow>
        cv t q = cv s q \<and> (\<forall>h'. rh = Inr h' \<longrightarrow> h' = Memh (memh_pid h) a)"
    and mem_write_law: "k_mem_write_all K (Memh p a) bs s = (Inr (), t) \<Longrightarrow>
        cv t p = (cv s p)\<lparr>c_mem := write_bytes (c_mem (cv s p)) a bs\<rparr> \<and>
        mapped (c_mem (cv s p)) a (length bs)"
    and mem_read_law: "k_mem_read_exact K (Memh p a) len s = (rb, t) \<Longrightarrow>
        cv t q = cv s q \<and>
        (\<forall>bs. rb = Inr bs \<longrightarrow> length bs = len \<and> bytes_at (c_mem (cv s p)) a bs)"
    and file_open_law: "k_open K path flags s = (rf, t) \<Longrightarrow> cv t p = cv s p"
    and file_seek_law: "k_seek K fd pos s = (ru, t) \<Longrightarrow> cv t p = cv s p"
    and file_close_law: "k_close K fd s = (ru, t) \<Longrightarrow> cv t p = cv s p"
    and mmap_law: "\<lbrakk>sysc SYS_mmap a n pr (scast (MAP_FIXED OR MAP_PRIVATE OR MAP_ANONYMOUS)) nofd 0 c = (v, d);
          \<not> is_errno v\<rbrakk> \<Longrightarrow>
        v = a \<and> page_aligned a \<and> d = c\<lparr>c_mem := map_pages (c_mem c) a n (ucast pr)\<rparr>"
    and mmap_error_law: "\<lbrakk>sysc SYS_mmap a n pr (scast (MAP_FIXED OR MAP_PRIVATE OR MAP_ANONYMOUS)) nofd 0 c = (v, d);
          is_errno v\<rbrakk> \<Longrightarrow>
        \<exists>m. d = c\<lparr>c_mem := m\<rparr> \<and> (\<forall>x. \<not> in_pages a n x \<longrightarrow> m x = c_mem c x)"
    and mprotect_law: "\<lbrakk>sysc SYS_mprotect a n pr 0 0 0 c = (v, d); \<not> is_errno v\<rbrakk> \<Longrightarrow>
        d = c\<lparr>c_mem := protect_pages (c_mem c) a n (ucast pr)\<rparr>"
    and mprotect_error_law: "\<lbrakk>sysc SYS_mprotect a n pr 0 0 0 c = (v, d); is_errno v\<rbrakk> \<Longrightarrow>
        \<exists>m. d = c\<lparr>c_mem := m\<rparr> \<and> (\<forall>x. map_option fst (m x) = map_option fst (c_mem c x))"
    and dup2_law: "sysc SYS_dup2 fd1 fd2 0 0 0 0 c = (v, d) \<Longrightarrow>
        if c_fds c (ucast fd1) = None then is_errno v \<and> d = c
        else \<exists>fds. d = c\<lparr>c_fds := fds\<rparr>"

text \<open>
  A stopped child is at the tracer's disposal: registers can be read and written, mapped
  memory can be peeked and poked whatever its protection, and a \<open>syscall; int3\<close> in executable
  memory runs into its trap, no other signal being sent to the child.
\<close>

locale live_tracer = tracer +
  assumes getregs_live: "c_stopped (cv s p) \<Longrightarrow> is_ok (fst (k_getregs K p s))"
    and setregs_live: "c_stopped (cv s p) \<Longrightarrow> is_ok (fst (k_setregs K p x s))"
    and peek_live: "c_stopped (cv s p) \<Longrightarrow> mapped (c_mem (cv s p)) a 8 \<Longrightarrow> is_ok (fst (k_peek K p a s))"
    and poke_live: "c_stopped (cv s p) \<Longrightarrow> mapped (c_mem (cv s p)) a 8 \<Longrightarrow> is_ok (fst (k_poke K p a w s))"
    and run_live: "\<lbrakk>c_stopped (cv s p); at_syscall (cv s p);
          executable (c_mem (cv s p)) (ur_rip (c_regs (cv s p))) 3;
          do_syscall sysc (cv s p) = (v, c); trap_intact (ur_rip (c_regs (cv s p))) c\<rbrakk> \<Longrightarrow>
        \<exists>t u. k_cont K p s = (Inr (), t) \<and> k_waitpid K p t = (Inr (Stopped SIGTRAP), u)"

text \<open>
  A kernel that serves every legitimate request: /proc/<pid>/mem of a stopped child can be
  opened, positioned in user space, and read and written where memory is mapped, floating-point
  state of the right length is accepted, a stopped child can be detached, and mapped pages can
  be protected.
\<close>

locale serving_tracer = live_tracer +
  assumes mem_open_live: "c_stopped (cv s p) \<Longrightarrow> is_ok (fst (k_mem_open K wr p s))"
    and mem_seek_live: "unat a < 2 ^ 47 \<Longrightarrow> is_ok (fst (k_mem_seek K h a s))"
    and mem_read_live: "c_stopped (cv s p) \<Longrightarrow> mapped (c_mem (cv s p)) a len \<Longrightarrow>
        is_ok (fst (k_mem_read_exact K (Memh p a) len s))"
    and mem_write_live: "c_stopped (cv s p) \<Longrightarrow> mapped (c_mem (cv s p)) a (length bs) \<Longrightarrow>
        is_ok (fst (k_mem_write_all K (Memh p a) bs s))"
    and setfpregs_live: "c_stopped (cv s p) \<Longrightarrow> length bs = FPREGS_SIZE \<Longrightarrow>
        is_ok (fst (k_setfpregs K p bs s))"
    and detach_live: "c_stopped (cv s p) \<Longrightarrow> is_ok (fst (k_detach K p s))"
    and mprotect_live: "\<lbrakk>sysc SYS_mprotect a n pr 0 0 0 c = (v, d); page_aligned a;
          \<forall>x. in_pages a n x \<longrightarrow> c_mem c x \<noteq> None\<rbrakk> \<Longrightarrow> \<not> is_errno v"

text \<open>
  The laws of attaching. The wait for a process that was attached reports that it has stopped or that
  it has ended, by itself or by a signal; \<open>waitpid(2)\<close> reports nothing else when no options are
  set, for the call or for tracing. A process whose attachment is refused goes on running, and one
  that is not stopped, because it has ended, is not stopped by a request to detach it either.
\<close>

locale guarding_tracer = serving_tracer +
  assumes attach_refused: "\<lbrakk>k_attach K p s = (Inl e, t); \<not> c_stopped (cv s p)\<rbrakk> \<Longrightarrow> \<not> c_stopped (cv t p)"
    and attach_wait: "\<lbrakk>k_attach K p s = (Inr (), t); k_waitpid K p t = (Inr st, u)\<rbrakk> \<Longrightarrow>
        case st of Stopped sig \<Rightarrow> c_stopped (cv u p) | Exited status \<Rightarrow> \<not> c_stopped (cv u p)
          | Signaled sig \<Rightarrow> \<not> c_stopped (cv u p) | OtherStatus \<Rightarrow> False"
    and detach_refused: "\<lbrakk>k_detach K p s = (Inl e, t); \<not> c_stopped (cv s p)\<rbrakk> \<Longrightarrow> \<not> c_stopped (cv t p)"

end
