(* ===== verification/Injector.thy ===== *)
theory Injector
  imports Tracee
begin

text \<open>
  The part of \<open>restorer.rs\<close> that makes a stopped child execute system calls
  (\<open>SyscallInjector\<close>), the writing of its memory through \<open>/proc/<pid>/mem\<close>, and the stub the
  child runs after the fork.
\<close>

section \<open>Definitions\<close>

definition child_stub :: stub_prog where
  "child_stub = Traceme (\<lambda>r. if r \<noteq> 0 then ExitWith 1 else RaiseSig SIGSTOP (ExitWith 0))"

definition write_to_child_mem ::
    "'k kernel \<Rightarrow> pid \<Rightarrow> u64 \<Rightarrow> u8 list \<Rightarrow> ('k, error, unit) act" where
  "write_to_child_mem K child addr bs =
     try_act (k_mem_open K True child) (\<lambda>e. Child_Err (MemOpenFailed child e)) (\<lambda>f.
     try_act (k_mem_seek K f addr) (\<lambda>e. Child_Err (MemSeekFailed addr e)) (\<lambda>f.
     try_act (k_mem_write_all K f bs) (\<lambda>e. Child_Err (MemWriteFailed (length bs) addr e)) (\<lambda>_.
     ok_act ())))"

text \<open>The word written over the instruction pointer: \<open>syscall; int3\<close> in its low three bytes.\<close>

definition inject_patch :: "u64 \<Rightarrow> u64" where
  "inject_patch saved_word = (saved_word AND NOT 0x00ffffff) OR 0x00cc050f"

definition syscall_regs ::
    "user_regs \<Rightarrow> u64 \<Rightarrow> u64 \<Rightarrow> u64 \<Rightarrow> u64 \<Rightarrow> u64 \<Rightarrow> u64 \<Rightarrow> u64 \<Rightarrow> user_regs" where
  "syscall_regs saved_regs nr a0 a1 a2 a3 a4 a5 = saved_regs
     \<lparr>ur_rax := nr, ur_rdi := a0, ur_rsi := a1, ur_rdx := a2, ur_r10 := a3, ur_r8 := a4, ur_r9 := a5\<rparr>"

text \<open>From the stop of the child on: read the value, put code and registers back.\<close>

definition inject_finish ::
    "'k kernel \<Rightarrow> pid \<Rightarrow> u64 \<Rightarrow> user_regs \<Rightarrow> u64 \<Rightarrow> ('k, error, u64) act" where
  "inject_finish K child nr saved_regs saved_word =
     (let rip = ur_rip saved_regs in
      try_act (k_getregs K child) (\<lambda>e. Inject_Err (InjectGetResult e)) (\<lambda>result_regs.
      let retval = ur_rax result_regs in
      try_act (k_poke K child rip saved_word) (\<lambda>e. Inject_Err (InjectRestorePoke e)) (\<lambda>_.
      try_act (k_setregs K child saved_regs) (\<lambda>e. Inject_Err (InjectRestoreRegs e)) (\<lambda>_.
      if sint retval < 0 \<and> sint retval \<ge> - 4095
      then fail_act (Inject_Err (SyscallErrno nr (- retval)))
      else ok_act retval))))"

definition inject_run ::
    "'k kernel \<Rightarrow> pid \<Rightarrow> u64 \<Rightarrow> user_regs \<Rightarrow> u64 \<Rightarrow> ('k, error, u64) act" where
  "inject_run K child nr saved_regs saved_word =
     try_act (k_cont K child) (\<lambda>e. Inject_Err (InjectCont e)) (\<lambda>_.
     try_act (k_waitpid K child) (\<lambda>e. Inject_Err (InjectWaitpid e)) (\<lambda>status.
     case status of
       Stopped sig \<Rightarrow>
         if sig = SIGTRAP then inject_finish K child nr saved_regs saved_word
         else fail_act (Inject_Err (InjectSignal sig))
     | _ \<Rightarrow> fail_act (Inject_Err (InjectStatus status))))"

definition inject ::
    "'k kernel \<Rightarrow> pid \<Rightarrow> u64 \<Rightarrow> u64 \<Rightarrow> u64 \<Rightarrow> u64 \<Rightarrow> u64 \<Rightarrow> u64 \<Rightarrow> u64 \<Rightarrow> ('k, error, u64) act" where
  "inject K child nr a0 a1 a2 a3 a4 a5 =
     try_act (k_getregs K child) (\<lambda>e. Inject_Err (InjectGetRegs e)) (\<lambda>saved_regs.
     let rip = ur_rip saved_regs in
     try_act (k_peek K child rip) (\<lambda>e. Inject_Err (InjectPeek rip e)) (\<lambda>saved_word.
     try_act (k_poke K child rip (inject_patch saved_word)) (\<lambda>e. Inject_Err (InjectPoke rip e)) (\<lambda>_.
     try_act (k_setregs K child (syscall_regs saved_regs nr a0 a1 a2 a3 a4 a5))
       (\<lambda>e. Inject_Err (InjectSetRegs e)) (\<lambda>_.
     inject_run K child nr saved_regs saved_word))))"

definition inj_mmap ::
    "'k kernel \<Rightarrow> pid \<Rightarrow> u64 \<Rightarrow> u64 \<Rightarrow> i32 \<Rightarrow> i32 \<Rightarrow> i32 \<Rightarrow> u64 \<Rightarrow> ('k, error, u64) act" where
  "inj_mmap K child addr len prot flags fd offset =
     inject K child SYS_mmap addr len (scast prot) (scast flags) (scast fd) offset"

definition inj_mprotect ::
    "'k kernel \<Rightarrow> pid \<Rightarrow> u64 \<Rightarrow> u64 \<Rightarrow> i32 \<Rightarrow> ('k, error, unit) act" where
  "inj_mprotect K child addr len prot =
     bind_act (inject K child SYS_mprotect addr len (scast prot) 0 0 0) (\<lambda>_. ok_act ())"

definition inj_dup2 :: "'k kernel \<Rightarrow> pid \<Rightarrow> i32 \<Rightarrow> i32 \<Rightarrow> ('k, error, unit) act" where
  "inj_dup2 K child old_fd new_fd =
     bind_act (inject K child SYS_dup2 (scast old_fd) (scast new_fd) 0 0 0 0) (\<lambda>_. ok_act ())"

section \<open>The patch\<close>

lemma patch_bits:
  "bit (inject_patch w) n \<longleftrightarrow> (24 \<le> n \<and> bit w n) \<or> bit (0x00cc050f :: u64) n"
proof -
  have m: "(0x00ffffff :: u64) = mask 24" by (simp add: mask_eq_exp_minus_1)
  have "bit (w AND NOT (mask 24)) n \<longleftrightarrow> 24 \<le> n \<and> bit w n"
    using bit_imp_le_length [of w n] by (auto simp: bit_simps)
  then show ?thesis by (simp only: inject_patch_def m bit_or_iff)
qed

lemma patch_const_low: "bit (0x00cc050f :: u64) n \<Longrightarrow> n < 24"
proof (rule ccontr)
  assume b: "bit (0x00cc050f :: u64) n" and "\<not> n < 24"
  have "take_bit 24 (0x00cc050f :: u64) = 0x00cc050f" by simp
  then have "bit (0x00cc050f :: u64) n \<longleftrightarrow> n < 24 \<and> bit (0x00cc050f :: u64) n"
    using bit_take_bit_iff [of 24 "0x00cc050f :: u64" n] by metis
  with b \<open>\<not> n < 24\<close> show False by blast
qed

lemma byte_of_patch_high:
  assumes "3 \<le> i" "i < 8"
  shows "byte_of (inject_patch w) i = byte_of w i"
proof (rule bit_word_eqI)
  fix n assume "n < LENGTH(8)"
  have "\<not> bit (0x00cc050f :: u64) (8 * i + n)"
    using patch_const_low [of "8 * i + n"] assms(1) by linarith
  then have "bit (inject_patch w) (8 * i + n) = bit w (8 * i + n)"
    using assms(1) by (simp only: patch_bits) simp
  then show "bit (byte_of (inject_patch w) i) n = bit (byte_of w i) n"
    by (simp add: byte_of_def bit_ucast_iff bit_drop_bit_eq)
qed

lemma byte_of_patch_low:
  assumes "i < 3"
  shows "byte_of (inject_patch w) i = byte_of 0x00cc050f i"
proof (rule bit_word_eqI)
  fix n assume "n < LENGTH(8)"
  then have "8 * i + n < 24" using assms by simp
  then have "bit (inject_patch w) (8 * i + n) = bit (0x00cc050f :: u64) (8 * i + n)"
    by (simp only: patch_bits) simp
  then show "bit (byte_of (inject_patch w) i) n = bit (byte_of 0x00cc050f i) n"
    unfolding byte_of_def bit_ucast_iff bit_drop_bit_eq comp_def by metis
qed

lemma upt_8: "[0..<8] = [0, 1, 2, 3, 4, 5, 6, 7]"
  by (simp add: upt_rec)

lemma word_bytes_patch:
  "word_bytes (inject_patch w) = [0x0f, 0x05, 0xcc] @ drop 3 (word_bytes w)"
proof -
  have "byte_of 0x00cc050f 0 = 0x0f" "byte_of 0x00cc050f 1 = 0x05" "byte_of 0x00cc050f 2 = 0xcc"
    by (simp_all add: byte_of_def drop_bit_eq_div)
  then show ?thesis
    by (simp add: word_bytes_def upt_8 byte_of_patch_low byte_of_patch_high)
qed

section \<open>What an injection does\<close>

text \<open>
  An injection is complete when the child came back from its trap: the call returned a value,
  or an error number of the system call.
\<close>

fun errno_error :: "error \<Rightarrow> bool" where
  "errno_error (Inject_Err (SyscallErrno n v)) = True"
| "errno_error e = False"

definition completed :: "error + 'a \<Rightarrow> bool" where
  "completed r = (case r of Inl e \<Rightarrow> errno_error e | Inr _ \<Rightarrow> True)"

lemma completed_simps [simp]: "completed (Inr v)" "completed (Inl e) = errno_error e"
  by (simp_all add: completed_def)

definition syscall_result :: "u64 \<Rightarrow> u64 \<Rightarrow> error + u64" where
  "syscall_result nr v = (if is_errno v then Inl (Inject_Err (SyscallErrno nr (- v))) else Inr v)"

lemma completed_result [simp]: "completed (syscall_result nr v)"
  by (simp add: syscall_result_def)

text \<open>The child the system call starts from: patched code, call registers.\<close>

definition prepared ::
    "child \<Rightarrow> u64 \<Rightarrow> u64 \<Rightarrow> u64 \<Rightarrow> u64 \<Rightarrow> u64 \<Rightarrow> u64 \<Rightarrow> u64 \<Rightarrow> u64 \<Rightarrow> child" where
  "prepared c w nr a0 a1 a2 a3 a4 a5 = c
     \<lparr>c_mem := write_bytes (c_mem c) (ur_rip (c_regs c)) (word_bytes (inject_patch w)),
      c_regs := syscall_regs (c_regs c) nr a0 a1 a2 a3 a4 a5\<rparr>"

lemma do_syscall_prepared:
  "do_syscall sysc (prepared c w nr a0 a1 a2 a3 a4 a5) =
     sysc nr a0 a1 a2 a3 a4 a5 (prepared c w nr a0 a1 a2 a3 a4 a5)"
  by (simp add: do_syscall_def prepared_def syscall_regs_def)

lemma prepared_rip [simp]: "ur_rip (c_regs (prepared c w nr a0 a1 a2 a3 a4 a5)) = ur_rip (c_regs c)"
  by (simp add: prepared_def syscall_regs_def)

lemma prepared_code:
  assumes "mapped (c_mem c) (ur_rip (c_regs c)) 8"
  shows "at_syscall (prepared c w nr a0 a1 a2 a3 a4 a5)"
    and "trap_intact (ur_rip (c_regs c)) (prepared c w nr a0 a1 a2 a3 a4 a5)"
proof -
  have b: "bytes_at (c_mem (prepared c w nr a0 a1 a2 a3 a4 a5)) (ur_rip (c_regs c))
      (word_bytes (inject_patch w))"
    using assms bytes_at_write [of "c_mem c" "ur_rip (c_regs c)" "word_bytes (inject_patch w)"]
    by (simp add: prepared_def)
  then show "at_syscall (prepared c w nr a0 a1 a2 a3 a4 a5)"
    unfolding at_syscall_def bytes_at_def word_bytes_patch prepared_rip
    by (auto simp: nth_append less_Suc_eq numeral_eq_Suc dest: spec)
  from b have "\<exists>p. c_mem (prepared c w nr a0 a1 a2 a3 a4 a5) (ur_rip (c_regs c) + of_nat 2) =
      Some (word_bytes (inject_patch w) ! 2, p)"
    unfolding bytes_at_def length_word_bytes by (elim allE [of _ 2] mp) simp
  then show "trap_intact (ur_rip (c_regs c)) (prepared c w nr a0 a1 a2 a3 a4 a5)"
    by (simp add: trap_intact_def word_bytes_patch)
qed

lemma try_act_completed:
  assumes "try_act m (\<lambda>e. Inject_Err (g e)) f s = (r, t)" "completed r"
    and "\<And>e. \<not> completed (Inl (Inject_Err (g e)) :: error + 'b)"
  obtains x u where "m s = (Inr x, u)" and "f x u = ((r :: error + 'b), t)"
  using assms by (auto simp: try_act_def split: prod.splits sum.splits)

lemma ucast_scast: "ucast (scast (x :: i32) :: u64) = x"
proof (rule bit_word_eqI)
  fix n assume "n < LENGTH(32)"
  then show "bit (ucast (scast x :: u64) :: i32) n = bit x n"
    by (cases "n = 31") (auto simp: bit_ucast_iff bit_signed_iff min_def)
qed

context tracer
begin

lemma inject_finish_effect:
  assumes "inject_finish K p nr regs w s = (r, t)" "completed r"
  shows "r = syscall_result nr (ur_rax (c_regs (cv s p)))"
    and "cv t p = (cv s p)\<lparr>c_mem := write_bytes (c_mem (cv s p)) (ur_rip regs) (word_bytes w),
                            c_regs := regs\<rparr>"
proof -
  obtain x u u2 u3 where x: "k_getregs K p s = (Inr x, u)"
    and y: "k_poke K p (ur_rip regs) w u = (Inr (), u2)"
    and z: "k_setregs K p regs u2 = (Inr (), u3)"
    and e: "(r, t) = (syscall_result nr (ur_rax x), u3)"
    using assms unfolding inject_finish_def Let_def
    by (fastforce elim!: try_act_completed simp: syscall_result_def is_errno_def split: if_splits)
  from getregs_law [OF x] have g: "cv u p = cv s p" "x = c_regs (cv s p)" by auto
  with e show "r = syscall_result nr (ur_rax (c_regs (cv s p)))" by simp
  from poke_law [OF y] setregs_law [OF z] g e
  show "cv t p = (cv s p)\<lparr>c_mem := write_bytes (c_mem (cv s p)) (ur_rip regs) (word_bytes w),
      c_regs := regs\<rparr>" by simp
qed

lemma inject_run_effect:
  assumes "inject_run K p nr regs w s = (r, t)" "completed r"
    and "at_syscall (cv s p)" "do_syscall sysc (cv s p) = (v, d)"
    and "trap_intact (ur_rip (c_regs (cv s p))) d"
  shows "r = syscall_result nr v \<and>
     cv t p = d\<lparr>c_mem := write_bytes (c_mem d) (ur_rip regs) (word_bytes w), c_regs := regs\<rparr>"
proof -
  obtain u1 u2 where ct: "k_cont K p s = (Inr (), u1)"
    and wt: "k_waitpid K p u1 = (Inr (Stopped SIGTRAP), u2)"
    and fin: "inject_finish K p nr regs w u2 = (r, t)"
    using assms(1,2) unfolding inject_run_def
    by (fastforce elim!: try_act_completed split: wait_status.splits if_splits)
  obtain rr where "cv u2 p = d\<lparr>c_regs := rr\<rparr>" "ur_rax rr = v"
    using run_law [OF ct wt assms(3,4,5)] by auto
  with inject_finish_effect [OF fin assms(2)] show ?thesis by simp
qed

text \<open>
  The general fact: if the trap survives the system call, the child ends with the effect of
  the call on the prepared child, its old registers and its old code word.
\<close>

lemma inject_effect:
  assumes "inject K p nr a0 a1 a2 a3 a4 a5 s = (r, t)" "completed r"
  obtains w v d where "bytes_at (c_mem (cv s p)) (ur_rip (c_regs (cv s p))) (word_bytes w)"
    and "sysc nr a0 a1 a2 a3 a4 a5 (prepared (cv s p) w nr a0 a1 a2 a3 a4 a5) = (v, d)"
    and "trap_intact (ur_rip (c_regs (cv s p))) d \<Longrightarrow> r = syscall_result nr v \<and>
         cv t p = d\<lparr>c_mem := write_bytes (c_mem d) (ur_rip (c_regs (cv s p))) (word_bytes w),
                     c_regs := c_regs (cv s p)\<rparr>"
proof -
  let ?c = "cv s p"
  let ?ip = "ur_rip (c_regs ?c)"
  obtain regs u1 w u2 u3 u4 where g: "k_getregs K p s = (Inr regs, u1)"
    and pk: "k_peek K p (ur_rip regs) u1 = (Inr w, u2)"
    and po: "k_poke K p (ur_rip regs) (inject_patch w) u2 = (Inr (), u3)"
    and st: "k_setregs K p (syscall_regs regs nr a0 a1 a2 a3 a4 a5) u3 = (Inr (), u4)"
    and run: "inject_run K p nr regs w u4 = (r, t)"
    using assms unfolding inject_def Let_def by (fastforce elim!: try_act_completed)
  let ?q = "prepared ?c w nr a0 a1 a2 a3 a4 a5"
  from getregs_law [OF g] have regs: "regs = c_regs ?c" and c1: "cv u1 p = ?c" by auto
  from peek_law [OF pk] c1 have c2: "cv u2 p = ?c" and w: "bytes_at (c_mem ?c) ?ip (word_bytes w)"
    by (auto simp: regs)
  have c4: "cv u4 p = ?q"
    using poke_law [OF po] setregs_law [OF st] c2 by (simp add: prepared_def regs)
  obtain v d where vd: "sysc nr a0 a1 a2 a3 a4 a5 ?q = (v, d)" by fastforce
  have at: "at_syscall (cv u4 p)"
    using prepared_code(1) bytes_at_mapped [OF w] by (simp add: c4)
  show ?thesis
    using inject_run_effect [OF run assms(2) at, of v d] vd
    by (intro that [OF w vd]) (simp add: c4 do_syscall_prepared regs)
qed

lemma inj_mmap_effect:
  assumes "inj_mmap K p a n prot (MAP_FIXED OR MAP_PRIVATE OR MAP_ANONYMOUS) fd 0 s = (Inr v, t)"
    and clear: "code_clear (cv s p) a n"
  shows "v = a \<and> page_aligned a \<and> cv t p = (cv s p)\<lparr>c_mem := map_pages (c_mem (cv s p)) a n prot\<rparr>"
proof -
  let ?c = "cv s p"
  let ?ip = "ur_rip (c_regs ?c)"
  let ?fl = "scast (MAP_FIXED OR MAP_PRIVATE OR MAP_ANONYMOUS) :: u64"
  obtain w v' d where w: "bytes_at (c_mem ?c) ?ip (word_bytes w)"
    and sys: "sysc SYS_mmap a n (scast prot) ?fl (scast fd) 0
        (prepared ?c w SYS_mmap a n (scast prot) ?fl (scast fd) 0) = (v', d)"
    and eff: "trap_intact ?ip d \<Longrightarrow> Inr v = syscall_result SYS_mmap v' \<and>
       cv t p = d\<lparr>c_mem := write_bytes (c_mem d) ?ip (word_bytes w), c_regs := c_regs ?c\<rparr>"
    using inject_effect [OF assms(1) [unfolded inj_mmap_def]] by auto
  let ?q = "prepared ?c w SYS_mmap a n (scast prot) ?fl (scast fd) 0"
  have trap: "trap_intact ?ip ?q"
    using prepared_code(2) bytes_at_mapped [OF w] by simp
  have out: "\<not> in_pages a n (?ip + 2)"
    using clear unfolding code_clear_def by (elim allE [of _ 2]) simp
  have ok: "\<not> is_errno v'"
  proof
    assume e: "is_errno v'"
    from mmap_error_law [OF sys e] trap out have "trap_intact ?ip d"
      by (auto simp: trap_intact_def)
    from eff [OF this] e show False by (simp add: syscall_result_def)
  qed
  from mmap_law [OF sys ok]
  have v': "v' = a" and al: "page_aligned a"
    and d: "d = ?q\<lparr>c_mem := map_pages (c_mem ?q) a n prot\<rparr>"
    by (simp_all add: ucast_scast)
  have "trap_intact ?ip d"
    using trap out by (simp add: d trap_intact_def map_pages_def)
  from eff [OF this] ok v' al show ?thesis
    using write_back [OF w] clear
    by (simp add: syscall_result_def d prepared_def map_pages_write code_clear_def)
qed

lemma trap_same_bytes:
  "map_option fst (m (ip + 2)) = map_option fst (c_mem c (ip + 2)) \<Longrightarrow>
   trap_intact ip c \<Longrightarrow> trap_intact ip (c\<lparr>c_mem := m\<rparr>)"
  by (auto simp: trap_intact_def)

lemma inj_mprotect_effect:
  assumes "inj_mprotect K p a n prot s = (Inr (), t)"
  shows "cv t p = (cv s p)\<lparr>c_mem := protect_pages (c_mem (cv s p)) a n prot\<rparr>"
proof -
  let ?c = "cv s p"
  let ?ip = "ur_rip (c_regs ?c)"
  from assms obtain x where inj: "inject K p SYS_mprotect a n (scast prot) 0 0 0 s = (Inr x, t)"
    by (auto simp: inj_mprotect_def)
  obtain w v d where w: "bytes_at (c_mem ?c) ?ip (word_bytes w)"
    and sys: "sysc SYS_mprotect a n (scast prot) 0 0 0
        (prepared ?c w SYS_mprotect a n (scast prot) 0 0 0) = (v, d)"
    and eff: "trap_intact ?ip d \<Longrightarrow> Inr x = syscall_result SYS_mprotect v \<and>
       cv t p = d\<lparr>c_mem := write_bytes (c_mem d) ?ip (word_bytes w), c_regs := c_regs ?c\<rparr>"
    using inject_effect [OF inj] by auto
  let ?q = "prepared ?c w SYS_mprotect a n (scast prot) 0 0 0"
  have trap: "trap_intact ?ip ?q"
    using prepared_code(2) bytes_at_mapped [OF w] by simp
  have ok: "\<not> is_errno v"
  proof
    assume e: "is_errno v"
    from mprotect_error_law [OF sys e] trap have "trap_intact ?ip d"
      by (auto intro!: trap_same_bytes)
    from eff [OF this] e show False by (simp add: syscall_result_def)
  qed
  from mprotect_law [OF sys ok]
  have d: "d = ?q\<lparr>c_mem := protect_pages (c_mem ?q) a n prot\<rparr>" by (simp add: ucast_scast)
  have "trap_intact ?ip d"
    unfolding d by (rule trap_same_bytes [OF _ trap])
      (simp add: protect_pages_def option.map_comp comp_def split_beta)
  from eff [OF this] show ?thesis
    using write_back [OF w] by (simp add: d prepared_def protect_pages_write)
qed

lemma inj_dup2_effect:
  assumes "inj_dup2 K p old new s = (r, t)" "completed r"
  shows "if c_fds (cv s p) old = None then (\<exists>e. r = Inl e) \<and> cv t p = cv s p
     else \<exists>fds. cv t p = (cv s p)\<lparr>c_fds := fds\<rparr>"
proof -
  let ?c = "cv s p"
  let ?ip = "ur_rip (c_regs ?c)"
  from assms obtain r' where inj: "inject K p SYS_dup2 (scast old) (scast new) 0 0 0 0 s = (r', t)"
    and c: "completed r'" and err: "(\<exists>e. r' = Inl e) \<longrightarrow> (\<exists>e. r = Inl e)"
    by (auto simp: inj_dup2_def bind_act_def split: prod.splits sum.splits)
  obtain w v d where w: "bytes_at (c_mem ?c) ?ip (word_bytes w)"
    and sys: "sysc SYS_dup2 (scast old) (scast new) 0 0 0 0
        (prepared ?c w SYS_dup2 (scast old) (scast new) 0 0 0 0) = (v, d)"
    and eff: "trap_intact ?ip d \<Longrightarrow> r' = syscall_result SYS_dup2 v \<and>
       cv t p = d\<lparr>c_mem := write_bytes (c_mem d) ?ip (word_bytes w), c_regs := c_regs ?c\<rparr>"
    using inject_effect [OF inj c] by auto
  let ?q = "prepared ?c w SYS_dup2 (scast old) (scast new) 0 0 0 0"
  have trap: "trap_intact ?ip ?q"
    using prepared_code(2) bytes_at_mapped [OF w] by simp
  note law = dup2_law [OF sys, unfolded ucast_scast]
  from law trap have "trap_intact ?ip d"
    by (auto simp: trap_intact_def split: if_splits)
  note eff = eff [OF this]
  show ?thesis
  proof (cases "c_fds ?c old = None")
    case True
    with law have "is_errno v" "d = ?q" by (simp_all add: prepared_def)
    with eff err True show ?thesis
      using write_back [OF w] by (simp add: syscall_result_def prepared_def)
  next
    case False
    with law obtain fds where "d = ?q\<lparr>c_fds := fds\<rparr>" by (auto simp: prepared_def)
    with eff False show ?thesis
      using write_back [OF w] by (auto simp: prepared_def)
  qed
qed

lemma write_to_child_mem_effect:
  assumes "write_to_child_mem K p a bs s = (Inr (), t)"
  shows "cv t p = (cv s p)\<lparr>c_mem := write_bytes (c_mem (cv s p)) a bs\<rparr>"
proof -
  from assms obtain h s1 h' s2 where o: "k_mem_open K True p s = (Inr h, s1)"
    and k: "k_mem_seek K h a s1 = (Inr h', s2)" and w: "k_mem_write_all K h' bs s2 = (Inr (), t)"
    unfolding write_to_child_mem_def by auto
  from mem_open_law [OF o, of p] mem_seek_law [OF k, of p]
  have "h' = Memh p a" "cv s2 p = cv s p" by auto
  with mem_write_law [of p a bs s2 t] w show ?thesis by simp
qed

text \<open>The injected calls and the writes through /proc are the memory interface of the child.\<close>

sublocale injected: child_memory cv
  "\<lambda>p a n prot. inj_mmap K p a n prot (MAP_FIXED OR MAP_PRIVATE OR MAP_ANONYMOUS) (- 1) 0"
  "write_to_child_mem K" "inj_mprotect K"
  by unfold_locales
    (auto dest: inj_mmap_effect inj_mprotect_effect write_to_child_mem_effect)

end

section \<open>A live child completes every injection\<close>

context live_tracer
begin

lemma inject_finish_completes:
  assumes "c_stopped (cv s p)" "mapped (c_mem (cv s p)) (ur_rip regs) 8"
  shows "completed (fst (inject_finish K p nr regs w s))"
proof -
  obtain x t where x: "k_getregs K p s = (Inr x, t)"
    using getregs_live [OF assms(1)] by (rule is_ok_fstE)
  have t: "cv t p = cv s p" using getregs_law [OF x] by simp
  obtain t2 where y: "k_poke K p (ur_rip regs) w t = (Inr (), t2)"
    using poke_live [of t p "ur_rip regs" w] assms by (auto simp: t elim: is_ok_fstE)
  have t2: "c_stopped (cv t2 p)" using poke_law [OF y] assms(1) by (simp add: t)
  obtain t3 where z: "k_setregs K p regs t2 = (Inr (), t3)"
    using setregs_live [OF t2, of regs] by (elim is_ok_fstE) auto
  show ?thesis
    by (simp add: inject_finish_def Let_def act_simps x y z)
qed

lemma inject_completes:
  assumes stopped: "c_stopped (cv s p)"
    and m: "mapped (c_mem (cv s p)) (ur_rip (c_regs (cv s p))) 8"
    and x: "executable (c_mem (cv s p)) (ur_rip (c_regs (cv s p))) 3"
    and frame: "\<And>w v d. sysc nr a0 a1 a2 a3 a4 a5 (prepared (cv s p) w nr a0 a1 a2 a3 a4 a5) = (v, d) \<Longrightarrow>
      trap_intact (ur_rip (c_regs (cv s p))) d \<and> c_stopped d \<and>
      mapped (c_mem d) (ur_rip (c_regs (cv s p))) 8"
  shows "completed (fst (inject K p nr a0 a1 a2 a3 a4 a5 s))"
proof -
  let ?c = "cv s p"
  let ?ip = "ur_rip (c_regs ?c)"
  obtain regs u1 where g: "k_getregs K p s = (Inr regs, u1)"
    using getregs_live [OF stopped] by (rule is_ok_fstE)
  have c1: "cv u1 p = ?c" and regs: "regs = c_regs ?c" using getregs_law [OF g] by auto
  obtain w u2 where pk: "k_peek K p ?ip u1 = (Inr w, u2)"
    using peek_live [of u1 p ?ip] stopped m by (auto simp: c1 elim: is_ok_fstE)
  have c2: "cv u2 p = ?c" using peek_law [OF pk] c1 by simp
  obtain u3 where po: "k_poke K p ?ip (inject_patch w) u2 = (Inr (), u3)"
    using poke_live [of u2 p ?ip "inject_patch w"] stopped m by (auto simp: c2 elim: is_ok_fstE)
  have c3: "c_stopped (cv u3 p)" using poke_law [OF po] stopped by (simp add: c2)
  obtain u4 where st: "k_setregs K p (syscall_regs regs nr a0 a1 a2 a3 a4 a5) u3 = (Inr (), u4)"
    using setregs_live [OF c3, of "syscall_regs regs nr a0 a1 a2 a3 a4 a5"] by (elim is_ok_fstE) auto
  let ?q = "prepared ?c w nr a0 a1 a2 a3 a4 a5"
  have c4: "cv u4 p = ?q"
    using poke_law [OF po] setregs_law [OF st] c2 by (simp add: prepared_def regs)
  obtain v d where vd: "sysc nr a0 a1 a2 a3 a4 a5 ?q = (v, d)" by fastforce
  note fr = frame [OF vd]
  have at: "at_syscall (cv u4 p)" using prepared_code(1) [OF m] by (simp add: c4)
  have ex: "executable (c_mem (cv u4 p)) ?ip 3" "c_stopped (cv u4 p)"
    using x stopped by (simp_all add: c4 prepared_def)
  obtain u5 u6 where ct: "k_cont K p u4 = (Inr (), u5)"
    and wt: "k_waitpid K p u5 = (Inr (Stopped SIGTRAP), u6)"
    using run_live [of u4 p v d] at ex fr vd by (auto simp: c4 do_syscall_prepared)
  obtain rr where c6: "cv u6 p = d\<lparr>c_regs := rr\<rparr>"
    using run_law [OF ct wt at, of v d] fr vd by (auto simp: c4 do_syscall_prepared)
  have "completed (fst (inject_finish K p nr regs w u6))"
    using fr by (intro inject_finish_completes) (simp_all add: c6 regs)
  then show ?thesis
    by (simp add: inject_def inject_run_def Let_def act_simps g regs [symmetric] pk [folded regs] po [folded regs] st ct wt)
qed

lemma inj_dup2_completes:
  assumes "c_stopped (cv s p)"
    and m: "mapped (c_mem (cv s p)) (ur_rip (c_regs (cv s p))) 8"
    and "executable (c_mem (cv s p)) (ur_rip (c_regs (cv s p))) 3"
  shows "completed (fst (inj_dup2 K p old new s))"
proof -
  have "completed (fst (inject K p SYS_dup2 (scast old) (scast new) 0 0 0 0 s))"
  proof (rule inject_completes [OF assms])
    fix w v d
    assume sys: "sysc SYS_dup2 (scast old) (scast new) 0 0 0 0
        (prepared (cv s p) w SYS_dup2 (scast old) (scast new) 0 0 0 0) = (v, d)"
    have "trap_intact (ur_rip (c_regs (cv s p)))
        (prepared (cv s p) w SYS_dup2 (scast old) (scast new) 0 0 0 0)"
      by (rule prepared_code(2) [OF m])
    with dup2_law [OF sys] assms
    show "trap_intact (ur_rip (c_regs (cv s p))) d \<and> c_stopped d \<and>
        mapped (c_mem d) (ur_rip (c_regs (cv s p))) 8"
      by (auto simp: trap_intact_def prepared_def split: if_splits)
  qed
  then show ?thesis
    by (auto simp: inj_dup2_def bind_act_def ok_act_app split: prod.splits sum.splits)
qed

text \<open>An injection that completes and whose trap survives returns what the system call returned.\<close>

lemma inject_returns:
  assumes "c_stopped (cv s p)"
    and m: "mapped (c_mem (cv s p)) (ur_rip (c_regs (cv s p))) 8"
    and "executable (c_mem (cv s p)) (ur_rip (c_regs (cv s p))) 3"
    and frame: "\<And>w v d. sysc nr a0 a1 a2 a3 a4 a5 (prepared (cv s p) w nr a0 a1 a2 a3 a4 a5) = (v, d) \<Longrightarrow>
      trap_intact (ur_rip (c_regs (cv s p))) d \<and> c_stopped d \<and>
      mapped (c_mem d) (ur_rip (c_regs (cv s p))) 8 \<and> \<not> is_errno v"
  shows "\<exists>v t. inject K p nr a0 a1 a2 a3 a4 a5 s = (Inr v, t)"
proof -
  obtain r t where i: "inject K p nr a0 a1 a2 a3 a4 a5 s = (r, t)" by fastforce
  have "completed (fst (inject K p nr a0 a1 a2 a3 a4 a5 s))"
    using frame by (intro inject_completes [OF assms(1-3)]) blast
  with i have c: "completed r" by simp
  obtain w v d where "bytes_at (c_mem (cv s p)) (ur_rip (c_regs (cv s p))) (word_bytes w)"
    and sys: "sysc nr a0 a1 a2 a3 a4 a5 (prepared (cv s p) w nr a0 a1 a2 a3 a4 a5) = (v, d)"
    and eff: "trap_intact (ur_rip (c_regs (cv s p))) d \<Longrightarrow> r = syscall_result nr v \<and>
         cv t p = d\<lparr>c_mem := write_bytes (c_mem d) (ur_rip (c_regs (cv s p))) (word_bytes w),
                     c_regs := c_regs (cv s p)\<rparr>"
    using inject_effect [OF i c] by auto
  from frame [OF sys] eff have "r = Inr v" by (simp add: syscall_result_def)
  with i show ?thesis by blast
qed

end

text \<open>The kernel grants a mapping whatever the state of the child.\<close>

definition mmap_granted :: "syscalls \<Rightarrow> u64 \<Rightarrow> u64 \<Rightarrow> bool" where
  "mmap_granted sysc a n \<longleftrightarrow> (\<forall>pr nofd c. \<not> is_errno (fst
     (sysc SYS_mmap a n pr (scast (MAP_FIXED OR MAP_PRIVATE OR MAP_ANONYMOUS)) nofd 0 c)))"

text \<open>A child that can execute injected calls.\<close>

definition injectable :: "child \<Rightarrow> bool" where
  "injectable c \<longleftrightarrow> c_stopped c \<and> mapped (c_mem c) (ur_rip (c_regs c)) 8 \<and>
     executable (c_mem c) (ur_rip (c_regs c)) 3"

lemma map_pages_None: "map_pages m a n prot x = None \<Longrightarrow> m x = None"
  by (simp add: map_pages_def split: if_splits)

lemma mapped_map_pages: "mapped m b k \<Longrightarrow> mapped (map_pages m a n prot) b k"
  unfolding mapped_def by (meson map_pages_None)

lemma mapped_in_pages:
  assumes "length bs \<le> unat n" "unat a + unat n \<le> 2 ^ 47"
  shows "mapped (map_pages m a n prot) a (length bs)"
proof -
  have "in_pages a n (a + of_nat i)" if "i < length bs" for i
  proof -
    have "unat (a + of_nat i) = unat a + i"
      using that assms by (subst word_le_add_unat) (simp_all add: unat_of_nat)
    with that assms page_up_ge [of "unat a + unat n"] show ?thesis by (simp add: in_pages_def)
  qed
  then show ?thesis by (simp add: mapped_def map_pages_def)
qed

context serving_tracer
begin

lemma inj_mmap_returns:
  assumes c: "injectable (cv s p)" and clear: "code_clear (cv s p) a n" and g: "mmap_granted sysc a n"
  shows "\<exists>t. inj_mmap K p a n prot (MAP_FIXED OR MAP_PRIVATE OR MAP_ANONYMOUS) fd 0 s = (Inr a, t)"
proof -
  let ?c = "cv s p"
  let ?ip = "ur_rip (c_regs ?c)"
  let ?fl = "scast (MAP_FIXED OR MAP_PRIVATE OR MAP_ANONYMOUS) :: u64"
  have out: "\<not> in_pages a n (?ip + 2)"
    using clear unfolding code_clear_def by (elim allE [of _ 2]) simp
  have "\<exists>v t. inject K p SYS_mmap a n (scast prot) ?fl (scast fd) 0 s = (Inr v, t)"
  proof (rule inject_returns)
    fix w v d
    assume sys: "sysc SYS_mmap a n (scast prot) ?fl (scast fd) 0
        (prepared ?c w SYS_mmap a n (scast prot) ?fl (scast fd) 0) = (v, d)"
    let ?q = "prepared ?c w SYS_mmap a n (scast prot) ?fl (scast fd) 0"
    have ne: "\<not> is_errno v"
      using g sys unfolding mmap_granted_def by (metis fst_conv)
    from mmap_law [OF sys ne] have d: "d = ?q\<lparr>c_mem := map_pages (c_mem ?q) a n (ucast (scast prot :: u64))\<rparr>"
      by simp
    have "trap_intact ?ip ?q" "mapped (c_mem ?q) ?ip 8" "c_stopped ?q"
      using c prepared_code(2) [of ?c] by (simp_all add: injectable_def prepared_def)
    with d out ne show "trap_intact ?ip d \<and> c_stopped d \<and> mapped (c_mem d) ?ip 8 \<and> \<not> is_errno v"
      by (simp add: trap_intact_def mapped_map_pages) (simp add: map_pages_def)
  qed (use c in \<open>simp_all add: injectable_def\<close>)
  then obtain v t where "inj_mmap K p a n prot (MAP_FIXED OR MAP_PRIVATE OR MAP_ANONYMOUS) fd 0 s = (Inr v, t)"
    unfolding inj_mmap_def by blast
  with inj_mmap_effect [OF this clear] show ?thesis by blast
qed

lemma inj_mprotect_returns:
  assumes c: "injectable (cv s p)" and al: "page_aligned a"
    and m: "\<forall>x. in_pages a n x \<longrightarrow> c_mem (cv s p) x \<noteq> None"
  shows "\<exists>t. inj_mprotect K p a n prot s = (Inr (), t)"
proof -
  let ?c = "cv s p"
  let ?ip = "ur_rip (c_regs ?c)"
  have "\<exists>v t. inject K p SYS_mprotect a n (scast prot) 0 0 0 s = (Inr v, t)"
  proof (rule inject_returns)
    fix w v d
    assume sys: "sysc SYS_mprotect a n (scast prot) 0 0 0
        (prepared ?c w SYS_mprotect a n (scast prot) 0 0 0) = (v, d)"
    let ?q = "prepared ?c w SYS_mprotect a n (scast prot) 0 0 0"
    have ne: "\<not> is_errno v"
      using m by (intro mprotect_live [OF sys al]) (simp add: prepared_def)
    note d = mprotect_law [OF sys ne]
    have t: "trap_intact ?ip ?q" "mapped (c_mem ?q) ?ip 8" "c_stopped ?q"
      using c prepared_code(2) [of ?c] by (simp_all add: injectable_def prepared_def)
    have "protect_pages m a n pr x = None \<longleftrightarrow> m x = None" for m pr x
      by (simp add: protect_pages_def)
    then have "mapped (c_mem d) ?ip 8" using t d by (simp add: mapped_def)
    moreover have "trap_intact ?ip d"
      unfolding d by (rule trap_same_bytes [OF _ t(1)])
        (simp add: protect_pages_def option.map_comp comp_def split_beta)
    ultimately show "trap_intact ?ip d \<and> c_stopped d \<and> mapped (c_mem d) ?ip 8 \<and> \<not> is_errno v"
      using t d ne by simp
  qed (use c in \<open>simp_all add: injectable_def\<close>)
  then show ?thesis by (auto simp: inj_mprotect_def act_simps)
qed

lemma write_to_child_mem_returns:
  assumes "c_stopped (cv s p)" "mapped (c_mem (cv s p)) a (length bs)" "unat a < 2 ^ 47"
  shows "\<exists>t. write_to_child_mem K p a bs s = (Inr (), t)"
proof -
  obtain h s1 where o: "k_mem_open K True p s = (Inr h, s1)"
    using mem_open_live [OF assms(1)] by (rule is_ok_fstE)
  obtain h' s2 where k: "k_mem_seek K h a s1 = (Inr h', s2)"
    using mem_seek_live [OF assms(3)] by (rule is_ok_fstE)
  from mem_open_law [OF o, of p] mem_seek_law [OF k, of p] have h': "h' = Memh p a" and v: "cv s2 p = cv s p"
    by auto
  obtain t where "k_mem_write_all K h' bs s2 = (Inr (), t)"
    using mem_write_live [of s2 p a bs] assms by (auto simp: h' v elim: is_ok_fstE)
  with o k show ?thesis by (simp add: write_to_child_mem_def act_simps)
qed

end

end
