(* ===== verification/FdRestore.thy ===== *)
theory FdRestore
  imports Injector
begin

text \<open>
  \<open>fd_restore.rs\<close>: reopening the captured descriptors in the restorer, the outcome of each
  and the report over all of them. Reasons and errors are constructors instead of messages;
  the logging of an outcome is left out.
\<close>

section \<open>Outcomes and the report\<close>

datatype skip_reason =
    PipeNotRestored string
  | SocketNotRestored string
  | DeviceNotRestored u32 string
  | UnknownFdType u32
  | RegularWithoutPath
  | DirectoryWithoutPath

datatype fd_outcome =
    Restored u32 i32
  | Skipped u32 skip_reason
  | Failed u32 error

fun outcome_fd_num :: "fd_outcome \<Rightarrow> u32" where
  "outcome_fd_num (Restored n _) = n"
| "outcome_fd_num (Skipped n _) = n"
| "outcome_fd_num (Failed n _) = n"

fun is_restored :: "fd_outcome \<Rightarrow> bool" where
  "is_restored (Restored _ _) = True"
| "is_restored _ = False"

fun is_skipped :: "fd_outcome \<Rightarrow> bool" where
  "is_skipped (Skipped _ _) = True"
| "is_skipped _ = False"

fun is_failed :: "fd_outcome \<Rightarrow> bool" where
  "is_failed (Failed _ _) = True"
| "is_failed _ = False"

record restore_report =
  rr_restored :: "fd_outcome list"
  rr_skipped :: "fd_outcome list"
  rr_failed :: "fd_outcome list"

definition empty_report :: restore_report where
  "empty_report = \<lparr>rr_restored = [], rr_skipped = [], rr_failed = []\<rparr>"

definition report_add :: "restore_report \<Rightarrow> fd_outcome \<Rightarrow> restore_report" where
  "report_add rep outcome = (case outcome of
       Restored _ _ \<Rightarrow> rep\<lparr>rr_restored := rr_restored rep @ [outcome]\<rparr>
     | Skipped _ _ \<Rightarrow> rep\<lparr>rr_skipped := rr_skipped rep @ [outcome]\<rparr>
     | Failed _ _ \<Rightarrow> rep\<lparr>rr_failed := rr_failed rep @ [outcome]\<rparr>)"

definition has_failures :: "restore_report \<Rightarrow> bool" where
  "has_failures rep = (rr_failed rep \<noteq> [])"

section \<open>Descriptor types and open flags\<close>

datatype fd_type = Regular | Pipe | Socket | Device | Directory | OtherType

text \<open>The integer encoding of the generated \<open>FdType\<close>; an unknown tag is \<open>OtherType\<close>.\<close>

definition fd_type_try_from :: "i32 \<Rightarrow> fd_type option" where
  "fd_type_try_from n =
     (if n = 0 then Some Regular else if n = 1 then Some Pipe else if n = 2 then Some Socket
      else if n = 3 then Some Device else if n = 4 then Some Directory
      else if n = 5 then Some OtherType else None)"

text \<open>\<open>std::fs::OpenOptions\<close> as far as it is used: the flags its \<open>open\<close> passes to \<open>open(2)\<close>.\<close>

record open_options =
  oo_read :: bool
  oo_write :: bool
  oo_append :: bool
  oo_custom :: i32

definition access_flags :: "open_options \<Rightarrow> os_error + i32" where
  "access_flags opts =
     (if oo_append opts then Inr (if oo_read opts then O_RDWR OR O_APPEND else O_WRONLY OR O_APPEND)
      else if oo_read opts \<and> oo_write opts then Inr O_RDWR
      else if oo_read opts then Inr O_RDONLY
      else if oo_write opts then Inr O_WRONLY
      else Inl (Errno 22))"

definition has_nul :: "string \<Rightarrow> bool" where
  "has_nul path = list_ex (\<lambda>c. c = char_of (0 :: nat)) path"

definition std_open :: "'k kernel \<Rightarrow> open_options \<Rightarrow> string \<Rightarrow> ('k, os_error, i32) act" where
  "std_open K opts path =
     (if has_nul path then fail_act NulInPath
      else case access_flags opts of
          Inl e \<Rightarrow> fail_act e
        | Inr access \<Rightarrow> k_open K path (O_CLOEXEC OR access OR (oo_custom opts AND NOT O_ACCMODE)))"

definition regular_options :: "fd_spec \<Rightarrow> open_options" where
  "regular_options spec =
     (let access_mode = fs_open_flags spec AND O_ACCMODE;
          write_access = (access_mode = O_WRONLY \<or> access_mode = O_RDWR)
      in \<lparr>oo_read = True, oo_write = write_access,
          oo_append = (fs_open_flags spec AND O_APPEND \<noteq> 0),
          oo_custom = fs_open_flags spec AND O_CLOEXEC\<rparr>)"

section \<open>Restoring\<close>

text \<open>Open, then seek; a file whose seek fails is dropped, which closes it.\<close>

definition open_and_seek :: "'k kernel \<Rightarrow> fd_spec \<Rightarrow> ('k, error, i32) act" where
  "open_and_seek K spec =
     try_act (std_open K (regular_options spec) (fs_path spec))
       (\<lambda>e. Fd_Err (OpenFailed (fs_path spec) e)) (\<lambda>fd s.
     case k_seek K fd (fs_offset spec) s of
       (Inl e, t) \<Rightarrow>
         ignore_act (k_close K fd) (fail_act (Fd_Err (SeekFailed (fs_offset spec) (fs_path spec) e))) t
     | (Inr _, t) \<Rightarrow> (Inr fd, t))"

definition open_directory :: "'k kernel \<Rightarrow> fd_spec \<Rightarrow> ('k, error, i32) act" where
  "open_directory K spec =
     (if has_nul (fs_path spec) then fail_act (Fd_Err PathHasNul)
      else try_act (k_open K (fs_path spec) (O_DIRECTORY OR O_RDONLY OR O_CLOEXEC))
        (\<lambda>e. Fd_Err (OpenDirFailed (fs_path spec) e)) (\<lambda>os_fd. ok_act os_fd))"

definition outcome_of :: "u32 \<Rightarrow> (error + i32) \<times> 'k \<Rightarrow> fd_outcome \<times> 'k" where
  "outcome_of n r = (case r of
       (Inr os_fd, t) \<Rightarrow> (Restored n os_fd, t)
     | (Inl e, t) \<Rightarrow> (Failed n e, t))"

definition restore_regular :: "'k kernel \<Rightarrow> u32 \<Rightarrow> fd_spec \<Rightarrow> 'k \<Rightarrow> fd_outcome \<times> 'k" where
  "restore_regular K n spec s =
     (if fs_path spec = [] then (Skipped n RegularWithoutPath, s)
      else outcome_of n (open_and_seek K spec s))"

definition restore_directory :: "'k kernel \<Rightarrow> u32 \<Rightarrow> fd_spec \<Rightarrow> 'k \<Rightarrow> fd_outcome \<times> 'k" where
  "restore_directory K n spec s =
     (if fs_path spec = [] then (Skipped n DirectoryWithoutPath, s)
      else outcome_of n (open_directory K spec s))"

definition restore_one :: "'k kernel \<Rightarrow> fd_spec \<Rightarrow> 'k \<Rightarrow> fd_outcome \<times> 'k" where
  "restore_one K spec s =
     (let n = fs_num spec;
          ty = (case fd_type_try_from (fs_type spec) of None \<Rightarrow> OtherType | Some t \<Rightarrow> t)
      in case ty of
           Regular \<Rightarrow> restore_regular K n spec s
         | Pipe \<Rightarrow> (Skipped n (PipeNotRestored (fs_path spec)), s)
         | Socket \<Rightarrow> (Skipped n (SocketNotRestored (fs_path spec)), s)
         | Device \<Rightarrow> (Skipped n (DeviceNotRestored n (fs_path spec)), s)
         | Directory \<Rightarrow> restore_directory K n spec s
         | OtherType \<Rightarrow> (Skipped n (UnknownFdType n), s))"

fun restore_from :: "'k kernel \<Rightarrow> restore_report \<Rightarrow> fd_spec list \<Rightarrow> 'k \<Rightarrow> restore_report \<times> 'k" where
  "restore_from K rep [] s = (rep, s)"
| "restore_from K rep (spec # specs) s =
     (case restore_one K spec s of (outcome, t) \<Rightarrow> restore_from K (report_add rep outcome) specs t)"

definition restore_all :: "'k kernel \<Rightarrow> fd_spec list \<Rightarrow> 'k \<Rightarrow> restore_report \<times> 'k" where
  "restore_all K fds s = restore_from K empty_report fds s"

section \<open>The report sorts the outcomes\<close>

fun restore_outcomes :: "'k kernel \<Rightarrow> fd_spec list \<Rightarrow> 'k \<Rightarrow> fd_outcome list \<times> 'k" where
  "restore_outcomes K [] s = ([], s)"
| "restore_outcomes K (spec # specs) s =
     (case restore_one K spec s of (o1, t) \<Rightarrow>
      case restore_outcomes K specs t of (os, u) \<Rightarrow> (o1 # os, u))"

definition sort_outcomes :: "fd_outcome list \<Rightarrow> restore_report" where
  "sort_outcomes os = \<lparr>rr_restored = filter is_restored os, rr_skipped = filter is_skipped os,
     rr_failed = filter is_failed os\<rparr>"

definition report_append :: "restore_report \<Rightarrow> fd_outcome list \<Rightarrow> restore_report" where
  "report_append rep os = \<lparr>rr_restored = rr_restored rep @ filter is_restored os,
     rr_skipped = rr_skipped rep @ filter is_skipped os, rr_failed = rr_failed rep @ filter is_failed os\<rparr>"

lemma report_append_Nil [simp]: "report_append rep [] = rep"
  by (simp add: report_append_def)

lemma report_append_Cons: "report_append (report_add rep o1) os = report_append rep (o1 # os)"
  by (cases o1) (simp_all add: report_append_def report_add_def)

lemma restore_from_outcomes:
  "restore_from K rep specs s =
     (case restore_outcomes K specs s of (os, t) \<Rightarrow> (report_append rep os, t))"
  by (induction specs arbitrary: rep s)
     (auto simp: report_append_Cons split: prod.splits)

lemma restore_all_outcomes:
  "restore_all K specs s = (case restore_outcomes K specs s of (os, t) \<Rightarrow> (sort_outcomes os, t))"
  by (auto simp: restore_all_def restore_from_outcomes sort_outcomes_def report_append_def
      empty_report_def split: prod.splits)

lemma outcome_of_num [simp]: "outcome_fd_num (fst (outcome_of n r)) = n"
  by (auto simp: outcome_of_def split: prod.splits sum.splits)

lemma restore_one_num: "outcome_fd_num (fst (restore_one K spec s)) = fs_num spec"
  by (auto simp: restore_one_def restore_regular_def restore_directory_def Let_def
      split: fd_type.splits)

lemma restore_outcomes_nums:
  "map outcome_fd_num (fst (restore_outcomes K specs s)) = map fs_num specs"
proof (induction specs arbitrary: s)
  case (Cons spec specs)
  then show ?case
    using restore_one_num [of K spec s] by (auto split: prod.splits) (metis fst_conv)
qed simp

lemma filter_outcomes_length:
  "length (filter is_restored os) + length (filter is_skipped os) + length (filter is_failed os) = length os"
proof (induction os)
  case (Cons o1 os)
  then show ?case by (cases o1) auto
qed simp

section \<open>Open flags\<close>

lemma o_flag_bits:
  "bit O_RDONLY i \<longleftrightarrow> False" "bit O_WRONLY i \<longleftrightarrow> i = 0" "bit O_RDWR i \<longleftrightarrow> i = 1"
  "bit O_ACCMODE i \<longleftrightarrow> i = 0 \<or> i = 1" "bit O_APPEND i \<longleftrightarrow> i = 10" "bit O_CLOEXEC i \<longleftrightarrow> i = 19"
proof -
  have e: "bit (2 ^ n :: i32) i \<longleftrightarrow> i < 32 \<and> i = n" for n
    by (auto simp: bit_exp_iff)
  show "bit O_RDWR i \<longleftrightarrow> i = 1" "bit O_APPEND i \<longleftrightarrow> i = 10" "bit O_CLOEXEC i \<longleftrightarrow> i = 19"
    using e [of 1] e [of 10] e [of 19] by (auto simp: O_RDWR_def O_APPEND_def O_CLOEXEC_def)
  have "(3 :: i32) = 1 OR 2" by simp
  then show "bit O_ACCMODE i \<longleftrightarrow> i = 0 \<or> i = 1"
    using e [of 1] by (simp only: O_ACCMODE_def bit_or_iff) (auto simp: bit_1_iff)
qed (simp_all add: O_RDONLY_def O_WRONLY_def bit_1_iff)

text \<open>The flags a regular file is reopened with.\<close>

definition regular_open_flags :: "fd_spec \<Rightarrow> os_error + i32" where
  "regular_open_flags spec = (let opts = regular_options spec in
     bind_res (access_flags opts)
       (\<lambda>access. Inr (O_CLOEXEC OR access OR (oo_custom opts AND NOT O_ACCMODE))))"

lemma std_open_regular:
  "std_open K (regular_options spec) path = (if has_nul path then fail_act NulInPath
     else case regular_open_flags spec of Inl e \<Rightarrow> fail_act e | Inr fl \<Rightarrow> k_open K path fl)"
  by (auto simp: std_open_def regular_open_flags_def Let_def split: sum.splits)

end
