(* ===== verification/Restorer.thy ===== *)
theory Restorer
  imports Aslr FdRestore
begin

text \<open>
  \<open>ProcessRestorer\<close> of \<open>restorer.rs\<close>: the pre-flight checks, the fork of the stub child, the
  loop that maps and fills the regions of the snapshot, the registers, the descriptors, and the
  cleanup of a child whose restoration failed. \<open>ck\<close> is \<open>MemoryDumper::checksum\<close>.
\<close>

section \<open>Definitions\<close>

record restore_result =
  res_pid :: pid
  regions_ok :: nat
  fd_report :: restore_report

definition restorer_validate :: "string \<Rightarrow> 'fd process_snapshot \<Rightarrow> error + unit" where
  "restorer_validate host_arch snap =
     (if snap_arch snap \<noteq> ''x86_64'' then Inl (Restore_Err (SnapshotArch (snap_arch snap)))
      else if host_arch \<noteq> ''x86_64'' then Inl (Restore_Err (HostArch host_arch))
      else bind_res (layout_validate (from_snapshot snap)) (\<lambda>_.
        if snap_registers snap = None then Inl (Restore_Err NoRegisters)
        else if memory_regions snap = [] then Inl (Restore_Err NoMemoryRegions)
        else Inr ()))"

definition fork_stub :: "'k kernel \<Rightarrow> ('k, error, pid) act" where
  "fork_stub K =
     try_act (k_fork K child_stub) (\<lambda>e. Restore_Err (ForkFailed e)) (\<lambda>child.
     try_act (k_waitpid K child) (\<lambda>e. Restore_Err (WaitAfterForkFailed e)) (\<lambda>status.
     case status of
       Stopped sig \<Rightarrow> if sig = SIGSTOP then ok_act child
         else fail_act (Restore_Err (StubUnexpectedSignal sig))
     | _ \<Rightarrow> fail_act (Restore_Err (StubUnexpectedStatus status))))"

definition restore_region ::
    "'k kernel \<Rightarrow> (u8 list \<Rightarrow> u64) \<Rightarrow> pid \<Rightarrow> pb_region \<Rightarrow> ('k, error, unit) act" where
  "restore_region K ck child region =
     (let computed = ck (data region) in
      if computed \<noteq> checksum region then
        fail_act (Restore_Err (ChecksumMismatch (start_addr region) (checksum region) computed))
      else
        let addr = start_addr region; size = size_bytes region;
            final_prot = perms_to_prot (permissions region);
            mmap_prot = final_prot OR PROT_WRITE in
        bind_act (inj_mmap K child addr size mmap_prot
            (MAP_FIXED OR MAP_PRIVATE OR MAP_ANONYMOUS) (- 1) 0) (\<lambda>mapped_at.
        if mapped_at \<noteq> addr then fail_act (Restore_Err (MmapPlacement mapped_at addr))
        else bind_act (write_to_child_mem K child addr (data region)) (\<lambda>_.
          if final_prot \<noteq> mmap_prot then inj_mprotect K child addr size final_prot
          else ok_act ())))"

fun restore_regions ::
    "'k kernel \<Rightarrow> (u8 list \<Rightarrow> u64) \<Rightarrow> pid \<Rightarrow> nat \<Rightarrow> pb_region list \<Rightarrow> ('k, error, nat) act" where
  "restore_regions K ck child n [] = ok_act n"
| "restore_regions K ck child n (r # rs) =
     bind_act (restore_region K ck child r) (\<lambda>_. restore_regions K ck child (n + 1) rs)"

definition gp_of_proto :: "pb_registers \<Rightarrow> user_regs" where
  "gp_of_proto regs = \<lparr>
     ur_rax = pr_rax regs, ur_rbx = pr_rbx regs, ur_rcx = pr_rcx regs, ur_rdx = pr_rdx regs,
     ur_rdi = pr_rdi regs, ur_rsi = pr_rsi regs, ur_rbp = pr_rbp regs, ur_rsp = pr_rsp regs,
     ur_r8 = pr_r8 regs, ur_r9 = pr_r9 regs, ur_r10 = pr_r10 regs, ur_r11 = pr_r11 regs,
     ur_r12 = pr_r12 regs, ur_r13 = pr_r13 regs, ur_r14 = pr_r14 regs, ur_r15 = pr_r15 regs,
     ur_rip = pr_rip regs, ur_eflags = pr_rflags regs,
     ur_cs = pr_cs regs, ur_ss = pr_ss regs, ur_ds = pr_ds regs, ur_es = pr_es regs,
     ur_fs = pr_fs regs, ur_gs = pr_gs regs,
     ur_fs_base = pr_fs_base regs, ur_gs_base = pr_gs_base regs,
     ur_orig_rax = - 1\<rparr>"

definition restore_registers :: "'k kernel \<Rightarrow> pid \<Rightarrow> 'fd process_snapshot \<Rightarrow> ('k, error, unit) act" where
  "restore_registers K child snap = (case snap_registers snap of
       None \<Rightarrow> fail_act (Child_Err NoRegisterState)
     | Some regs \<Rightarrow>
         try_act (k_setregs K child (gp_of_proto regs)) (\<lambda>e. Child_Err (SetRegsFailed e)) (\<lambda>_.
         if pr_fpu_state regs \<noteq> [] then
           if length (pr_fpu_state regs) \<noteq> FPREGS_SIZE then
             fail_act (Child_Err (FpuSize (length (pr_fpu_state regs)) FPREGS_SIZE))
           else try_act (k_setfpregs K child (pr_fpu_state regs))
             (\<lambda>e. Child_Err (SetFpRegsFailed e)) (\<lambda>_. ok_act ())
         else ok_act ()))"

text \<open>One \<open>dup2\<close> injection per reopened descriptor; a failure is a warning, and the
  descriptor of the restorer is closed either way.\<close>

fun inject_fds :: "'k kernel \<Rightarrow> pid \<Rightarrow> fd_outcome list \<Rightarrow> 'k \<Rightarrow> 'k" where
  "inject_fds K child [] s = s"
| "inject_fds K child (Restored n os_fd # os) s =
     inject_fds K child os (snd (k_close K os_fd (snd (inj_dup2 K child os_fd n s))))"
| "inject_fds K child (_ # os) s = inject_fds K child os s"

definition restore_inner ::
    "'k kernel \<Rightarrow> (u8 list \<Rightarrow> u64) \<Rightarrow> pid \<Rightarrow> fd_spec process_snapshot \<Rightarrow> ('k, error, restore_result) act" where
  "restore_inner K ck child snap =
     bind_act (restore_regions K ck child 0 (memory_regions snap)) (\<lambda>n.
     bind_act (restore_registers K child snap) (\<lambda>_ s.
     case restore_all K (file_descriptors snap) s of (rep, t) \<Rightarrow>
     try_act (k_detach K child) (\<lambda>e. Child_Err (RestoreDetachFailed e)) (\<lambda>_.
       ok_act \<lparr>res_pid = child, regions_ok = n, fd_report = rep\<rparr>)
       (inject_fds K child (rr_restored rep) t)))"

definition restore ::
    "'k kernel \<Rightarrow> (u8 list \<Rightarrow> u64) \<Rightarrow> string \<Rightarrow> fd_spec process_snapshot \<Rightarrow> ('k, error, restore_result) act" where
  "restore K ck host_arch snap = (case restorer_validate host_arch snap of
       Inl e \<Rightarrow> fail_act e
     | Inr _ \<Rightarrow> bind_act (fork_stub K) (\<lambda>child s.
         case restore_inner K ck child snap s of
           (Inr res, t) \<Rightarrow> (Inr res, t)
         | (Inl e, t) \<Rightarrow>
             ignore_act (k_kill K child SIGKILL) (ignore_act (k_waitpid K child) (fail_act e)) t))"

section \<open>The pre-flight checks\<close>

lemma restorer_validate_ok:
  "restorer_validate host snap = Inr () \<longleftrightarrow>
     snap_arch snap = ''x86_64'' \<and> host = ''x86_64'' \<and>
     layout_validate (from_snapshot snap) = Inr () \<and>
     snap_registers snap \<noteq> None \<and> memory_regions snap \<noteq> []"
  by (auto simp: restorer_validate_def bind_res_Inr)

section \<open>What a successful restoration went through\<close>

text \<open>These facts are about the control flow alone and hold for every kernel.\<close>

lemma restore_region_checked:
  "restore_region K ck p r s = (Inr (), t) \<Longrightarrow> ck (data r) = checksum r"
  by (auto simp: restore_region_def Let_def split: if_splits)

lemma restore_regions_checked:
  "restore_regions K ck p n rs s = (Inr k, t) \<Longrightarrow>
   k = n + length rs \<and> (\<forall>r \<in> set rs. ck (data r) = checksum r)"
proof (induction rs arbitrary: n s)
  case (Cons r rs)
  then obtain s1 where r: "restore_region K ck p r s = (Inr (), s1)"
    and rs: "restore_regions K ck p (n + 1) rs s1 = (Inr k, t)" by auto
  from Cons.IH [OF rs] restore_region_checked [OF r] show ?case by simp
qed simp

lemma restore_inner_phases:
  assumes "restore_inner K ck p snap s = (Inr res, t)"
  obtains n s1 s2 rep s3 where "restore_regions K ck p 0 (memory_regions snap) s = (Inr n, s1)"
    and "restore_registers K p snap s1 = (Inr (), s2)"
    and "restore_all K (file_descriptors snap) s2 = (rep, s3)"
    and "k_detach K p (inject_fds K p (rr_restored rep) s3) = (Inr (), t)"
    and "res = \<lparr>res_pid = p, regions_ok = n, fd_report = rep\<rparr>"
  using assms unfolding restore_inner_def by (auto split: prod.splits)

lemma restore_phases:
  assumes "restore K ck host snap s = (Inr res, t)"
  obtains p u where "restorer_validate host snap = Inr ()" "fork_stub K s = (Inr p, u)"
    and "restore_inner K ck p snap u = (Inr res, t)"
  using assms unfolding restore_def
  by (auto simp: ignore_act_def split: sum.splits prod.splits)

text \<open>A result accounts for every region and every descriptor of the snapshot.\<close>

lemma restore_counts:
  assumes "restore K ck host snap s = (Inr res, t)"
  shows "regions_ok res = length (memory_regions snap) \<and>
     (\<forall>r \<in> set (memory_regions snap). ck (data r) = checksum r) \<and>
     length (rr_restored (fd_report res)) + length (rr_skipped (fd_report res)) +
       length (rr_failed (fd_report res)) = length (file_descriptors snap)"
proof -
  from assms obtain p u where "restore_inner K ck p snap u = (Inr res, t)"
    by (rule restore_phases)
  then obtain n s1 s2 rep s3
    where a: "restore_regions K ck p 0 (memory_regions snap) u = (Inr n, s1)"
      and c: "restore_all K (file_descriptors snap) s2 = (rep, s3)"
      and res: "res = \<lparr>res_pid = p, regions_ok = n, fd_report = rep\<rparr>"
    by (rule restore_inner_phases)
  obtain os where os: "restore_outcomes K (file_descriptors snap) s2 = (os, s3)"
    and rep: "rep = sort_outcomes os"
    using c by (auto simp: restore_all_outcomes split: prod.splits)
  have "map outcome_fd_num os = map fs_num (file_descriptors snap)"
    using restore_outcomes_nums [of K "file_descriptors snap" s2] os by simp
  then have "length os = length (file_descriptors snap)"
    by (metis length_map)
  with restore_regions_checked [OF a] show ?thesis
    using filter_outcomes_length [of os] by (simp add: res rep sort_outcomes_def)
qed

lemma restore_inner_pid: "restore_inner K ck p snap s = (Inr res, t) \<Longrightarrow> res_pid res = p"
  by (elim restore_inner_phases) simp

section \<open>The memory a region loop produces\<close>

definition load_region :: "memmap \<Rightarrow> pb_region \<Rightarrow> memmap" where
  "load_region m r =
     load_pages m (start_addr r) (size_bytes r) (perms_to_prot (permissions r)) (data r)"

definition load_regions :: "memmap \<Rightarrow> pb_region list \<Rightarrow> memmap" where
  "load_regions m rs = foldl load_region m rs"

lemma load_regions_simps [simp]:
  "load_regions m [] = m" "load_regions m (r # rs) = load_regions (load_region m r) rs"
  by (simp_all add: load_regions_def)

abbreviation region_in_pages :: "pb_region \<Rightarrow> u64 \<Rightarrow> bool" where
  "region_in_pages r \<equiv> in_pages (start_addr r) (size_bytes r)"

lemma region_in_pages: "region_in_pages r x \<longleftrightarrow> unat x \<in> region_pages r"
  by (simp add: in_pages_def region_pages_def)

lemma load_regions_outside:
  "\<forall>r \<in> set rs. \<not> region_in_pages r x \<Longrightarrow> load_regions m rs x = m x"
  by (induction rs arbitrary: m) (simp_all add: load_region_def load_pages_def)

text \<open>The byte a region gives to an address of its pages: its data, zero beyond.\<close>

definition region_byte :: "pb_region \<Rightarrow> u64 \<Rightarrow> u8" where
  "region_byte r x = (if unat x - unat (start_addr r) < length (data r)
     then data r ! (unat x - unat (start_addr r)) else 0)"

lemma load_regions_inside:
  assumes "sorted_wrt regions_disjoint rs"
    and "\<forall>r \<in> set rs. region_bounded r \<and> page_aligned (start_addr r)"
    and "r \<in> set rs" "region_in_pages r x"
  shows "load_regions m rs x = Some (region_byte r x, perms_to_prot (permissions r))"
  using assms
proof (induction rs arbitrary: m)
  case (Cons q rs)
  show ?case
  proof (cases "r \<in> set rs")
    case True
    with Cons show ?thesis by simp
  next
    case False
    with Cons.prems have q: "q = r" by simp
    have "\<not> region_in_pages r' x" if "r' \<in> set rs" for r'
    proof -
      have "region_pages r \<inter> region_pages r' = {}"
        using Cons.prems that unfolding q
        by (intro pages_disjoint) (auto simp: region_bounded_def)
      with Cons.prems(4) show ?thesis by (auto simp: region_in_pages)
    qed
    then have "load_regions m (q # rs) x = load_region m r x"
      by (simp add: load_regions_outside q)
    with Cons.prems q show ?thesis
      by (simp add: load_region_def load_pages_def region_byte_def in_pages_start)
  qed
qed simp

section \<open>The region loop\<close>

text \<open>
  What the loop needs to be safe: bounded regions, no more data than the region has room for,
  and the code the child is stopped at outside the pages of every region.
\<close>

definition loadable :: "child \<Rightarrow> pb_region \<Rightarrow> bool" where
  "loadable c r \<longleftrightarrow> region_bounded r \<and> length (data r) \<le> unat (size_bytes r) \<and>
     code_clear c (start_addr r) (size_bytes r)"

lemma code_clear_mem [simp]: "code_clear (c\<lparr>c_mem := m\<rparr>) a n = code_clear c a n"
  by (simp add: code_clear_def)

lemma loadable_mem [simp]: "loadable (c\<lparr>c_mem := m\<rparr>) r = loadable c r"
  by (simp add: loadable_def)

context tracer
begin

lemma restore_region_effect:
  assumes "restore_region K ck p r s = (Inr (), t)" "loadable (cv s p) r"
  shows "cv t p = (cv s p)\<lparr>c_mem := load_region (c_mem (cv s p)) r\<rparr>"
    and "page_aligned (start_addr r)" and "ck (data r) = checksum r"
proof -
  let ?f = "perms_to_prot (permissions r)"
  obtain s1 s2 where ckr: "ck (data r) = checksum r"
    and m: "inj_mmap K p (start_addr r) (size_bytes r) (?f OR PROT_WRITE)
        (MAP_FIXED OR MAP_PRIVATE OR MAP_ANONYMOUS) (- 1) 0 s = (Inr (start_addr r), s1)"
    and w: "write_to_child_mem K p (start_addr r) (data r) s1 = (Inr (), s2)"
    and f: "if ?f \<noteq> ?f OR PROT_WRITE
        then inj_mprotect K p (start_addr r) (size_bytes r) ?f s2 = (Inr (), t) else t = s2"
    using assms(1) unfolding restore_region_def Let_def
    by (auto split: if_splits)
  from assms(2) have l: "code_clear (cv s p) (start_addr r) (size_bytes r)"
    "length (data r) \<le> unat (size_bytes r)" "unat (start_addr r) + unat (size_bytes r) \<le> 2 ^ 47"
    by (simp_all add: loadable_def region_bounded_def)
  from injected.load_sequence [OF m l(1) w f l(2,3)]
  show "cv t p = (cv s p)\<lparr>c_mem := load_region (c_mem (cv s p)) r\<rparr>" "page_aligned (start_addr r)"
    by (simp_all add: load_region_def)
  show "ck (data r) = checksum r" by (rule ckr)
qed

lemma restore_regions_effect:
  assumes "restore_regions K ck p n rs s = (Inr k, t)" "\<forall>r \<in> set rs. loadable (cv s p) r"
  shows "k = n + length rs \<and> cv t p = (cv s p)\<lparr>c_mem := load_regions (c_mem (cv s p)) rs\<rparr> \<and>
     (\<forall>r \<in> set rs. page_aligned (start_addr r) \<and> ck (data r) = checksum r)"
  using assms
proof (induction rs arbitrary: n s)
  case (Cons r rs)
  then obtain s1 where r: "restore_region K ck p r s = (Inr (), s1)"
    and rs: "restore_regions K ck p (n + 1) rs s1 = (Inr k, t)" by auto
  note e = restore_region_effect [OF r]
  have "\<forall>r \<in> set rs. loadable (cv s1 p) r"
    using Cons.prems(2) e(1) by simp
  from Cons.IH [OF rs this] e Cons.prems(2) show ?case by simp
qed simp

lemma restore_registers_effect:
  assumes "restore_registers K p snap s = (Inr (), t)"
  obtains regs where "snap_registers snap = Some regs"
    and "cv t p = (cv s p)\<lparr>c_regs := gp_of_proto regs,
           c_fp := (if pr_fpu_state regs = [] then c_fp (cv s p) else pr_fpu_state regs)\<rparr>"
    and "pr_fpu_state regs = [] \<or> length (pr_fpu_state regs) = FPREGS_SIZE"
proof -
  from assms obtain regs s1 where regs: "snap_registers snap = Some regs"
    and g: "k_setregs K p (gp_of_proto regs) s = (Inr (), s1)"
    and f: "if pr_fpu_state regs = [] then t = s1
       else length (pr_fpu_state regs) = FPREGS_SIZE \<and>
         k_setfpregs K p (pr_fpu_state regs) s1 = (Inr (), t)"
    unfolding restore_registers_def by (auto split: option.splits if_splits)
  show ?thesis
    using setregs_law [OF g] setfpregs_law f
    by (intro that [OF regs]) (auto split: if_splits)
qed

lemma restore_one_view: "cv (snd (restore_one K spec s)) p = cv s p"
proof -
  have o: "cv (snd (open_and_seek K spec s)) p = cv s p"
    unfolding open_and_seek_def try_act_def ignore_act_def std_open_def
    by (auto simp: fail_act_app split: prod.splits sum.splits dest: file_open_law file_seek_law)
      (metis file_close_law file_open_law file_seek_law prod.collapse)+
  have d: "cv (snd (open_directory K spec s)) p = cv s p"
    unfolding open_directory_def try_act_def
    by (auto simp: fail_act_app ok_act_app split: prod.splits sum.splits dest: file_open_law)
  have out: "snd (outcome_of n r) = snd r" for n and r :: "(error + i32) \<times> 'a"
    by (auto simp: outcome_of_def split: prod.splits sum.splits)
  show ?thesis
    by (auto simp: restore_one_def restore_regular_def restore_directory_def Let_def out o d
        split: fd_type.splits)
qed

lemma restore_all_view: "restore_all K specs s = (rep, t) \<Longrightarrow> cv t p = cv s p"
proof -
  have "cv (snd (restore_outcomes K specs s)) p = cv s p" for s
  proof (induction specs arbitrary: s)
    case (Cons spec specs)
    then show ?case
      using restore_one_view [of spec s p] by (auto split: prod.splits) (metis snd_conv)
  qed simp
  then show "restore_all K specs s = (rep, t) \<Longrightarrow> cv t p = cv s p"
    by (auto simp: restore_all_outcomes split: prod.splits) (metis snd_conv)
qed

end

context live_tracer
begin

text \<open>Whatever the descriptors, injecting them leaves registers and memory as they were.\<close>

lemma inject_fds_effect:
  assumes "c_stopped (cv s p)" "mapped (c_mem (cv s p)) (ur_rip (c_regs (cv s p))) 8"
    and "executable (c_mem (cv s p)) (ur_rip (c_regs (cv s p))) 3"
  shows "\<exists>fds. cv (inject_fds K p os s) p = (cv s p)\<lparr>c_fds := fds\<rparr>"
  using assms
proof (induction os arbitrary: s)
  case Nil
  show ?case by (rule exI [of _ "c_fds (cv s p)"]) simp
next
  case (Cons o1 os)
  show ?case
  proof (cases o1)
    case (Restored n fd)
    obtain r s1 where d: "inj_dup2 K p fd n s = (r, s1)" by fastforce
    have "completed r" using inj_dup2_completes [OF Cons.prems, of fd n] d by simp
    from inj_dup2_effect [OF d this] have "\<exists>fds. cv s1 p = (cv s p)\<lparr>c_fds := fds\<rparr>"
      by (auto split: if_splits intro: exI [of _ "c_fds (cv s p)"])
    then obtain fds where 1: "cv s1 p = (cv s p)\<lparr>c_fds := fds\<rparr>" ..
    obtain x s2 where c: "k_close K fd s1 = (x, s2)" by fastforce
    have 2: "cv s2 p = (cv s p)\<lparr>c_fds := fds\<rparr>" using file_close_law [OF c] 1 by simp
    with Cons.prems obtain fds' where "cv (inject_fds K p os s2) p = (cv s2 p)\<lparr>c_fds := fds'\<rparr>"
      using Cons.IH [of s2] by auto
    with 2 Restored d c show ?thesis by auto
  qed (use Cons in simp_all)
qed

lemma restore_inner_effect:
  assumes run: "restore_inner K ck p snap s = (Inr res, t)"
    and stopped: "c_stopped (cv s p)"
    and loadable: "\<forall>r \<in> set (memory_regions snap). loadable (cv s p) r"
    and regs: "snap_registers snap = Some regs"
    and code: "mapped (load_regions (c_mem (cv s p)) (memory_regions snap)) (pr_rip regs) 8"
      "executable (load_regions (c_mem (cv s p)) (memory_regions snap)) (pr_rip regs) 3"
  shows "res_pid res = p \<and> regions_ok res = length (memory_regions snap) \<and>
     (\<forall>r \<in> set (memory_regions snap). page_aligned (start_addr r) \<and> ck (data r) = checksum r) \<and>
     (\<exists>fds. cv t p = \<lparr>c_stopped = False, c_regs = gp_of_proto regs,
        c_fp = (if pr_fpu_state regs = [] then c_fp (cv s p) else pr_fpu_state regs),
        c_mem = load_regions (c_mem (cv s p)) (memory_regions snap), c_fds = fds\<rparr>)"
proof -
  obtain n s1 s2 rep s3 where
      a: "restore_regions K ck p 0 (memory_regions snap) s = (Inr n, s1)"
    and b: "restore_registers K p snap s1 = (Inr (), s2)"
    and c: "restore_all K (file_descriptors snap) s2 = (rep, s3)"
    and d: "k_detach K p (inject_fds K p (rr_restored rep) s3) = (Inr (), t)"
    and res: "res = \<lparr>res_pid = p, regions_ok = n, fd_report = rep\<rparr>"
    using run by (rule restore_inner_phases)
  note ea = restore_regions_effect [OF a loadable]
  have 2: "cv s2 p = (cv s p)\<lparr>c_mem := load_regions (c_mem (cv s p)) (memory_regions snap),
      c_regs := gp_of_proto regs,
      c_fp := (if pr_fpu_state regs = [] then c_fp (cv s p) else pr_fpu_state regs)\<rparr>"
    using ea regs restore_registers_effect [OF b] by force
  have 3: "cv s3 p = cv s2 p" by (rule restore_all_view [OF c])
  have "c_stopped (cv s3 p)" "mapped (c_mem (cv s3 p)) (ur_rip (c_regs (cv s3 p))) 8"
    "executable (c_mem (cv s3 p)) (ur_rip (c_regs (cv s3 p))) 3"
    using stopped code by (simp_all add: 3 2 gp_of_proto_def)
  from inject_fds_effect [OF this, of "rr_restored rep"] obtain fds
    where 4: "cv (inject_fds K p (rr_restored rep) s3) p = (cv s3 p)\<lparr>c_fds := fds\<rparr>" ..
  have "cv t p = \<lparr>c_stopped = False, c_regs = gp_of_proto regs,
      c_fp = (if pr_fpu_state regs = [] then c_fp (cv s p) else pr_fpu_state regs),
      c_mem = load_regions (c_mem (cv s p)) (memory_regions snap), c_fds = fds\<rparr>"
    using detach_law [OF d] 4 3 2 by (cases "cv s p") simp
  with ea res show ?thesis by auto
qed

end

section \<open>A restoration that must succeed\<close>

lemma injectable_cong:
  assumes "injectable c" "\<forall>i < 8. m (ur_rip (c_regs c) + of_nat i) = c_mem c (ur_rip (c_regs c) + of_nat i)"
  shows "injectable (c\<lparr>c_mem := m\<rparr>)"
  using assms by (simp add: injectable_def mapped_def executable_def)

lemma injectable_map:
  "injectable c \<Longrightarrow> code_clear c a n \<Longrightarrow> injectable (c\<lparr>c_mem := map_pages (c_mem c) a n prot\<rparr>)"
  by (rule injectable_cong) (simp_all add: code_clear_def map_pages_def)

lemma injectable_load:
  "injectable c \<Longrightarrow> code_clear c a n \<Longrightarrow> injectable (c\<lparr>c_mem := load_pages (c_mem c) a n prot bs\<rparr>)"
  by (rule injectable_cong) (simp_all add: code_clear_def load_pages_def)

lemma injectable_write: "injectable c \<Longrightarrow> injectable (c\<lparr>c_mem := write_bytes (c_mem c) a bs\<rparr>)"
  by (simp add: injectable_def)

text \<open>What a region must satisfy to be restored: an intact checksum, a page boundary, and a
  kernel that grants the mapping.\<close>

definition restorable_region :: "syscalls \<Rightarrow> (u8 list \<Rightarrow> u64) \<Rightarrow> pb_region \<Rightarrow> bool" where
  "restorable_region sysc ck r \<longleftrightarrow> ck (data r) = checksum r \<and> page_aligned (start_addr r) \<and>
     mmap_granted sysc (start_addr r) (size_bytes r)"

context serving_tracer
begin

lemma restore_region_returns:
  assumes c: "injectable (cv s p)" and l: "loadable (cv s p) r" and ok: "restorable_region sysc ck r"
  shows "\<exists>t. restore_region K ck p r s = (Inr (), t) \<and> injectable (cv t p)"
proof -
  let ?a = "start_addr r" and ?n = "size_bytes r" and ?f = "perms_to_prot (permissions r)"
  have clear: "code_clear (cv s p) ?a ?n" and fits: "length (data r) \<le> unat ?n"
    and bound: "unat ?a + unat ?n \<le> 2 ^ 47" and pos: "0 < unat ?n"
    using l by (simp_all add: loadable_def region_bounded_def unat_gt_0)
  then have low: "unat ?a < 2 ^ 47" by linarith
  have al: "page_aligned ?a" and g: "mmap_granted sysc ?a ?n" and ckr: "ck (data r) = checksum r"
    using ok by (simp_all add: restorable_region_def)
  obtain s1 where 1: "inj_mmap K p ?a ?n (?f OR PROT_WRITE)
      (MAP_FIXED OR MAP_PRIVATE OR MAP_ANONYMOUS) (- 1) 0 s = (Inr ?a, s1)"
    using inj_mmap_returns [OF c clear g] by blast
  have v1: "cv s1 p = (cv s p)\<lparr>c_mem := map_pages (c_mem (cv s p)) ?a ?n (?f OR PROT_WRITE)\<rparr>"
    using inj_mmap_effect [OF 1 clear] by blast
  obtain s2 where 2: "write_to_child_mem K p ?a (data r) s1 = (Inr (), s2)"
    using write_to_child_mem_returns [of s1 p ?a "data r"] c low mapped_in_pages [OF fits bound]
    by (auto simp: v1 injectable_def)
  have v2: "cv s2 p = (cv s1 p)\<lparr>c_mem := write_bytes (c_mem (cv s1 p)) ?a (data r)\<rparr>"
    by (rule write_to_child_mem_effect [OF 2])
  have i1: "injectable (cv s1 p)"
    unfolding v1 by (rule injectable_map [OF c clear])
  then have "injectable (cv s2 p)" unfolding v2 by (rule injectable_write)
  moreover have "\<forall>x. in_pages ?a ?n x \<longrightarrow> c_mem (cv s2 p) x \<noteq> None"
    by (simp add: v2 v1 map_pages_def)
  ultimately obtain t where 3: "inj_mprotect K p ?a ?n ?f s2 = (Inr (), t)"
    using inj_mprotect_returns al by blast
  from 1 2 3 ckr have "\<exists>t. restore_region K ck p r s = (Inr (), t)"
    by (simp add: restore_region_def Let_def act_simps)
  then obtain t where t: "restore_region K ck p r s = (Inr (), t)" ..
  have "injectable (cv t p)"
    unfolding restore_region_effect(1) [OF t l] load_region_def by (rule injectable_load [OF c clear])
  with t show ?thesis by blast
qed

lemma restore_regions_returns:
  assumes "injectable (cv s p)" "\<forall>r \<in> set rs. loadable (cv s p) r \<and> restorable_region sysc ck r"
  shows "\<exists>t. restore_regions K ck p n rs s = (Inr (n + length rs), t) \<and> injectable (cv t p)"
  using assms
proof (induction rs arbitrary: n s)
  case (Cons r rs)
  then obtain s1 where r: "restore_region K ck p r s = (Inr (), s1)" and i: "injectable (cv s1 p)"
    using restore_region_returns [of s p r ck] by auto
  have "loadable (cv s1 p) q" if "q \<in> set rs" for q
    using restore_region_effect(1) [OF r] Cons.prems(2) that by simp
  with Cons.IH [OF i, of "n + 1"] Cons.prems(2) r show ?case by (auto simp: act_simps)
qed auto

lemma restore_registers_returns:
  assumes "c_stopped (cv s p)" "snap_registers snap = Some regs"
    and "pr_fpu_state regs = [] \<or> length (pr_fpu_state regs) = FPREGS_SIZE"
  shows "\<exists>t. restore_registers K p snap s = (Inr (), t)"
proof -
  obtain s1 where g: "k_setregs K p (gp_of_proto regs) s = (Inr (), s1)"
    using setregs_live [OF assms(1), of "gp_of_proto regs"] by (elim is_ok_fstE) auto
  then have c: "c_stopped (cv s1 p)" using setregs_law [OF g] assms(1) by simp
  show ?thesis
  proof (cases "pr_fpu_state regs = []")
    case True
    with assms(2) g show ?thesis by (simp add: restore_registers_def act_simps)
  next
    case False
    then have "is_ok (fst (k_setfpregs K p (pr_fpu_state regs) s1))"
      using setfpregs_live [OF c, of "pr_fpu_state regs"] assms(3) by simp
    then obtain t where "k_setfpregs K p (pr_fpu_state regs) s1 = (Inr (), t)"
      by (elim is_ok_fstE) auto
    with False assms g show ?thesis by (auto simp: restore_registers_def act_simps)
  qed
qed

lemma restore_inner_returns:
  assumes c: "injectable (cv s p)"
    and rs: "\<forall>r \<in> set (memory_regions snap). loadable (cv s p) r \<and> restorable_region sysc ck r"
    and regs: "snap_registers snap = Some regs"
      "pr_fpu_state regs = [] \<or> length (pr_fpu_state regs) = FPREGS_SIZE"
    and code: "mapped (load_regions (c_mem (cv s p)) (memory_regions snap)) (pr_rip regs) 8"
      "executable (load_regions (c_mem (cv s p)) (memory_regions snap)) (pr_rip regs) 3"
  shows "\<exists>res t. restore_inner K ck p snap s = (Inr res, t)"
proof -
  obtain s1 where a: "restore_regions K ck p 0 (memory_regions snap) s =
      (Inr (length (memory_regions snap)), s1)" and i1: "injectable (cv s1 p)"
    using restore_regions_returns [OF c rs, of 0] by auto
  have v1: "cv s1 p = (cv s p)\<lparr>c_mem := load_regions (c_mem (cv s p)) (memory_regions snap)\<rparr>"
    using restore_regions_effect [OF a] rs by blast
  obtain s2 where b: "restore_registers K p snap s1 = (Inr (), s2)"
    using restore_registers_returns [OF _ regs] i1 by (auto simp: injectable_def)
  obtain fp where v2: "cv s2 p = (cv s1 p)\<lparr>c_regs := gp_of_proto regs, c_fp := fp\<rparr>"
    using restore_registers_effect [OF b] regs(1) by (metis option.inject)
  obtain rep s3 where r: "restore_all K (file_descriptors snap) s2 = (rep, s3)" by fastforce
  have "c_stopped (cv s3 p)" "mapped (c_mem (cv s3 p)) (ur_rip (c_regs (cv s3 p))) 8"
    "executable (c_mem (cv s3 p)) (ur_rip (c_regs (cv s3 p))) 3"
    using c code by (simp_all add: restore_all_view [OF r] v2 v1 gp_of_proto_def injectable_def)
  note inject_fds_effect [OF this, of "rr_restored rep"]
  then have "c_stopped (cv (inject_fds K p (rr_restored rep) s3) p)"
    using c by (auto simp: restore_all_view [OF r] v2 v1 injectable_def)
  from detach_live [OF this] obtain t
    where "k_detach K p (inject_fds K p (rr_restored rep) s3) = (Inr (), t)"
    by (auto elim: is_ok_fstE)
  with a b r show ?thesis
    by (simp add: restore_inner_def act_simps)
qed

end

end
