(* ===== verification/Descriptors.thy ===== *)
theory Descriptors
  imports Restorer
begin

text \<open>
  What becomes of the restored descriptors. \<open>FdRestorer\<close> opens files in the restorer, after the
  child was forked; the \<open>dup2\<close> that follows is executed by the child, on the child's own table.
  The locale \<open>fd_kernel\<close> adds to the laws of the tracer those of descriptor tables, as
  \<open>fork(2)\<close>, \<open>open(2)\<close>, \<open>close(2)\<close> and \<open>dup2(2)\<close> document them: a fork copies the table, an
  open takes a free number of the caller's table, and no call on one process changes the
  table of the other.
\<close>

text \<open>
  What a restoration needs of the snapshot and of the child it starts from: data that fits its
  region, no region over the code the child is stopped at, and an instruction pointer in
  memory that is mapped and executable once the regions are loaded.
\<close>

definition restorable :: "child \<Rightarrow> 'fd process_snapshot \<Rightarrow> pb_registers \<Rightarrow> bool" where
  "restorable c snap regs \<longleftrightarrow> snap_registers snap = Some regs \<and>
     (\<forall>r \<in> set (memory_regions snap). length (data r) \<le> unat (size_bytes r) \<and>
        code_clear c (start_addr r) (size_bytes r)) \<and>
     mapped (load_regions (c_mem c) (memory_regions snap)) (pr_rip regs) 8 \<and>
     executable (load_regions (c_mem c) (memory_regions snap)) (pr_rip regs) 3"

section \<open>Descriptor tables\<close>

text \<open>What an attempt to open a file does to the table: a new number, or nothing.\<close>

definition opened ::
    "('k \<Rightarrow> i32 \<Rightarrow> nat option) \<Rightarrow> 'k \<Rightarrow> 'e + i32 \<Rightarrow> 'k \<Rightarrow> bool" where
  "opened pfds s r t \<longleftrightarrow> (case r of
       Inr fd \<Rightarrow> pfds s fd = None \<and> (\<exists>f. pfds t = (pfds s)(fd \<mapsto> f))
     | Inl _ \<Rightarrow> pfds t = pfds s)"

lemma opened_error [simp]: "opened pfds s (Inl e) s"
  by (simp add: opened_def)

text \<open>The numbers a list of outcomes holds open.\<close>

definition held_fds :: "fd_outcome list \<Rightarrow> i32 set" where
  "held_fds os = {fd. \<exists>n. Restored n fd \<in> set os}"

lemma held_fds_simps [simp]:
  "held_fds [] = {}" "held_fds (Restored n fd # os) = insert fd (held_fds os)"
  "held_fds (Skipped n r # os) = held_fds os" "held_fds (Failed n e # os) = held_fds os"
  by (auto simp: held_fds_def)

locale fd_kernel = live_tracer K cv sysc
  for K :: "'k kernel" and cv :: "'k \<Rightarrow> pid \<Rightarrow> child" and sysc :: syscalls +
  fixes pfds :: "'k \<Rightarrow> i32 \<Rightarrow> nat option"
  assumes fork_law: "\<lbrakk>k_fork K child_stub s = (Inr p, t); k_waitpid K p t = (Inr (Stopped SIGSTOP), u)\<rbrakk> \<Longrightarrow>
        c_stopped (cv u p) \<and> c_fds (cv u p) = pfds s \<and> pfds u = pfds s"
    and open_fds: "k_open K path flags s = (Inr fd, t) \<Longrightarrow>
        pfds s fd = None \<and> (\<exists>f. pfds t = (pfds s)(fd \<mapsto> f))"
    and open_error_fds: "k_open K path flags s = (Inl e, t) \<Longrightarrow> pfds t = pfds s"
    and close_fds: "k_close K fd s = (ru, t) \<Longrightarrow> pfds t = (pfds s)(fd := None)"
    and seek_fds: "keeps pfds (k_seek K fd pos)"
    and getregs_fds: "keeps pfds (k_getregs K p)"
    and setregs_fds: "keeps pfds (k_setregs K p x)"
    and setfpregs_fds: "keeps pfds (k_setfpregs K p bs)"
    and peek_fds: "keeps pfds (k_peek K p a)"
    and poke_fds: "keeps pfds (k_poke K p a w)"
    and cont_fds: "keeps pfds (k_cont K p)"
    and waitpid_fds: "keeps pfds (k_waitpid K p)"
    and mem_open_fds: "keeps pfds (k_mem_open K wr p)"
    and mem_seek_fds: "keeps pfds (k_mem_seek K h a)"
    and mem_write_fds: "keeps pfds (k_mem_write_all K h bs)"
    and detach_fds: "keeps pfds (k_detach K p)"
    and kill_fds: "keeps pfds (k_kill K p sig)"
    and fork_fds: "keeps pfds (k_fork K prog)"
begin

lemmas call_fds = seek_fds getregs_fds setregs_fds setfpregs_fds peek_fds poke_fds cont_fds
  waitpid_fds mem_open_fds mem_seek_fds mem_write_fds

lemma inject_fds_kept: "keeps pfds (inject K p nr a0 a1 a2 a3 a4 a5)"
proof -
  have fin: "keeps pfds (inject_finish K p nr regs w)" for regs w
    unfolding inject_finish_def Let_def by (intro keeps_intros call_fds)
  have run: "keeps pfds (inject_run K p nr regs w)" for regs w
  proof -
    have "keeps pfds (case st of
        Stopped sig \<Rightarrow> if sig = SIGTRAP then inject_finish K p nr regs w
          else fail_act (Inject_Err (InjectSignal sig))
      | _ \<Rightarrow> fail_act (Inject_Err (InjectStatus st)))" for st
      by (cases st) (simp_all add: fin keeps_intros)
    then show ?thesis
      unfolding inject_run_def by (intro keeps_intros call_fds)
  qed
  show ?thesis
    unfolding inject_def Let_def by (intro keeps_intros call_fds run)
qed

lemma restore_region_fds: "keeps pfds (restore_region K ck p r)"
  unfolding restore_region_def Let_def inj_mmap_def write_to_child_mem_def inj_mprotect_def
  by (intro keeps_intros call_fds inject_fds_kept)

lemma restore_regions_fds: "keeps pfds (restore_regions K ck p n rs)"
  by (induction rs arbitrary: n) (auto intro!: keeps_intros restore_region_fds)

lemma restore_registers_fds: "keeps pfds (restore_registers K p snap)"
  unfolding restore_registers_def
  by (cases "snap_registers snap") (auto intro!: keeps_intros call_fds)

lemma k_open_opened: "k_open K path fl s = (r, t) \<Longrightarrow> opened pfds s r t"
  using open_fds [of path fl s _ t] open_error_fds [of path fl s _ t]
  by (cases r) (auto simp: opened_def)

lemma std_open_opened: "std_open K (regular_options spec) path s = (r, t) \<Longrightarrow> opened pfds s r t"
  by (auto simp: std_open_regular split: if_splits sum.splits intro: k_open_opened)

lemma open_directory_opened: "open_directory K spec s = (r, t) \<Longrightarrow> opened pfds s r t"
  by (auto simp: open_directory_def try_act_def split: if_splits prod.splits sum.splits
      dest!: k_open_opened) (simp_all add: opened_def)

lemma open_and_seek_opened:
  assumes "open_and_seek K spec s = (r, t)"
  shows "opened pfds s r t"
proof -
  obtain a u where a: "std_open K (regular_options spec) (fs_path spec) s = (a, u)" by fastforce
  note o = std_open_opened [OF a]
  show ?thesis
  proof (cases a)
    case (Inl e)
    with assms a o show ?thesis by (auto simp: open_and_seek_def try_act_def opened_def)
  next
    case (Inr fd)
    obtain x v where k: "k_seek K fd (fs_offset spec) u = (x, v)" by fastforce
    have v: "pfds v = pfds u" by (rule keepsD [OF seek_fds k])
    obtain y w where c: "k_close K fd v = (y, w)" by fastforce
    from assms a Inr k c have "(r = Inr fd \<and> t = v) \<or> ((\<exists>e. r = Inl e) \<and> t = w)"
      by (auto simp: open_and_seek_def try_act_def ignore_act_def split: sum.splits)
    moreover have "pfds w = pfds s"
      using o Inr v close_fds [OF c] by (auto simp: opened_def fun_upd_idem)
    ultimately show ?thesis using o Inr v by (auto simp: opened_def)
  qed
qed

lemma restore_one_table:
  assumes "restore_one K spec s = (o1, t)"
  shows "held_fds [o1] = {} \<and> pfds t = pfds s \<or>
     (\<exists>fd f. held_fds [o1] = {fd} \<and> pfds s fd = None \<and> pfds t = (pfds s)(fd \<mapsto> f))"
proof -
  have out: "outcome_of n (r, u) = (o1, t) \<Longrightarrow> opened pfds s r u \<Longrightarrow> ?thesis" for n r u
    by (cases r) (auto simp: outcome_of_def opened_def)
  obtain r u where reg: "open_and_seek K spec s = (r, u)" by fastforce
  obtain r' u' where dir: "open_directory K spec s = (r', u')" by fastforce
  show ?thesis
    using assms out [OF _ open_and_seek_opened [OF reg]] out [OF _ open_directory_opened [OF dir]]
    by (auto simp: restore_one_def restore_regular_def restore_directory_def Let_def reg dir
        split: fd_type.splits if_splits)
qed

lemma restore_outcomes_table:
  "restore_outcomes K specs s = (os, t) \<Longrightarrow>
     pfds t |` (- held_fds os) = pfds s \<and> (\<forall>fd \<in> held_fds os. pfds s fd = None)"
proof (induction specs arbitrary: s os)
  case (Cons spec specs)
  then obtain o1 u os' where 1: "restore_one K spec s = (o1, u)"
    and 2: "restore_outcomes K specs u = (os', t)" and os: "os = o1 # os'"
    by (auto split: prod.splits)
  have h: "held_fds os = held_fds [o1] \<union> held_fds os'" by (auto simp: os held_fds_def)
  from restore_one_table [OF 1] show ?case
  proof (elim disjE exE conjE)
    assume "held_fds [o1] = {}" "pfds u = pfds s"
    with Cons.IH [OF 2] h show ?thesis by simp
  next
    fix fd f
    assume hd: "held_fds [o1] = {fd}" and f: "pfds s fd = None" "pfds u = (pfds s)(fd \<mapsto> f)"
    have "(pfds t |` (- held_fds os)) x = pfds s x" for x
      using f hd h Cons.IH [OF 2]
      by (cases "x = fd") (auto simp: restrict_map_def fun_eq_iff dest: spec [of _ x])
    moreover have "pfds s x = None" if "x \<in> held_fds os" for x
      using that f hd h Cons.IH [OF 2] by (cases "x = fd") auto
    ultimately show ?thesis by blast
  qed
qed (simp add: restrict_map_def)

lemma restore_outcomes_fds:
  assumes "restore_outcomes K specs s = (os, t)"
  shows "\<forall>n fd. Restored n fd \<in> set os \<longrightarrow> pfds s fd = None"
  using restore_outcomes_table [OF assms] by (auto simp: held_fds_def)

lemma inject_fds_table: "pfds (inject_fds K p os s) = pfds s |` (- held_fds os)"
proof (induction os arbitrary: s)
  case (Cons o1 os)
  show ?case
  proof (cases o1)
    case (Restored n fd)
    obtain r s1 where d: "inj_dup2 K p fd n s = (r, s1)" by fastforce
    have "keeps pfds (inj_dup2 K p fd n)"
      unfolding inj_dup2_def by (intro keeps_intros inject_fds_kept)
    from keepsD [OF this d] have 1: "pfds s1 = pfds s" .
    obtain x s2 where c: "k_close K fd s1 = (x, s2)" by fastforce
    with close_fds [OF c] 1 have "pfds s2 = (pfds s)(fd := None)" by simp
    with Cons.IH [of s2] Restored d c show ?thesis by (auto simp: restrict_map_def fun_eq_iff)
  qed (use Cons in simp_all)
qed (simp add: restrict_map_def)

text \<open>The restorer closes exactly what it opened.\<close>

lemma restore_all_table:
  "keeps pfds (\<lambda>s. case restore_all K fds s of (rep, t) \<Rightarrow>
     try_act (k_detach K p) (\<lambda>e. Child_Err (RestoreDetachFailed e)) (\<lambda>_.
       ok_act \<lparr>res_pid = p, regions_ok = n, fd_report = rep\<rparr>)
       (inject_fds K p (rr_restored rep) t))"
  unfolding keeps_def
proof
  fix s
  obtain os u where os: "restore_outcomes K fds s = (os, u)" by fastforce
  have held: "held_fds (filter is_restored os) = held_fds os" by (auto simp: held_fds_def)
  obtain x w where x: "k_detach K p (inject_fds K p (filter is_restored os) u) = (x, w)" by fastforce
  have "pfds w = pfds s"
    using keepsD [OF detach_fds x] restore_outcomes_table [OF os] by (simp add: inject_fds_table held)
  with os x show "pfds (snd (case restore_all K fds s of (rep, t) \<Rightarrow>
      try_act (k_detach K p) (\<lambda>e. Child_Err (RestoreDetachFailed e)) (\<lambda>_.
        ok_act \<lparr>res_pid = p, regions_ok = n, fd_report = rep\<rparr>)
        (inject_fds K p (rr_restored rep) t))) = pfds s"
    by (auto simp: restore_all_outcomes sort_outcomes_def try_act_def ok_act_app split: sum.splits)
qed

lemma restore_inner_table: "keeps pfds (restore_inner K ck p snap)"
  unfolding restore_inner_def
  by (intro keeps_intros restore_regions_fds restore_registers_fds restore_all_table)

lemma fork_stub_table: "keeps pfds (fork_stub K)"
proof -
  have "keeps pfds (case st of
      Stopped sig \<Rightarrow> if sig = SIGSTOP then ok_act c else fail_act (Restore_Err (StubUnexpectedSignal sig))
    | _ \<Rightarrow> fail_act (Restore_Err (StubUnexpectedStatus st)))" for st c
    by (cases st) (simp_all add: keeps_intros)
  then show ?thesis unfolding fork_stub_def by (intro keeps_intros fork_fds waitpid_fds)
qed

lemma restore_table: "keeps pfds (restore K ck host snap)"
proof -
  have inner: "keeps pfds (\<lambda>s. case restore_inner K ck p snap s of
      (Inr res, t) \<Rightarrow> (Inr res, t)
    | (Inl e, t) \<Rightarrow> ignore_act (k_kill K p SIGKILL) (ignore_act (k_waitpid K p) (fail_act e)) t)" for p
  proof (rule keepsI)
    fix s r t
    assume h: "(case restore_inner K ck p snap s of (Inr res, t) \<Rightarrow> (Inr res, t)
      | (Inl e, t) \<Rightarrow> ignore_act (k_kill K p SIGKILL) (ignore_act (k_waitpid K p) (fail_act e)) t) = (r, t)"
    have e: "keeps pfds (ignore_act (k_kill K p SIGKILL) (ignore_act (k_waitpid K p) (fail_act e)))" for e
      by (intro keeps_intros kill_fds waitpid_fds)
    obtain x u where x: "restore_inner K ck p snap s = (x, u)" by fastforce
    note u = keepsD [OF restore_inner_table x]
    show "pfds t = pfds s"
    proof (cases x)
      case (Inl err)
      with h x keepsD [OF e, of err u r t] u show ?thesis by simp
    qed (use h x u in simp)
  qed
  show ?thesis
    unfolding restore_def
    by (cases "restorer_validate host snap") (simp_all add: keeps_intros fork_stub_table inner)
qed

lemma inject_fds_noop:
  assumes "c_stopped (cv s p)" "mapped (c_mem (cv s p)) (ur_rip (c_regs (cv s p))) 8"
    and "executable (c_mem (cv s p)) (ur_rip (c_regs (cv s p))) 3"
    and "\<forall>n fd. Restored n fd \<in> set os \<longrightarrow> c_fds (cv s p) fd = None"
  shows "cv (inject_fds K p os s) p = cv s p"
  using assms
proof (induction os arbitrary: s)
  case (Cons o1 os)
  show ?case
  proof (cases o1)
    case (Restored n fd)
    obtain r s1 where d: "inj_dup2 K p fd n s = (r, s1)" by fastforce
    have "completed r" using inj_dup2_completes [OF Cons.prems(1,2,3), of fd n] d by simp
    from inj_dup2_effect [OF d this] Cons.prems(4) Restored have 1: "cv s1 p = cv s p"
      by auto
    obtain x s2 where c: "k_close K fd s1 = (x, s2)" by fastforce
    with 1 have 2: "cv s2 p = cv s p" using file_close_law [OF c] by simp
    with Cons.prems have "cv (inject_fds K p os s2) p = cv s2 p"
      by (intro Cons.IH) auto
    with 2 Restored d c show ?thesis by simp
  qed (use Cons in simp_all)
qed simp

lemma fork_stub_child:
  assumes "fork_stub K s = (Inr p, u)"
  shows "c_stopped (cv u p) \<and> c_fds (cv u p) = pfds s \<and> pfds u = pfds s"
proof -
  from assms obtain t where "k_fork K child_stub s = (Inr p, t)"
    and "k_waitpid K p t = (Inr (Stopped SIGSTOP), u)"
    unfolding fork_stub_def by (auto split: wait_status.splits if_splits)
  then show ?thesis by (rule fork_law)
qed

lemma restore_inner_fds:
  assumes run: "restore_inner K ck p snap s = (Inr res, t)"
    and stopped: "c_stopped (cv s p)" and fds: "c_fds (cv s p) = pfds s"
    and loadable: "\<forall>r \<in> set (memory_regions snap). loadable (cv s p) r"
    and regs: "snap_registers snap = Some regs"
    and code: "mapped (load_regions (c_mem (cv s p)) (memory_regions snap)) (pr_rip regs) 8"
      "executable (load_regions (c_mem (cv s p)) (memory_regions snap)) (pr_rip regs) 3"
  shows "c_fds (cv t p) = pfds s"
proof -
  obtain n s1 s2 rep s3 where
      a: "restore_regions K ck p 0 (memory_regions snap) s = (Inr n, s1)"
    and b: "restore_registers K p snap s1 = (Inr (), s2)"
    and c: "restore_all K (file_descriptors snap) s2 = (rep, s3)"
    and d: "k_detach K p (inject_fds K p (rr_restored rep) s3) = (Inr (), t)"
    using run by (rule restore_inner_phases)
  obtain regs' fp where "snap_registers snap = Some regs'"
    and "cv s2 p = (cv s1 p)\<lparr>c_regs := gp_of_proto regs', c_fp := fp\<rparr>"
    using restore_registers_effect [OF b] by blast
  then have 2: "cv s2 p = (cv s p)\<lparr>c_mem := load_regions (c_mem (cv s p)) (memory_regions snap),
      c_regs := gp_of_proto regs, c_fp := fp\<rparr>"
    using restore_regions_effect [OF a loadable] regs by simp
  have p2: "pfds s2 = pfds s"
    using keepsD [OF restore_regions_fds a] keepsD [OF restore_registers_fds b] by simp
  have 3: "cv s3 p = cv s2 p" by (rule restore_all_view [OF c])
  obtain os where os: "restore_outcomes K (file_descriptors snap) s2 = (os, s3)"
    and rep: "rep = sort_outcomes os"
    using c by (auto simp: restore_all_outcomes split: prod.splits)
  have "\<forall>n fd. Restored n fd \<in> set (rr_restored rep) \<longrightarrow> c_fds (cv s3 p) fd = None"
    using restore_outcomes_fds [OF os] fds 2 by (auto simp: rep sort_outcomes_def 3 p2)
  moreover have "c_stopped (cv s3 p)" "mapped (c_mem (cv s3 p)) (ur_rip (c_regs (cv s3 p))) 8"
    "executable (c_mem (cv s3 p)) (ur_rip (c_regs (cv s3 p))) 3"
    using stopped code 2 by (auto simp: 3 gp_of_proto_def)
  ultimately have "cv (inject_fds K p (rr_restored rep) s3) p = cv s3 p"
    by (intro inject_fds_noop) auto
  with detach_law [OF d] 2 3 fds show ?thesis by auto
qed

text \<open>A whole restoration: what the new process is, and what it lacks.\<close>

lemma restore_effect:
  assumes run: "restore K ck host snap s = (Inr res, t)"
    and fork: "fork_stub K s = (Inr p, u)" and r: "restorable (cv u p) snap regs"
  shows "res_pid res = p \<and> (\<exists>fp. cv t p = \<lparr>c_stopped = False, c_regs = gp_of_proto regs, c_fp = fp,
       c_mem = load_regions (c_mem (cv u p)) (memory_regions snap), c_fds = pfds s\<rparr> \<and>
       (pr_fpu_state regs \<noteq> [] \<longrightarrow> fp = pr_fpu_state regs)) \<and>
     sorted_wrt regions_disjoint (memory_regions snap) \<and>
     (\<forall>r \<in> set (memory_regions snap). region_bounded r \<and> page_aligned (start_addr r))"
proof -
  from run fork have v: "restorer_validate host snap = Inr ()"
    and inner: "restore_inner K ck p snap u = (Inr res, t)"
    by (auto elim!: restore_phases)
  from v have ok: "layout_validate (from_snapshot snap) = Inr ()"
    by (simp add: restorer_validate_ok)
  note child = fork_stub_child [OF fork]
  have l: "\<forall>r \<in> set (memory_regions snap). loadable (cv u p) r"
    using layout.check_bounded [OF ok] r by (simp add: restorable_def loadable_def)
  note e = restore_inner_effect [OF inner _ l, of regs]
  note d = restore_inner_fds [OF inner _ _ l, of regs]
  show ?thesis
    using e d child r layout.check_bounded [OF ok] layout.check_disjoint [OF ok]
    by (auto simp: restorable_def)
qed

end

section \<open>A restoration that can succeed does\<close>

context serving_tracer
begin

lemma restore_total:
  assumes "restorer_validate host snap = Inr ()" "fork_stub K s = (Inr p, u)"
    and "injectable (cv u p)" "restorable (cv u p) snap regs"
    and "list_all (restorable_region sysc ck) (memory_regions snap)"
    and "length (pr_fpu_state regs) \<in> {0, FPREGS_SIZE}"
  shows "\<exists>res t. restore K ck host snap s = (Inr res, t)"
proof -
  have ok: "layout_validate (from_snapshot snap) = Inr ()"
    using assms(1) by (simp add: restorer_validate_ok)
  have "\<exists>res t. restore_inner K ck p snap u = (Inr res, t)"
    using assms(3-6) layout.check_bounded [OF ok]
    by (intro restore_inner_returns [of _ _ _ _ regs])
       (auto simp: restorable_def loadable_def list_all_iff)
  with assms(1,2) show ?thesis by (auto simp: restore_def act_simps)
qed

end

end
