(* ===== verification/Machine.thy ===== *)
theory Machine
  imports Descriptors
begin

text \<open>
  A reference machine: an executable operating system just large enough to run the program,
  built from the manual pages the laws of \<open>Tracee\<close> and \<open>Descriptors\<close> come from. It shows that
  those laws are satisfiable together, and the witnesses run the program on it. It models no
  code of the repository.
\<close>

section \<open>State\<close>

record machine =
  mc_pid :: pid
  mc_child :: child
  mc_status :: wait_status
  mc_fds :: "i32 \<Rightarrow> nat option"
  mc_stub :: child
  mc_next_pid :: pid
  mc_now :: nat
  mc_text :: "string \<Rightarrow> string option"
  mc_bytes :: "string \<Rightarrow> u8 list option"
  mc_dirs :: "string \<Rightarrow> string list option"
  mc_links :: "string \<Rightarrow> string option"
  mc_files :: "string \<Rightarrow> nat option"

definition ENOENT :: os_error where "ENOENT = Errno 2"
definition ESRCH :: os_error where "ESRCH = Errno 3"
definition EIO :: os_error where "EIO = Errno 5"
definition ECHILD :: os_error where "ECHILD = Errno 10"
definition EBADF :: os_error where "EBADF = Errno 9"
definition EMFILE :: os_error where "EMFILE = Errno 24"

text \<open>One process can be traced at a time: \<open>mc_pid\<close>. Any other pid names no process.\<close>

definition no_process :: child where
  "no_process = \<lparr>c_stopped = False, c_regs = gp_of_proto (sample_registers 0 0 []), c_fp = [],
     c_mem = (\<lambda>_. None), c_fds = (\<lambda>_. None)\<rparr>"

definition child_of :: "machine \<Rightarrow> pid \<Rightarrow> child" where
  "child_of s p = (if p = mc_pid s then mc_child s else no_process)"

lemma child_of_simps [simp]:
  "child_of (s\<lparr>mc_child := c\<rparr>) p = (if p = mc_pid s then c else no_process)"
  "child_of (s\<lparr>mc_status := st\<rparr>) p = child_of s p" "child_of (s\<lparr>mc_fds := fds\<rparr>) p = child_of s p"
  by (simp_all add: child_of_def)

lemma child_of_stopped [simp]:
  "c_stopped (child_of s p) \<longleftrightarrow> p = mc_pid s \<and> c_stopped (mc_child s)"
  by (simp add: child_of_def no_process_def)

lemma child_of_self [simp]: "child_of s (mc_pid s) = mc_child s"
  by (simp add: child_of_def)

section \<open>Executable equations for memory\<close>

text \<open>Addresses are compared as integers, and ranges of bytes are walked one by one.\<close>

lemma unat_less_uint: "unat w < k \<longleftrightarrow> uint w < int k"
  by (simp only: uint_nat of_nat_less_iff)

lemma in_pages_code [code]: "in_pages a n x \<longleftrightarrow>
   uint a \<le> uint x \<and> uint x < (uint a + uint n + 4095) div 4096 * 4096"
proof -
  have "int (page_up (unat a + unat n)) = (uint a + uint n + 4095) div 4096 * 4096"
    by (simp add: page_up_def zdiv_int)
  then show ?thesis
    unfolding in_pages_def unat_less_uint by (simp only: uint_nat of_nat_le_iff)
qed

lemma page_aligned_code [code]: "page_aligned a \<longleftrightarrow> uint a mod 4096 = 0"
proof -
  have "int (unat a mod 4096) = uint a mod 4096" by (simp add: zmod_int)
  then show ?thesis
    unfolding page_aligned_def dvd_eq_mod_eq_0 by linarith
qed

lemma map_pages_code [code]:
  "map_pages m a n prot x = (if in_pages a n x then Some (0, prot) else m x)"
  by (simp add: map_pages_def)

lemma write_bytes_code [code]:
  "write_bytes m a bs x = (if uint (x - a) < int (length bs)
     then map_option (\<lambda>(_, p). (bs ! unat (x - a), p)) (m x) else m x)"
  by (simp only: write_bytes_def unat_less_uint)

lemma protect_pages_code [code]:
  "protect_pages m a n prot x =
     (if in_pages a n x then map_option (\<lambda>(b, _). (b, prot)) (m x) else m x)"
  by (simp add: protect_pages_def)

lemma load_pages_code [code]:
  "load_pages m a n prot bs x = (if in_pages a n x
     then Some (if uint (x - a) < int (length bs) then bs ! unat (x - a) else 0, prot) else m x)"
  by (simp only: load_pages_def unat_less_uint)

lemma All_less_Suc_word:
  "(\<forall>i < Suc n. P (a + of_nat i :: u64)) \<longleftrightarrow> P a \<and> (\<forall>i < n. P (a + 1 + of_nat i))"
  unfolding All_less_Suc2 by (simp add: add.assoc)

lemma mapped_code [code]:
  "mapped m a 0 \<longleftrightarrow> True" "mapped m a (Suc n) \<longleftrightarrow> m a \<noteq> None \<and> mapped m (a + 1) n"
  using All_less_Suc_word [of n "\<lambda>x. m x \<noteq> None" a] by (simp_all add: mapped_def)

fun exec_byte :: "(u8 \<times> i32) option \<Rightarrow> bool" where
  "exec_byte None = False"
| "exec_byte (Some (b, p)) = (p AND PROT_EXEC \<noteq> 0)"

lemma exec_byte_iff: "exec_byte x \<longleftrightarrow> (\<exists>b p. x = Some (b, p) \<and> p AND PROT_EXEC \<noteq> 0)"
  by (cases x rule: exec_byte.cases) auto

lemma executable_code [code]:
  "executable m a 0 \<longleftrightarrow> True"
  "executable m a (Suc n) \<longleftrightarrow> exec_byte (m a) \<and> executable m (a + 1) n"
  using All_less_Suc_word [of n "\<lambda>x. exec_byte (m x)" a]
  by (simp_all add: executable_def flip: exec_byte_iff)

lemma bytes_at_code [code]:
  "bytes_at m a [] \<longleftrightarrow> True"
  "bytes_at m a (b # bs) \<longleftrightarrow> map_option fst (m a) = Some b \<and> bytes_at m (a + 1) bs"
  by (auto simp: bytes_at_def All_less_Suc2 add.assoc)

lemma trap_intact_code [code]: "trap_intact ip c \<longleftrightarrow> map_option fst (c_mem c (ip + 2)) = Some 0xcc"
  by (auto simp: trap_intact_def)

section \<open>Words in memory\<close>

fun bytes_word :: "u8 list \<Rightarrow> u64" where
  "bytes_word [] = 0"
| "bytes_word (b # bs) = ucast b OR push_bit 8 (bytes_word bs)"

definition byte_in :: "(u8 \<times> i32) option \<Rightarrow> u8" where
  "byte_in x = (case x of None \<Rightarrow> 0 | Some (b, _) \<Rightarrow> b)"

primrec read_bytes :: "memmap \<Rightarrow> u64 \<Rightarrow> nat \<Rightarrow> u8 list" where
  "read_bytes m a 0 = []"
| "read_bytes m a (Suc n) = byte_in (m a) # read_bytes m (a + 1) n"

lemma byte_of_cons_0: "byte_of (ucast b OR push_bit 8 w) 0 = b"
  by (rule bit_word_eqI) (auto simp: byte_of_def bit_simps)

lemma byte_of_cons_Suc:
  fixes b :: u8
  assumes "i < 7"
  shows "byte_of (ucast b OR push_bit 8 w) (Suc i) = byte_of w i"
proof (rule bit_word_eqI)
  fix n assume n: "n < LENGTH(8)"
  have "\<not> bit b (8 + 8 * i + n)"
    using bit_imp_le_length [of b "8 + 8 * i + n"] by auto
  with n assms show "bit (byte_of (ucast b OR push_bit 8 w) (Suc i)) n = bit (byte_of w i) n"
    by (auto simp: byte_of_def bit_simps)
qed

lemma byte_of_bytes_word:
  "length bs \<le> 8 \<Longrightarrow> i < length bs \<Longrightarrow> byte_of (bytes_word bs) i = bs ! i"
proof (induction bs arbitrary: i)
  case (Cons b bs)
  then show ?case
    by (cases i) (auto simp: byte_of_cons_0 byte_of_cons_Suc)
qed simp

lemma word_bytes_bytes_word: "length bs = 8 \<Longrightarrow> word_bytes (bytes_word bs) = bs"
  by (rule nth_equalityI) (simp_all add: word_bytes_def byte_of_bytes_word)

lemma bytes_at_read_bytes: "mapped m a n \<Longrightarrow> bytes_at m a (read_bytes m a n)"
  by (induction n arbitrary: a) (auto simp: mapped_code bytes_at_code byte_in_def)

lemma length_read_bytes [simp]: "length (read_bytes m a n) = n"
  by (induction n arbitrary: a) simp_all

section \<open>System calls of the child\<close>

definition sys_ref :: syscalls where
  "sys_ref nr a0 a1 a2 a3 a4 a5 c =
     (if nr = SYS_mmap then
        if page_aligned a0 \<and> a1 \<noteq> 0 then (a0, c\<lparr>c_mem := map_pages (c_mem c) a0 a1 (ucast a2)\<rparr>)
        else (- 22, c)
      else if nr = SYS_mprotect then
        if page_aligned a0 then (0, c\<lparr>c_mem := protect_pages (c_mem c) a0 a1 (ucast a2)\<rparr>)
        else (- 22, c)
      else if nr = SYS_dup2 then
        case c_fds c (ucast a0) of
          None \<Rightarrow> (- 9, c)
        | Some f \<Rightarrow> (a1, c\<lparr>c_fds := (c_fds c)(ucast a1 \<mapsto> f)\<rparr>)
      else (- 38, c))"

section \<open>The kernel\<close>

text \<open>A request on a process that is not stopped for its tracer fails.\<close>

definition on_stopped :: "machine \<Rightarrow> pid \<Rightarrow> (os_error + ('a \<times> child)) \<Rightarrow> (os_error + 'a) \<times> machine" where
  "on_stopped s p r = (if p = mc_pid s \<and> c_stopped (mc_child s) then
       case r of Inl e \<Rightarrow> (Inl e, s) | Inr (x, c) \<Rightarrow> (Inr x, s\<lparr>mc_child := c\<rparr>)
     else (Inl ESRCH, s))"

definition mk_getregs :: "pid \<Rightarrow> (machine, os_error, user_regs) act" where
  "mk_getregs p s = on_stopped s p (Inr (c_regs (mc_child s), mc_child s))"

definition mk_setregs :: "pid \<Rightarrow> user_regs \<Rightarrow> (machine, os_error, unit) act" where
  "mk_setregs p r s = on_stopped s p (Inr ((), (mc_child s)\<lparr>c_regs := r\<rparr>))"

definition mk_getfpregs :: "pid \<Rightarrow> (machine, os_error, u8 list) act" where
  "mk_getfpregs p s = on_stopped s p
     (if length (c_fp (mc_child s)) = FPREGS_SIZE then Inr (c_fp (mc_child s), mc_child s)
      else Inl EIO)"

definition mk_setfpregs :: "pid \<Rightarrow> u8 list \<Rightarrow> (machine, os_error, unit) act" where
  "mk_setfpregs p bs s = on_stopped s p (Inr ((), (mc_child s)\<lparr>c_fp := bs\<rparr>))"

definition mk_detach :: "pid \<Rightarrow> (machine, os_error, unit) act" where
  "mk_detach p s = on_stopped s p (Inr ((), (mc_child s)\<lparr>c_stopped := False\<rparr>))"

definition mk_read :: "pid \<Rightarrow> u64 \<Rightarrow> nat \<Rightarrow> (machine, os_error, u8 list) act" where
  "mk_read p a n s = on_stopped s p
     (if mapped (c_mem (mc_child s)) a n then Inr (read_bytes (c_mem (mc_child s)) a n, mc_child s)
      else Inl EIO)"

definition mk_write :: "pid \<Rightarrow> u64 \<Rightarrow> u8 list \<Rightarrow> (machine, os_error, unit) act" where
  "mk_write p a bs s = on_stopped s p
     (if mapped (c_mem (mc_child s)) a (length bs)
      then Inr ((), (mc_child s)\<lparr>c_mem := write_bytes (c_mem (mc_child s)) a bs\<rparr>) else Inl EIO)"

definition mk_peek :: "pid \<Rightarrow> u64 \<Rightarrow> (machine, os_error, u64) act" where
  "mk_peek p a s = (case mk_read p a 8 s of
       (Inl e, t) \<Rightarrow> (Inl e, t) | (Inr bs, t) \<Rightarrow> (Inr (bytes_word bs), t))"

definition mk_poke :: "pid \<Rightarrow> u64 \<Rightarrow> u64 \<Rightarrow> (machine, os_error, unit) act" where
  "mk_poke p a w s = mk_write p a (word_bytes w) s"

definition mk_mem_open :: "bool \<Rightarrow> pid \<Rightarrow> (machine, os_error, memh) act" where
  "mk_mem_open wr p s = (Inr (Memh p 0), s)"

definition mk_mem_seek :: "memh \<Rightarrow> u64 \<Rightarrow> (machine, os_error, memh) act" where
  "mk_mem_seek h a s = (Inr (Memh (memh_pid h) a), s)"

definition mk_mem_read :: "memh \<Rightarrow> nat \<Rightarrow> (machine, os_error, u8 list) act" where
  "mk_mem_read h n s = mk_read (memh_pid h) (memh_pos h) n s"

definition mk_mem_write :: "memh \<Rightarrow> u8 list \<Rightarrow> (machine, os_error, unit) act" where
  "mk_mem_write h bs s = mk_write (memh_pid h) (memh_pos h) bs s"

definition mk_attach :: "pid \<Rightarrow> (machine, os_error, unit) act" where
  "mk_attach p s =
     (if p = mc_pid s then
        (Inr (), s\<lparr>mc_child := (mc_child s)\<lparr>c_stopped := True\<rparr>, mc_status := Stopped SIGSTOP\<rparr>)
      else (Inl ESRCH, s))"

definition mk_waitpid :: "pid \<Rightarrow> (machine, os_error, wait_status) act" where
  "mk_waitpid p s = (if p = mc_pid s then (Inr (mc_status s), s) else (Inl ECHILD, s))"

definition mk_kill :: "pid \<Rightarrow> signal \<Rightarrow> (machine, os_error, unit) act" where
  "mk_kill p sig s =
     (if p = mc_pid s then
        (Inr (), s\<lparr>mc_child := (mc_child s)\<lparr>c_stopped := False\<rparr>, mc_status := Signaled sig\<rparr>)
      else (Inl ESRCH, s))"

definition mk_cont :: "pid \<Rightarrow> (machine, os_error, unit) act" where
  "mk_cont p s = (let c = mc_child s; r = c_regs c; ip = ur_rip r in
     if p \<noteq> mc_pid s \<or> \<not> c_stopped c then (Inl ESRCH, s)
     else if at_syscall c \<and> executable (c_mem c) ip 3 then
       case do_syscall sys_ref c of (v, d) \<Rightarrow>
         if trap_intact ip d then
           (Inr (), s\<lparr>mc_child := d\<lparr>c_regs := (c_regs d)
              \<lparr>ur_rax := v, ur_rip := ip + 3, ur_rcx := ip + 2, ur_r11 := ur_eflags r\<rparr>\<rparr>,
              mc_status := Stopped SIGTRAP\<rparr>)
         else (Inr (), s\<lparr>mc_child := d, mc_status := Stopped SIGSEGV\<rparr>)
     else (Inr (), s\<lparr>mc_status := Stopped SIGSEGV\<rparr>))"

primrec run_stub :: "stub_prog \<Rightarrow> wait_status" where
  "run_stub (Traceme f) = run_stub (f 0)"
| "run_stub (RaiseSig sig rest) = Stopped sig"
| "run_stub (ExitWith n) = Exited n"

definition is_stopped :: "wait_status \<Rightarrow> bool" where
  "is_stopped st = (case st of Stopped _ \<Rightarrow> True | _ \<Rightarrow> False)"

definition mk_fork :: "stub_prog \<Rightarrow> (machine, os_error, pid) act" where
  "mk_fork prog s = (let p = mc_next_pid s; st = run_stub prog in
     (Inr p, s\<lparr>mc_pid := p, mc_status := st,
        mc_child := (mc_stub s)\<lparr>c_fds := mc_fds s, c_stopped := is_stopped st\<rparr>\<rparr>))"

definition mk_open :: "string \<Rightarrow> i32 \<Rightarrow> (machine, os_error, i32) act" where
  "mk_open path flags s = (case mc_files s path of
       None \<Rightarrow> (Inl ENOENT, s)
     | Some f \<Rightarrow> (case find (\<lambda>n. mc_fds s n = None) [0, 1, 2, 3, 4, 5, 6, 7] of
           None \<Rightarrow> (Inl EMFILE, s)
         | Some n \<Rightarrow> (Inr n, s\<lparr>mc_fds := (mc_fds s)(n \<mapsto> f)\<rparr>)))"

definition mk_seek :: "i32 \<Rightarrow> u64 \<Rightarrow> (machine, os_error, unit) act" where
  "mk_seek fd pos s = (if mc_fds s fd = None then Inl EBADF else Inr (), s)"

definition mk_close :: "i32 \<Rightarrow> (machine, os_error, unit) act" where
  "mk_close fd s =
     (if mc_fds s fd = None then Inl EBADF else Inr (), s\<lparr>mc_fds := (mc_fds s)(fd := None)\<rparr>)"

definition mk_read_to_string :: "string \<Rightarrow> machine \<Rightarrow> os_error + string" where
  "mk_read_to_string path s = ok_or ENOENT (mc_text s path)"

definition mk_read_file :: "string \<Rightarrow> machine \<Rightarrow> os_error + u8 list" where
  "mk_read_file path s = ok_or ENOENT (mc_bytes s path)"

definition read_prefix :: "u8 list \<Rightarrow> nat \<Rightarrow> os_error + u8 list" where
  "read_prefix bs n = (if n \<le> length bs then Inr (take n bs) else Inl UnexpectedEof)"

definition mk_open_read :: "string \<Rightarrow> machine \<Rightarrow> os_error + (nat \<Rightarrow> os_error + u8 list)" where
  "mk_open_read path s = ok_or ENOENT (map_option read_prefix (mc_bytes s path))"

definition mk_write_file :: "string \<Rightarrow> u8 list \<Rightarrow> (machine, os_error, unit) act" where
  "mk_write_file path bs s = (Inr (), s\<lparr>mc_bytes := (mc_bytes s)(path \<mapsto> bs)\<rparr>)"

definition mk_exists :: "string \<Rightarrow> machine \<Rightarrow> bool" where
  "mk_exists path s = (mc_dirs s path \<noteq> None)"

definition mk_read_dir :: "string \<Rightarrow> machine \<Rightarrow> os_error + (os_error + string) list" where
  "mk_read_dir path s = ok_or ENOENT (map_option (map Inr) (mc_dirs s path))"

definition mk_read_link :: "string \<Rightarrow> machine \<Rightarrow> os_error + string" where
  "mk_read_link path s = ok_or ENOENT (mc_links s path)"

definition mk_is_dir :: "string \<Rightarrow> machine \<Rightarrow> os_error + bool" where
  "mk_is_dir path s = Inr (mc_dirs s path \<noteq> None)"

definition mk_now :: "machine \<Rightarrow> os_error + nat" where
  "mk_now s = Inr (mc_now s)"

definition machine_kernel :: "machine kernel" where
  "machine_kernel = \<lparr>
     k_read_to_string = mk_read_to_string, k_read_file = mk_read_file, k_open_read = mk_open_read, k_write_file = mk_write_file,
     k_exists = mk_exists, k_read_dir = mk_read_dir, k_read_link = mk_read_link,
     k_is_dir = mk_is_dir, k_now = mk_now,
     k_attach = mk_attach, k_detach = mk_detach, k_waitpid = mk_waitpid, k_cont = mk_cont,
     k_kill = mk_kill, k_fork = mk_fork,
     k_getregs = mk_getregs, k_setregs = mk_setregs,
     k_getfpregs = mk_getfpregs, k_setfpregs = mk_setfpregs, k_peek = mk_peek, k_poke = mk_poke,
     k_mem_open = mk_mem_open, k_mem_seek = mk_mem_seek,
     k_mem_read_exact = mk_mem_read, k_mem_write_all = mk_mem_write,
     k_open = mk_open, k_seek = mk_seek, k_close = mk_close\<rparr>"

section \<open>The machine obeys the laws\<close>

lemma on_stopped_cases:
  "on_stopped s p r = (x, t) \<Longrightarrow>
     (\<exists>v c. r = Inr (v, c) \<and> x = Inr v \<and> t = s\<lparr>mc_child := c\<rparr> \<and> p = mc_pid s) \<or> (\<exists>e. x = Inl e \<and> t = s)"
  by (auto simp: on_stopped_def split: sum.splits if_splits)

lemma on_stopped_fds [simp]: "mc_fds (snd (on_stopped s p r)) = mc_fds s"
  by (auto simp: on_stopped_def split: sum.splits)

lemmas mk_defs = mk_getregs_def mk_setregs_def mk_getfpregs_def mk_setfpregs_def mk_detach_def
  mk_read_def mk_write_def mk_peek_def mk_poke_def mk_mem_open_def mk_mem_seek_def
  mk_mem_read_def mk_mem_write_def mk_seek_def mk_close_def mk_waitpid_def

lemma find_some_free: "find P xs = Some x \<Longrightarrow> P x"
  by (induction xs) (auto split: if_splits)

lemma mk_open_fds:
  "mk_open path flags s = (Inr fd, t) \<Longrightarrow> mc_fds s fd = None \<and> (\<exists>f. mc_fds t = (mc_fds s)(fd \<mapsto> f))"
  by (auto simp: mk_open_def simp del: find.simps split: option.splits dest!: find_some_free)

lemma mk_open_child: "mk_open path flags s = (r, t) \<Longrightarrow> child_of t p = child_of s p"
  by (auto simp: mk_open_def split: option.splits)

lemma mk_cont_fds: "keeps mc_fds (mk_cont p)"
  by (rule keepsI) (auto simp: mk_cont_def Let_def split: prod.splits if_splits)

lemma errno_values [simp]: "is_errno (- 9)" "is_errno (- 22)" "is_errno (- 38)" "\<not> is_errno 0"
  by (simp_all add: is_errno_def)

lemma sys_ref_mmap: "sys_ref SYS_mmap a0 a1 a2 a3 a4 a5 c =
    (if page_aligned a0 \<and> a1 \<noteq> 0 then (a0, c\<lparr>c_mem := map_pages (c_mem c) a0 a1 (ucast a2)\<rparr>)
     else (- 22, c))"
  by (simp add: sys_ref_def)

lemma sys_ref_mprotect: "sys_ref SYS_mprotect a0 a1 a2 a3 a4 a5 c =
    (if page_aligned a0 then (0, c\<lparr>c_mem := protect_pages (c_mem c) a0 a1 (ucast a2)\<rparr>)
     else (- 22, c))"
  by (simp add: sys_ref_def SYS_mmap_def SYS_mprotect_def)

lemma sys_ref_dup2: "sys_ref SYS_dup2 a0 a1 a2 a3 a4 a5 c = (case c_fds c (ucast a0) of
      None \<Rightarrow> (- 9, c) | Some f \<Rightarrow> (a1, c\<lparr>c_fds := (c_fds c)(ucast a1 \<mapsto> f)\<rparr>))"
  by (simp add: sys_ref_def SYS_mmap_def SYS_mprotect_def SYS_dup2_def)

lemmas machine_simps = machine_kernel_def mk_defs

interpretation machine: tracer machine_kernel child_of sys_ref
proof (unfold_locales, goal_cases)
  case (5 p a s rw t)
  then show ?case
    by (auto simp: machine_simps word_bytes_bytes_word bytes_at_read_bytes dest!: on_stopped_cases
        split: if_splits prod.splits sum.splits)
next
  case (7 p s t u v c)
  then show ?case
    by (auto simp: machine_kernel_def mk_cont_def mk_waitpid_def child_of_def Let_def split: prod.splits if_splits)
next
  case (12 p a len s rb t q)
  then show ?case
    by (auto simp: machine_simps bytes_at_read_bytes dest!: on_stopped_cases split: if_splits)
next
  case (16 a n pr nofd c v d)
  then show ?case by (auto simp: sys_ref_mmap split: if_splits)
next
  case (17 a n pr nofd c v d)
  then show ?case
    by (auto simp: sys_ref_mmap map_pages_def split: if_splits intro: exI [of _ "c_mem c"])
next
  case (18 a n pr c v d)
  then show ?case by (auto simp: sys_ref_mprotect split: if_splits)
next
  case (19 a n pr c v d)
  then show ?case
    by (auto simp: sys_ref_mprotect split: if_splits intro: exI [of _ "c_mem c"])
next
  case (20 fd1 fd2 c v d)
  then show ?case by (auto simp: sys_ref_dup2 split: option.splits)
qed (auto simp: machine_simps dest!: on_stopped_cases dest: mk_open_child split: if_splits)

interpretation machine: live_tracer machine_kernel child_of sys_ref
proof (unfold_locales, goal_cases)
  case (5 s p v c)
  then have "p = mc_pid s" by simp
  with 5 show ?case
    by (simp add: machine_kernel_def mk_cont_def mk_waitpid_def child_of_def Let_def)
qed (auto simp: machine_kernel_def mk_defs on_stopped_def)

interpretation machine: serving_tracer machine_kernel child_of sys_ref
proof (unfold_locales, goal_cases)
  case (7 a n pr c v d)
  then show ?case by (auto simp: sys_ref_mprotect split: if_splits)
qed (auto simp: machine_kernel_def mk_defs on_stopped_def)

interpretation machine: guarding_tracer machine_kernel child_of sys_ref
proof (unfold_locales, goal_cases)
  case (1 p s e t)
  then show ?case by (simp add: machine_kernel_def mk_attach_def split: if_splits)
next
  case (2 p s t st u)
  then show ?case
    by (auto simp: machine_kernel_def mk_attach_def mk_waitpid_def child_of_def split: if_splits)
next
  case (3 p s e t)
  then show ?case
    by (cases "p = mc_pid s \<and> c_stopped (mc_child s)")
      (simp_all add: machine_kernel_def mk_detach_def on_stopped_def)
qed

interpretation machine: fd_kernel machine_kernel child_of sys_ref mc_fds
proof (unfold_locales, goal_cases)
  case (1 s p t u)
  then have "t = s\<lparr>mc_pid := p, mc_status := Stopped SIGSTOP,
      mc_child := (mc_stub s)\<lparr>c_fds := mc_fds s, c_stopped := True\<rparr>\<rparr>"
    by (auto simp: machine_kernel_def mk_fork_def is_stopped_def Let_def child_stub_def)
  moreover with 1(2) have "u = t"
    by (simp add: machine_kernel_def mk_waitpid_def)
  ultimately show ?case by simp
next
  case (2 path flags s fd t)
  then show ?case by (auto simp: machine_kernel_def dest: mk_open_fds)
next
  case (3 path flags s e t)
  then show ?case by (auto simp: machine_kernel_def mk_open_def split: option.splits)
next
  case (11 p)
  then show ?case by (simp add: machine_kernel_def mk_cont_fds)
qed (auto simp: machine_simps mk_kill_def mk_fork_def Let_def intro!: keepsI dest!: on_stopped_cases split: if_splits prod.splits sum.splits)

section \<open>A concrete machine\<close>

text \<open>
  A restorer stopped at \<open>0x400010\<close> in a page of its own code, with descriptors 0, 1 and 2
  open, and one file it can open. The checksum is the sum of the bytes.
\<close>

definition code_page :: memmap where
  "code_page x = (if in_pages 0x400000 0x1000 x then Some (0x90, 5) else None)"

definition sample_child :: child where
  "sample_child = \<lparr>c_stopped = True, c_regs = gp_of_proto (sample_registers 0x400010 0x7ff0 []),
     c_fp = [], c_mem = code_page, c_fds = (\<lambda>_. None)\<rparr>"

definition sample_machine :: machine where
  "sample_machine = \<lparr>mc_pid = 7, mc_child = sample_child, mc_status = Stopped SIGSTOP,
     mc_fds = (\<lambda>n. if n < 3 then Some 0 else None), mc_stub = sample_child, mc_next_pid = 42,
     mc_now = 5, mc_text = (\<lambda>_. None), mc_bytes = (\<lambda>_. None), mc_dirs = (\<lambda>_. None),
     mc_links = (\<lambda>_. None), mc_files = (\<lambda>path. if path = ''/tmp/a'' then Some 9 else None)\<rparr>"

definition sum_ck :: "u8 list \<Rightarrow> u64" where
  "sum_ck bs = sum_list (map ucast bs)"

lemmas machine_tracer = machine.tracer_axioms
lemmas machine_live = machine.live_tracer_axioms
lemmas machine_serving = machine.serving_tracer_axioms
lemmas machine_guarding = machine.guarding_tracer_axioms
lemmas machine_fds = machine.fd_kernel_axioms

end
