(* ===== verification/Utils.thy ===== *)
theory Utils
  imports Kernel
begin

text \<open>
  \<open>utils.rs\<close>: the architecture guard and the small readers of /proc. \<open>host_arch\<close> stands for
  \<open>std::env::consts::ARCH\<close>, a constant of the build.
\<close>

section \<open>Definitions\<close>

definition assert_x86_64 :: "string \<Rightarrow> error + unit" where
  "assert_x86_64 host_arch =
     (if host_arch \<noteq> ''x86_64'' then Inl (Common (NeedsX86_64 host_arch)) else Inr ())"

definition pid_exists :: "'k kernel \<Rightarrow> pid \<Rightarrow> 'k \<Rightarrow> bool" where
  "pid_exists K p s = k_exists K (proc_dir p) s"

text \<open>The nanoseconds since the epoch, cut to 64 bits; 0 for a clock before the epoch.\<close>

definition timestamp_ns :: "'k kernel \<Rightarrow> 'k \<Rightarrow> u64" where
  "timestamp_ns K s = (case k_now K s of Inl _ \<Rightarrow> 0 | Inr nanos \<Rightarrow> of_nat nanos)"

definition process_name :: "'k kernel \<Rightarrow> pid \<Rightarrow> 'k \<Rightarrow> string" where
  "process_name K p s = (case k_read_to_string K (proc_file p ''comm'') s of
       Inl _ \<Rightarrow> ''<unknown>''
     | Inr t \<Rightarrow> trim t)"

definition elf_magic :: "u8 list" where
  "elf_magic = [0x7f, 0x45, 0x4c, 0x46]"

definition u16_from_le_bytes :: "u8 \<Rightarrow> u8 \<Rightarrow> 16 word" where
  "u16_from_le_bytes lo hi = ucast lo OR push_bit 8 (ucast hi)"

definition machine_name :: "16 word \<Rightarrow> string" where
  "machine_name m =
     (if m = 0x003e then ''x86_64'' else if m = 0x00b7 then ''aarch64''
      else if m = 0x0028 then ''arm'' else ''unknown'')"

definition process_arch :: "'k kernel \<Rightarrow> pid \<Rightarrow> 'k \<Rightarrow> error + string" where
  "process_arch K p s = (let exe_path = proc_file p ''exe'' in
     bind_res (map_err (\<lambda>e. Common (CannotOpen exe_path e)) (k_open_read K exe_path s)) (\<lambda>read.
     bind_res (map_err (\<lambda>e. Common (IoError e)) (read 20)) (\<lambda>magic.
     if take 4 magic \<noteq> elf_magic then Inl (Common (NotElf p))
     else Inr (machine_name (u16_from_le_bytes (magic ! 18) (magic ! 19))))))"

end
