(* ===== verification/Registers.thy ===== *)
theory Registers
  imports Tracee
begin

text \<open>\<open>registers.rs\<close>: the registers of a stopped process and their sanity check.\<close>

section \<open>Definitions\<close>

record registers =
  reg_rax :: u64
  reg_rbx :: u64
  reg_rcx :: u64
  reg_rdx :: u64
  reg_rdi :: u64
  reg_rsi :: u64
  reg_rbp :: u64
  reg_rsp :: u64
  reg_r8 :: u64
  reg_r9 :: u64
  reg_r10 :: u64
  reg_r11 :: u64
  reg_r12 :: u64
  reg_r13 :: u64
  reg_r14 :: u64
  reg_r15 :: u64
  reg_rip :: u64
  reg_rflags :: u64
  reg_cs :: u64
  reg_ss :: u64
  reg_ds :: u64
  reg_es :: u64
  reg_fs :: u64
  reg_gs :: u64
  reg_fs_base :: u64
  reg_gs_base :: u64
  reg_fpu_state :: "u8 list"

definition registers_of :: "user_regs \<Rightarrow> u8 list \<Rightarrow> registers" where
  "registers_of gp fpu_state = \<lparr>
     reg_rax = ur_rax gp, reg_rbx = ur_rbx gp, reg_rcx = ur_rcx gp, reg_rdx = ur_rdx gp,
     reg_rdi = ur_rdi gp, reg_rsi = ur_rsi gp, reg_rbp = ur_rbp gp, reg_rsp = ur_rsp gp,
     reg_r8 = ur_r8 gp, reg_r9 = ur_r9 gp, reg_r10 = ur_r10 gp, reg_r11 = ur_r11 gp,
     reg_r12 = ur_r12 gp, reg_r13 = ur_r13 gp, reg_r14 = ur_r14 gp, reg_r15 = ur_r15 gp,
     reg_rip = ur_rip gp, reg_rflags = ur_eflags gp,
     reg_cs = ur_cs gp, reg_ss = ur_ss gp, reg_ds = ur_ds gp, reg_es = ur_es gp,
     reg_fs = ur_fs gp, reg_gs = ur_gs gp,
     reg_fs_base = ur_fs_base gp, reg_gs_base = ur_gs_base gp,
     reg_fpu_state = fpu_state\<rparr>"

definition from_ptrace :: "'k kernel \<Rightarrow> pid \<Rightarrow> ('k, error, registers) act" where
  "from_ptrace K p =
     try_act (k_getregs K p) (\<lambda>e. Capture_Err (GetRegsFailed p e)) (\<lambda>gp.
     try_act (k_getfpregs K p) (\<lambda>e. Capture_Err (GetFpRegsFailed p e)) (\<lambda>fp.
     ok_act (registers_of gp fp)))"

definition registers_validate :: "registers \<Rightarrow> error + unit" where
  "registers_validate regs =
     (if reg_rip regs \<ge> push_bit 47 1 then Inl (Capture_Err (RipInKernelSpace (reg_rip regs)))
      else if reg_rsp regs = 0 then Inl (Capture_Err RspZero)
      else if reg_fpu_state regs \<noteq> [] \<and> length (reg_fpu_state regs) \<noteq> FPREGS_SIZE then
        Inl (Capture_Err (FpuStateLength (length (reg_fpu_state regs)) FPREGS_SIZE))
      else Inr ())"

section \<open>What is read\<close>

lemma registers_validate_ok:
  "registers_validate regs = Inr () \<longleftrightarrow> unat (reg_rip regs) < 2 ^ 47 \<and> reg_rsp regs \<noteq> 0 \<and>
     (reg_fpu_state regs = [] \<or> length (reg_fpu_state regs) = 512)"
proof -
  have "push_bit 47 1 \<le> reg_rip regs \<longleftrightarrow> \<not> unat (reg_rip regs) < 2 ^ 47"
    by (simp add: push_bit_eq_mult word_le_nat_alt not_less)
  then show ?thesis by (simp add: registers_validate_def FPREGS_SIZE_def)
qed

lemma from_ptrace_parts:
  "from_ptrace K p s = (Inr regs, t) \<Longrightarrow>
     \<exists>gp u fp. k_getregs K p s = (Inr gp, u) \<and> k_getfpregs K p u = (Inr fp, t) \<and> regs = registers_of gp fp"
  by (auto simp: from_ptrace_def)

context tracer
begin

lemma from_ptrace_effect:
  assumes "from_ptrace K p s = (r, t)"
  shows "cv t p = cv s p"
    and "r = Inr regs \<Longrightarrow> regs = registers_of (c_regs (cv s p)) (c_fp (cv s p)) \<and>
           length (c_fp (cv s p)) = FPREGS_SIZE"
proof -
  obtain x u where x: "k_getregs K p s = (x, u)" by fastforce
  obtain y v where y: "k_getfpregs K p u = (y, v)" by fastforce
  note laws = getregs_law [OF x] getfpregs_law [OF y]
  from assms x y have t: "t = u \<or> t = v"
    by (auto simp: from_ptrace_def try_act_def split: sum.splits)
  then show "cv t p = cv s p" using laws by auto
  show "r = Inr regs \<Longrightarrow> regs = registers_of (c_regs (cv s p)) (c_fp (cv s p)) \<and>
      length (c_fp (cv s p)) = FPREGS_SIZE"
    using assms from_ptrace_parts [of K p s regs t] x y laws by auto
qed

end

end
