(* ===== verification/PtraceOps.thy ===== *)
theory PtraceOps
  imports Utils Registers
begin

text \<open>
  \<open>ptrace_ops.rs\<close>: \<open>ProcessLock\<close>, the guard that holds a traced process. The guard is a value
  that its operations return updated; \<open>lock_drop\<close> is what Rust runs when the guard goes out of
  scope. The locale \<open>freeze_guard\<close> is what a client of the guard relies on.
\<close>

section \<open>Definitions\<close>

record process_lock =
  lock_pid :: pid
  lock_detached :: bool

definition attach_error :: "pid \<Rightarrow> os_error \<Rightarrow> error" where
  "attach_error raw_pid e =
     (if e = EPERM \<or> e = EACCES then err_permission ''ptrace attach'' raw_pid
      else Capture_Err (AttachFailed raw_pid e))"

definition lock_attach :: "'k kernel \<Rightarrow> pid \<Rightarrow> ('k, error, process_lock) act" where
  "lock_attach K raw_pid s =
     (if \<not> pid_exists K raw_pid s then fail_act (err_process_not_found raw_pid) s
      else try_act (k_attach K raw_pid) (attach_error raw_pid) (\<lambda>_.
        try_act (k_waitpid K raw_pid) (\<lambda>e. Capture_Err (WaitAfterAttachFailed raw_pid e)) (\<lambda>_.
        ok_act \<lparr>lock_pid = raw_pid, lock_detached = False\<rparr>)) s)"

text \<open>\<open>detach(&mut self)\<close>: the result, the updated guard and the system.\<close>

definition lock_detach ::
    "'k kernel \<Rightarrow> process_lock \<Rightarrow> 'k \<Rightarrow> (error + unit) \<times> process_lock \<times> 'k" where
  "lock_detach K l s =
     (if \<not> lock_detached l then
        case k_detach K (lock_pid l) s of
          (Inl e, t) \<Rightarrow> (Inl (Capture_Err (DetachFailed (lock_pid l) e)), l, t)
        | (Inr _, t) \<Rightarrow> (Inr (), l\<lparr>lock_detached := True\<rparr>, t)
      else (Inr (), l, s))"

definition capture_registers :: "'k kernel \<Rightarrow> process_lock \<Rightarrow> ('k, error, registers) act" where
  "capture_registers K l =
     bind_act (from_ptrace K (lock_pid l)) (\<lambda>regs.
     bind_act (look (\<lambda>_. registers_validate regs)) (\<lambda>_.
     ok_act regs))"

definition lock_drop :: "'k kernel \<Rightarrow> process_lock \<Rightarrow> 'k \<Rightarrow> 'k" where
  "lock_drop K l s = (if \<not> lock_detached l then snd (k_detach K (lock_pid l) s) else s)"

section \<open>The guard as its clients use it\<close>

text \<open>
  A guard that was attached is attached to the process that was asked for, and once it has been
  released, neither another release nor its end of scope touches the process again.
\<close>

locale freeze_guard =
  fixes attach :: "pid \<Rightarrow> ('k, error, 'g) act"
    and release :: "'g \<Rightarrow> 'k \<Rightarrow> (error + unit) \<times> 'g \<times> 'k"
    and finish :: "'g \<Rightarrow> 'k \<Rightarrow> 'k"
    and held :: "'g \<Rightarrow> bool" and owner :: "'g \<Rightarrow> pid"
  assumes attach_held: "attach p s = (Inr g, t) \<Longrightarrow> held g \<and> owner g = p"
    and release_ok: "release g s = (Inr (), h, t) \<Longrightarrow> \<not> held h"
    and release_owner: "release g s = (r, h, t) \<Longrightarrow> owner h = owner g"
    and released: "\<not> held g \<Longrightarrow> release g s = (Inr (), g, s) \<and> finish g s = s"
    and finish_releases: "held g \<Longrightarrow> finish g s = snd (snd (release g s))"
begin

lemma release_twice:
  "release g s = (Inr (), h, t) \<Longrightarrow> release h u = (Inr (), h, u) \<and> finish h u = u"
  using release_ok released by blast

lemma release_then_finish:
  assumes "release g s = (Inr (), h, t)"
  shows "finish h t = finish g s"
proof (cases "held g")
  case True
  with assms release_twice [OF assms, of t] show ?thesis by (simp add: finish_releases)
next
  case False
  with assms release_twice [OF assms, of t] released [of g s] show ?thesis by simp
qed

end

interpretation guard: freeze_guard "lock_attach K" "lock_detach K" "lock_drop K"
    "\<lambda>l. \<not> lock_detached l" lock_pid for K :: "'k kernel"
proof (unfold_locales, goal_cases)
  case (1 p s g t)
  then show ?case by (auto simp: lock_attach_def split: if_splits)
qed (auto simp: lock_detach_def lock_drop_def split: prod.splits sum.splits if_splits)

end
