(* ===== verification/Memory.thy ===== *)
theory Memory
  imports Utils Tracee
begin

text \<open>
  \<open>memory.rs\<close>: parsing \<open>/proc/<pid>/maps\<close>, reading the bytes of a region from
  \<open>/proc/<pid>/mem\<close>, and the rules by which regions are skipped and classified. The checksum
  function, which the crate \<open>crc\<close> provides, is a parameter where it is used.
\<close>

section \<open>Definitions\<close>

record memory_region =
  mr_start :: u64
  mr_end :: u64
  mr_perms :: string
  mr_backing_file :: "string option"
  mr_offset :: u64
  mr_region_type :: string
  mr_data :: "u8 list"
  mr_checksum :: u64

text \<open>Subtraction wraps, as in a release build.\<close>

definition region_size :: "memory_region \<Rightarrow> u64" where
  "region_size r = mr_end r - mr_start r"

definition is_readable :: "memory_region \<Rightarrow> bool" where
  "is_readable r = starts_with ''r'' (mr_perms r)"

definition classify_region :: "string \<Rightarrow> string" where
  "classify_region pathname =
     (if pathname = ''[heap]'' then ''heap'' else if pathname = ''[stack]'' then ''stack''
      else if pathname = ''[vdso]'' then ''vdso'' else if pathname = ''[vsyscall]'' then ''vsyscall''
      else if pathname = ''[vvar]'' then ''vvar'' else if starts_with ''/'' pathname then ''file''
      else if pathname = [] then ''anon'' else ''other'')"

text \<open>\<open>parts.next().ok_or_else(\<dots>)?\<close>: the next field and the fields after it.\<close>

definition next_field :: "memory_error \<Rightarrow> string list \<Rightarrow> error + (string \<times> string list)" where
  "next_field e parts = (case parts of [] \<Rightarrow> Inl (Memory_Err e) | f # fs \<Rightarrow> Inr (f, fs))"

definition hex_field :: "memory_error \<Rightarrow> string \<Rightarrow> error + u64" where
  "hex_field e s = ok_or (Memory_Err e) (u64_from_str_radix 16 s)"

definition parse_maps_line :: "string \<Rightarrow> error + memory_region option" where
  "parse_maps_line raw = (let line = trim raw in
     if line = [] then Inr None
     else let parts = filter (\<lambda>s. s \<noteq> []) (splitn 6 CHR '' '' line) in
       bind_res (next_field (MissingAddressRange line) parts) (\<lambda>(addr_range, parts).
       bind_res (next_field (MissingPermissions line) parts) (\<lambda>(perms, parts).
       bind_res (next_field (MissingOffset line) parts) (\<lambda>(offset_str, parts).
       let pathname = trim (case drop 2 parts of [] \<Rightarrow> [] | f # _ \<Rightarrow> f) in
       bind_res (ok_or (Memory_Err (MalformedAddressRange addr_range)) (split_once CHR ''-'' addr_range))
         (\<lambda>(start_str, end_str).
       bind_res (hex_field (BadStartAddress start_str) start_str) (\<lambda>start.
       bind_res (hex_field (BadEndAddress end_str) end_str) (\<lambda>end_addr.
       bind_res (hex_field (BadOffset offset_str) offset_str) (\<lambda>offset.
       let backing = (if starts_with ''/'' pathname \<or> starts_with ''.'' pathname
                      then Some pathname else None) in
       Inr (Some \<lparr>mr_start = start, mr_end = end_addr, mr_perms = perms, mr_backing_file = backing,
         mr_offset = offset, mr_region_type = classify_region pathname,
         mr_data = [], mr_checksum = 0\<rparr>)))))))))"

text \<open>The loop over the lines: blank and malformed lines are skipped.\<close>

fun parse_lines :: "string list \<Rightarrow> memory_region list" where
  "parse_lines [] = []"
| "parse_lines (l # ls) = (case parse_maps_line l of
       Inr (Some region) \<Rightarrow> region # parse_lines ls
     | _ \<Rightarrow> parse_lines ls)"

definition parse_maps :: "'k kernel \<Rightarrow> pid \<Rightarrow> 'k \<Rightarrow> error + memory_region list" where
  "parse_maps K p s = (let path = proc_file p ''maps'' in
     bind_res (map_err (\<lambda>e. Common (CannotRead path e)) (k_read_to_string K path s)) (\<lambda>content.
     Inr (parse_lines (lines content))))"

definition dump_region :: "'k kernel \<Rightarrow> pid \<Rightarrow> memory_region \<Rightarrow> ('k, error, u8 list) act" where
  "dump_region K p region = (let path = proc_file p ''mem''; size = unat (region_size region) in
     try_act (k_mem_open K False p) (\<lambda>e. Common (CannotOpen path e)) (\<lambda>f.
     try_act (k_mem_seek K f (mr_start region))
       (\<lambda>e. Memory_Err (CannotSeek (mr_start region) path e)) (\<lambda>f.
     try_act (k_mem_read_exact K f size)
       (\<lambda>e. Memory_Err (CannotReadBytes size (mr_start region) (mr_end region) path e)) (\<lambda>buf.
     ok_act buf))))"

definition should_skip :: "memory_region \<Rightarrow> bool" where
  "should_skip region =
     (if region_size region = 0 then True
      else if \<not> is_readable region then True
      else mr_region_type region = ''vsyscall'' \<or> mr_region_type region = ''vvar'')"

section \<open>Which regions are skipped\<close>

lemma classify_special:
  "classify_region pathname = ''vsyscall'' \<longleftrightarrow> pathname = ''[vsyscall]''"
  "classify_region pathname = ''vvar'' \<longleftrightarrow> pathname = ''[vvar]''"
  by (auto simp: classify_region_def)

section \<open>The kernel's format\<close>

text \<open>
  One entry of \<open>/proc/<pid>/maps\<close> as \<open>proc(5)\<close> documents it: the two addresses and the offset
  in hexadecimal with leading zeros, four permission characters, the device, the inode, and
  after some padding the name, if there is one.
\<close>

record maps_entry =
  me_start :: u64
  me_end :: u64
  me_perms :: string
  me_offset :: u64
  me_dev :: string
  me_inode :: string
  me_padding :: nat
  me_name :: string

definition show_hex :: "u64 \<Rightarrow> string" where
  "show_hex w = (let h = show_radix 16 (unat w) in replicate (8 - length h) CHR ''0'' @ h)"

definition show_entry :: "maps_entry \<Rightarrow> string" where
  "show_entry m = show_hex (me_start m) @ CHR ''-'' # show_hex (me_end m) @ CHR '' '' #
     me_perms m @ CHR '' '' # show_hex (me_offset m) @ CHR '' '' # me_dev m @ CHR '' '' #
     me_inode m @ CHR '' '' # replicate (me_padding m) CHR '' '' @ me_name m"

definition no_ws :: "string \<Rightarrow> bool" where
  "no_ws s \<longleftrightarrow> s \<noteq> [] \<and> list_all (\<lambda>c. \<not> is_ws c) s"

definition entry_ok :: "maps_entry \<Rightarrow> bool" where
  "entry_ok m \<longleftrightarrow> no_ws (me_perms m) \<and> no_ws (me_dev m) \<and> no_ws (me_inode m) \<and>
     (me_name m \<noteq> [] \<longrightarrow> \<not> is_ws (hd (me_name m)) \<and> \<not> is_ws (last (me_name m))) \<and>
     newline \<notin> set (me_name m)"

definition region_of_entry :: "maps_entry \<Rightarrow> memory_region" where
  "region_of_entry m = \<lparr>mr_start = me_start m, mr_end = me_end m, mr_perms = me_perms m,
     mr_backing_file = (if starts_with ''/'' (me_name m) \<or> starts_with ''.'' (me_name m)
       then Some (me_name m) else None),
     mr_offset = me_offset m, mr_region_type = classify_region (me_name m),
     mr_data = [], mr_checksum = 0\<rparr>"

section \<open>Parsing what the kernel prints\<close>

definition hex_char :: "char \<Rightarrow> bool" where
  "hex_char c \<longleftrightarrow> (\<exists>d < 16. c = digit_char d)"

lemma hex_char_not: "hex_char c \<Longrightarrow> \<not> is_ws c" "hex_char c \<Longrightarrow> c \<noteq> CHR ''-''" "hex_char c \<Longrightarrow> c \<noteq> CHR ''+''"
  "hex_char c \<Longrightarrow> c \<noteq> newline"
proof -
  assume "hex_char c"
  then obtain d where d: "d < 16" "c = digit_char d" by (auto simp: hex_char_def)
  then show "\<not> is_ws c" by (simp add: digit_char_not_ws)
  then show "c \<noteq> newline" by auto
  from d have "digit_val c = Some d" by (simp add: digit_val_char)
  then show "c \<noteq> CHR ''-''" "c \<noteq> CHR ''+''" by (auto simp: digit_val_def)
qed

lemma show_hex_chars: "list_all hex_char (show_hex w)"
proof -
  have "CHR ''0'' = digit_char 0" by code_simp
  then have "hex_char CHR ''0''" unfolding hex_char_def by (intro exI [of _ 0]) simp
  then show ?thesis
    using set_show_radix [of 16 _ "unat w"]
    by (auto simp: show_hex_def Let_def list_all_iff hex_char_def)
qed

lemma show_hex_nonempty: "show_hex w \<noteq> []"
  by (simp add: show_hex_def Let_def show_radix_nonempty)

lemma show_hex_no_ws: "no_ws (show_hex w)"
  using show_hex_chars [of w] show_hex_nonempty [of w]
  by (auto simp: no_ws_def list_all_iff hex_char_not)

lemma digits_acc_zeros: "2 \<le> r \<Longrightarrow> digits_acc r 0 (replicate n CHR ''0'' @ t) = digits_acc r 0 t"
  by (induction n) (simp_all add: digit_val_def Let_def)

lemma parse_show_hex: "u64_from_str_radix 16 (show_hex w) = Some w"
proof -
  have "strip_plus (show_hex w) = show_hex w"
    using show_hex_chars [of w] by (cases "show_hex w") (auto simp: strip_plus_def hex_char_not)
  moreover have "digits_acc 16 0 (show_hex w) = Some (unat w)"
    by (simp add: show_hex_def Let_def digits_acc_zeros digits_acc_show_radix)
  ultimately show ?thesis
    using unat_lt2p_word [of w] show_hex_nonempty [of w]
    by (simp add: u64_from_str_radix_def parse_unsigned_def Let_def)
qed

lemma no_ws_space: "no_ws f \<Longrightarrow> CHR '' '' \<notin> set f" "no_ws f \<Longrightarrow> f \<noteq> []" "no_ws f \<Longrightarrow> newline \<notin> set f"
  by (auto simp: no_ws_def list_all_iff)

text \<open>The fields of an entry, with and without a name.\<close>

definition entry_head :: "maps_entry \<Rightarrow> string" where
  "entry_head m = show_hex (me_start m) @ CHR ''-'' # show_hex (me_end m)"

definition entry_prefix :: "maps_entry \<Rightarrow> string" where
  "entry_prefix m = entry_head m @ CHR '' '' # me_perms m @ CHR '' '' # show_hex (me_offset m) @
     CHR '' '' # me_dev m @ CHR '' '' # me_inode m"

lemma show_entry_prefix:
  "show_entry m = entry_prefix m @ CHR '' '' # replicate (me_padding m) CHR '' '' @ me_name m"
  by (simp add: show_entry_def entry_prefix_def entry_head_def)

lemma entry_head_no_ws: "no_ws (entry_head m)"
proof -
  have "\<not> is_ws CHR ''-''" by (simp add: is_ws_def)
  then show ?thesis
    using show_hex_no_ws [of "me_start m"] show_hex_no_ws [of "me_end m"]
    by (simp add: entry_head_def no_ws_def)
qed

lemma trim_entry:
  assumes "entry_ok m"
  shows "trim (show_entry m) = (if me_name m = [] then entry_prefix m else show_entry m)"
proof -
  let ?p = "entry_prefix m"
  have ne: "me_inode m \<noteq> []" "no_ws (me_inode m)" and h: "no_ws (entry_head m)"
    using assms entry_head_no_ws by (simp_all add: entry_ok_def no_ws_def)
  have first: "?p \<noteq> []" "\<not> is_ws (hd ?p)"
    using h by (cases "entry_head m"; simp add: entry_prefix_def no_ws_def)+
  have last: "\<not> is_ws (last ?p)"
    using ne by (simp add: entry_prefix_def no_ws_def list_all_iff)
  show ?thesis
  proof (cases "me_name m = []")
    case True
    have "trim (?p @ replicate (Suc (me_padding m)) CHR '' '') = trim ?p"
      using first by (intro trim_pad_right) auto
    with True trim_ident [OF first last] show ?thesis by (simp add: show_entry_prefix)
  next
    case False
    then have "trim (show_entry m) = show_entry m"
      using assms first by (intro trim_ident) (auto simp: show_entry_prefix entry_ok_def)
    with False show ?thesis by simp
  qed
qed

lemma splitn_entry:
  assumes "entry_ok m"
  shows "splitn 6 CHR '' '' (trim (show_entry m)) =
     [entry_head m, me_perms m, show_hex (me_offset m), me_dev m, me_inode m] @
     (if me_name m = [] then [] else [replicate (me_padding m) CHR '' '' @ me_name m])"
proof -
  have sp: "CHR '' '' \<notin> set (entry_head m)" "CHR '' '' \<notin> set (me_perms m)"
    "CHR '' '' \<notin> set (show_hex (me_offset m))" "CHR '' '' \<notin> set (me_dev m)" "CHR '' '' \<notin> set (me_inode m)"
    using assms entry_head_no_ws [of m] show_hex_no_ws [of "me_offset m"]
    by (simp_all add: entry_ok_def no_ws_space)
  show ?thesis
    unfolding trim_entry [OF assms]
    using sp by (simp add: show_entry_prefix entry_prefix_def splitn_step splitn_last numeral_eq_Suc
        del: splitn.simps(3))
qed

lemma parse_show_entry:
  assumes "entry_ok m"
  shows "parse_maps_line (show_entry m) = Inr (Some (region_of_entry m))"
proof -
  note ok = assms [unfolded entry_ok_def]
  have ne: "entry_head m \<noteq> []" "me_perms m \<noteq> []" "show_hex (me_offset m) \<noteq> []"
    "me_dev m \<noteq> []" "me_inode m \<noteq> []"
    using ok entry_head_no_ws [of m] by (simp_all add: no_ws_space show_hex_nonempty)
  have line: "trim (show_entry m) \<noteq> []"
    using ne(1) by (subst trim_entry [OF assms]) (simp add: show_entry_prefix entry_prefix_def)
  have range: "split_once CHR ''-'' (entry_head m) = Some (show_hex (me_start m), show_hex (me_end m))"
    unfolding entry_head_def using show_hex_chars [of "me_start m"]
    by (intro split_once_append) (auto simp: list_all_iff dest: hex_char_not(2))
  have name: "trim (replicate k CHR '' '' @ me_name m) = me_name m" for k
    using ok by (cases "me_name m = []") (auto simp: trim_pad_left trim_ident intro!: trim_all_ws)
  show ?thesis
    using ne line
    by (simp add: parse_maps_line_def Let_def splitn_entry [OF assms] next_field_def range
        hex_field_def parse_show_hex name region_of_entry_def)
qed

text \<open>A whole table.\<close>

definition show_maps :: "maps_entry list \<Rightarrow> string" where
  "show_maps ms = concat (map (\<lambda>m. show_entry m @ [newline]) ms)"

lemma entry_line:
  assumes "entry_ok m"
  shows "newline \<notin> set (show_entry m)" "show_entry m \<noteq> []" "last (show_entry m) \<noteq> carriage_return"
proof -
  have "newline \<notin> set (entry_prefix m)"
    using assms entry_head_no_ws [of m] show_hex_no_ws [of "me_offset m"]
    by (simp add: entry_prefix_def entry_ok_def no_ws_space)
  then show "newline \<notin> set (show_entry m)"
    using assms by (simp add: show_entry_prefix entry_ok_def)
  show "show_entry m \<noteq> []" by (simp add: show_entry_prefix)
  have "is_ws carriage_return" by simp
  then have "last (me_name m) \<noteq> carriage_return" if "me_name m \<noteq> []"
    using assms that unfolding entry_ok_def by metis
  then show "last (show_entry m) \<noteq> carriage_return"
    by (auto simp: show_entry_prefix last_append)
qed

lemma lines_show_maps:
  "list_all entry_ok ms \<Longrightarrow> lines (show_maps ms) = map show_entry ms"
  by (induction ms) (simp_all add: show_maps_def lines_Cons entry_line)

lemma parse_lines_entries:
  "list_all entry_ok ms \<Longrightarrow> parse_lines (map show_entry ms) = map region_of_entry ms"
  by (induction ms) (simp_all add: parse_show_entry)

text \<open>A table of the kernel's format parses to its regions.\<close>

lemma parse_maps_table:
  assumes "k_read_to_string K (proc_file p ''maps'') s = Inr (show_maps ms)" "list_all entry_ok ms"
  shows "parse_maps K p s = Inr (map region_of_entry ms)"
  using assms by (simp add: parse_maps_def Let_def lines_show_maps parse_lines_entries)

end
