(* ===== verification/FdEnum.thy ===== *)
theory FdEnum
  imports Utils
begin

text \<open>
  \<open>fd_enum.rs\<close>: the descriptors of a process, read from \<open>/proc/<pid>/fd\<close> and
  \<open>/proc/<pid>/fdinfo\<close>. The captured type keeps the target of what it does not know, unlike
  the integer tag \<open>fd_restore.rs\<close> works with.
\<close>

section \<open>Definitions\<close>

datatype fd_kind =
    FdRegular
  | FdPipe
  | FdSocket
  | FdDevice
  | FdDirectory
  | FdOther string

fun show_fd_kind :: "fd_kind \<Rightarrow> string" where
  "show_fd_kind FdRegular = ''regular''"
| "show_fd_kind FdPipe = ''pipe''"
| "show_fd_kind FdSocket = ''socket''"
| "show_fd_kind FdDevice = ''device''"
| "show_fd_kind FdDirectory = ''directory''"
| "show_fd_kind (FdOther s) = ''other:'' @ s"

record file_descriptor =
  fd_fd :: u32
  fd_fd_type :: fd_kind
  fd_path :: string
  fd_offset :: u64
  fd_flags :: i32

definition is_restorable :: "file_descriptor \<Rightarrow> bool" where
  "is_restorable f = (fd_fd_type f = FdRegular)"

definition classify_fd :: "'k kernel \<Rightarrow> string \<Rightarrow> 'k \<Rightarrow> fd_kind" where
  "classify_fd K target s =
     (if starts_with ''socket:'' target then FdSocket
      else if starts_with ''pipe:'' target then FdPipe
      else if starts_with ''/'' target then
        (if starts_with ''/dev/'' target then FdDevice
         else if unwrap_or False (k_is_dir K target s) then FdDirectory
         else FdRegular)
      else FdOther target)"

text \<open>One line of \<open>fdinfo\<close>: it may set the offset or the flags read so far.\<close>

definition fdinfo_line :: "u64 \<times> i32 \<Rightarrow> string \<Rightarrow> u64 \<times> i32" where
  "fdinfo_line acc line = (case acc of (offset, flags) \<Rightarrow>
     case or_else (strip_prefix (''pos:'' @ [tab]) line) (strip_prefix ''pos:'' line) of
       Some val \<Rightarrow> (case u64_from_str_radix 10 (trim val) of None \<Rightarrow> 0 | Some n \<Rightarrow> n, flags)
     | None \<Rightarrow> (case or_else (strip_prefix (''flags:'' @ [tab]) line) (strip_prefix ''flags:'' line) of
         Some val \<Rightarrow> (offset, case i32_from_str_radix 8 (trim val) of None \<Rightarrow> 0 | Some n \<Rightarrow> n)
       | None \<Rightarrow> (offset, flags)))"

definition fdinfo_path :: "pid \<Rightarrow> u32 \<Rightarrow> string" where
  "fdinfo_path p n = proc_file p (''fdinfo/'' @ show_nat (unat n))"

definition read_fdinfo :: "'k kernel \<Rightarrow> pid \<Rightarrow> u32 \<Rightarrow> 'k \<Rightarrow> error + (u64 \<times> i32)" where
  "read_fdinfo K p n s = (let path = fdinfo_path p n in
     bind_res (map_err (\<lambda>e. Common (CannotRead path e)) (k_read_to_string K path s)) (\<lambda>content.
     Inr (foldl fdinfo_line (0, 0) (lines content))))"

text \<open>One entry of the directory: \<open>None\<close> is a \<open>continue\<close> of the loop.\<close>

definition read_fd_entry :: "'k kernel \<Rightarrow> pid \<Rightarrow> string \<Rightarrow> 'k \<Rightarrow> file_descriptor option" where
  "read_fd_entry K p name s = (case u32_from_str_radix 10 name of
       None \<Rightarrow> None
     | Some fd_num \<Rightarrow> (case k_read_link K (proc_file p (''fd/'' @ name)) s of
           Inl _ \<Rightarrow> None
         | Inr target \<Rightarrow> (case unwrap_or (0, 0) (read_fdinfo K p fd_num s) of (offset, flags) \<Rightarrow>
             Some \<lparr>fd_fd = fd_num, fd_fd_type = classify_fd K target s, fd_path = target,
               fd_offset = offset, fd_flags = flags\<rparr>)))"

fun read_fd_entries :: "'k kernel \<Rightarrow> pid \<Rightarrow> (os_error + string) list \<Rightarrow> 'k \<Rightarrow> file_descriptor list" where
  "read_fd_entries K p [] s = []"
| "read_fd_entries K p (Inl _ # es) s = read_fd_entries K p es s"
| "read_fd_entries K p (Inr name # es) s = (case read_fd_entry K p name s of
       None \<Rightarrow> read_fd_entries K p es s
     | Some fd \<Rightarrow> fd # read_fd_entries K p es s)"

definition enumerate_fds :: "'k kernel \<Rightarrow> pid \<Rightarrow> 'k \<Rightarrow> error + file_descriptor list" where
  "enumerate_fds K p s = (let fd_dir = proc_file p ''fd'' in
     bind_res (map_err (\<lambda>e. Common (CannotRead fd_dir e)) (k_read_dir K fd_dir s)) (\<lambda>entries.
     Inr (sort_key fd_fd (read_fd_entries K p entries s))))"

section \<open>What is enumerated\<close>

lemma read_fd_entries_filter:
  "read_fd_entries K p es s =
     List.map_filter (\<lambda>e. case e of Inl _ \<Rightarrow> None | Inr name \<Rightarrow> read_fd_entry K p name s) es"
  by (induction K p es s rule: read_fd_entries.induct)
     (simp_all add: List.map_filter_simps split: option.splits)

lemma read_fd_entry_Some:
  "read_fd_entry K p name s = Some fd \<Longrightarrow>
     u32_from_str_radix 10 name = Some (fd_fd fd) \<and>
     k_read_link K (proc_file p (''fd/'' @ name)) s = Inr (fd_path fd) \<and>
     fd_fd_type fd = classify_fd K (fd_path fd) s"
  by (auto simp: read_fd_entry_def split: option.splits sum.splits prod.splits)

section \<open>The kernel's fdinfo\<close>

text \<open>The beginning of an \<open>fdinfo\<close> file: the offset in decimal, the flags in octal with a
  leading zero, and further lines with other keys.\<close>

definition show_fdinfo :: "u64 \<Rightarrow> nat \<Rightarrow> string list \<Rightarrow> string" where
  "show_fdinfo pos flags rest =
     ''pos:'' @ tab # show_radix 10 (unat pos) @ newline #
     ''flags:'' @ tab # CHR ''0'' # show_radix 8 flags @ newline #
     concat (map (\<lambda>l. l @ [newline]) rest)"

definition other_line :: "string \<Rightarrow> bool" where
  "other_line l \<longleftrightarrow> newline \<notin> set l \<and> (l = [] \<or> last l \<noteq> carriage_return) \<and>
     \<not> starts_with ''pos:'' l \<and> \<not> starts_with ''flags:'' l"

lemma starts_with_longer: "\<not> starts_with p l \<Longrightarrow> \<not> starts_with (p @ q) l"
  unfolding starts_with_iff_prefix by (metis append_prefixD)

lemma fdinfo_other: "other_line l \<Longrightarrow> fdinfo_line acc l = acc"
  using starts_with_longer [of "''pos:''" l "[tab]"] starts_with_longer [of "''flags:''" l "[tab]"]
  by (cases acc) (simp add: fdinfo_line_def other_line_def strip_prefix_def or_else_def)

lemma foldl_fdinfo_other: "list_all other_line ls \<Longrightarrow> foldl fdinfo_line acc ls = acc"
  by (induction ls arbitrary: acc) (simp_all add: fdinfo_other)

lemma lines_others:
  "list_all other_line ls \<Longrightarrow> lines (concat (map (\<lambda>l. l @ [newline]) ls)) = ls"
  by (induction ls) (simp_all add: lines_Cons other_line_def)

lemma show_radix_not_ws:
  assumes "2 \<le> r" "r \<le> 36" "c \<in> set (show_radix r n)"
  shows "\<not> is_ws c"
  using set_show_radix [OF assms] assms(2) by (auto simp: digit_char_not_ws)

lemma trim_no_ws: "s \<noteq> [] \<Longrightarrow> \<forall>c \<in> set s. \<not> is_ws c \<Longrightarrow> trim s = s"
  by (intro trim_ident) auto

lemma i32_octal:
  assumes "n < 2 ^ 31"
  shows "i32_from_str_radix 8 (CHR ''0'' # show_radix 8 n) = Some (of_nat n)"
proof -
  have "digits_acc 8 0 (CHR ''0'' # show_radix 8 n) = Some n"
    by (simp add: digit_val_def Let_def digits_acc_show_radix)
  with assms show ?thesis
    by (simp add: i32_from_str_radix_def parse_signed_def strip_plus_def Let_def)
qed

lemma fdinfo_pos: "fdinfo_line (a, b) (''pos:'' @ tab # show_radix 10 (unat pos)) = (pos, b)"
proof -
  have "trim (show_radix 10 (unat pos)) = show_radix 10 (unat pos)"
    using show_radix_not_ws [of 10] by (intro trim_no_ws show_radix_nonempty) auto
  then show ?thesis
    by (simp add: fdinfo_line_def strip_prefix_def or_else_def u64_from_str_radix_show)
qed

lemma fdinfo_flags:
  assumes "flags < 2 ^ 31"
  shows "fdinfo_line (a, b) (''flags:'' @ tab # CHR ''0'' # show_radix 8 flags) = (a, of_nat flags)"
proof -
  have "\<not> is_ws CHR ''0''" by (simp add: is_ws_def)
  then have "trim (CHR ''0'' # show_radix 8 flags) = CHR ''0'' # show_radix 8 flags"
    using show_radix_not_ws [of 8] by (intro trim_no_ws) auto
  then show ?thesis
    using i32_octal [OF assms] by (simp add: fdinfo_line_def strip_prefix_def or_else_def)
qed

lemma lines_fdinfo:
  assumes "list_all other_line rest"
  shows "lines (show_fdinfo pos flags rest) =
     (''pos:'' @ tab # show_radix 10 (unat pos)) # (''flags:'' @ tab # CHR ''0'' # show_radix 8 flags) # rest"
proof -
  have c: "newline \<noteq> tab" "\<not> is_ws CHR ''0''" by (code_simp, simp add: is_ws_def)
  have d: "\<not> is_ws c" if "c \<in> set (show_radix 10 n) \<or> c \<in> set (show_radix 8 n)" for c n
    using that show_radix_not_ws [of 10 c n] show_radix_not_ws [of 8 c n] by auto
  have n: "newline \<notin> set (show_radix 10 n)" "newline \<notin> set (show_radix 8 n)" for n
    using d by (metis is_ws_controls(1))+
  have l: "last (show_radix r n) \<in> set (show_radix r n)" for r n
    by (simp add: show_radix_nonempty)
  have "last (show_radix 10 (unat pos)) \<noteq> carriage_return" "last (show_radix 8 flags) \<noteq> carriage_return"
    using d l by (metis is_ws_controls(2))+
  moreover have "newline \<notin> set ''pos:''" "newline \<notin> set ''flags:0''" by code_simp+
  ultimately show ?thesis
    using n c lines_others [OF assms]
      lines_Cons [of "''pos:'' @ tab # show_radix 10 (unat pos)"]
      lines_Cons [of "''flags:'' @ tab # CHR ''0'' # show_radix 8 flags"]
    by (simp add: show_fdinfo_def show_radix_nonempty)
qed

lemma read_fdinfo_shown:
  assumes "k_read_to_string K (fdinfo_path p n) s = Inr (show_fdinfo pos flags rest)"
    and "flags < 2 ^ 31" "list_all other_line rest"
  shows "read_fdinfo K p n s = Inr (pos, of_nat flags)"
  using assms by (simp add: read_fdinfo_def lines_fdinfo fdinfo_pos fdinfo_flags foldl_fdinfo_other
      del: append.simps)

section \<open>What the enumeration returns\<close>

lemma enumerate_fds_spec:
  assumes "k_read_dir K (proc_file p ''fd'') s = Inr entries"
  shows "\<exists>fds. enumerate_fds K p s = Inr fds \<and> sorted (map fd_fd fds) \<and>
     (\<forall>n. filter (\<lambda>f. fd_fd f = n) fds = filter (\<lambda>f. fd_fd f = n) (read_fd_entries K p entries s)) \<and>
     (\<forall>fd \<in> set fds. \<exists>name. Inr name \<in> set entries \<and> u32_from_str_radix 10 name = Some (fd_fd fd) \<and>
        k_read_link K (proc_file p (''fd/'' @ name)) s = Inr (fd_path fd))"
proof -
  have "\<exists>name. Inr name \<in> set entries \<and> u32_from_str_radix 10 name = Some (fd_fd fd) \<and>
      k_read_link K (proc_file p (''fd/'' @ name)) s = Inr (fd_path fd)"
    if "fd \<in> set (read_fd_entries K p entries s)" for fd
  proof -
    from that obtain name where "Inr name \<in> set entries" "read_fd_entry K p name s = Some fd"
      by (induction K p entries s rule: read_fd_entries.induct) (auto split: option.splits)
    with read_fd_entry_Some [of K p name s fd] show ?thesis by auto
  qed
  then show ?thesis
    using assms by (auto simp: enumerate_fds_def Let_def sort_key_stable)
qed

end
