(* ===== verification/Snapshot.thy ===== *)
theory Snapshot
  imports Memory FdEnum Registers
begin

text \<open>
  \<open>snapshot.rs\<close>: the builder that turns captured state into the protobuf message. Parsing of a
  floating-point number is a parameter: \<open>f64_secs s\<close> is \<open>s.parse::<f64>()\<close> cast to \<open>u64\<close>.
\<close>

section \<open>Conversions\<close>

definition regs_to_proto :: "registers \<Rightarrow> pb_registers" where
  "regs_to_proto r = \<lparr>
     pr_rax = reg_rax r, pr_rbx = reg_rbx r, pr_rcx = reg_rcx r, pr_rdx = reg_rdx r,
     pr_rdi = reg_rdi r, pr_rsi = reg_rsi r, pr_rbp = reg_rbp r, pr_rsp = reg_rsp r,
     pr_r8 = reg_r8 r, pr_r9 = reg_r9 r, pr_r10 = reg_r10 r, pr_r11 = reg_r11 r,
     pr_r12 = reg_r12 r, pr_r13 = reg_r13 r, pr_r14 = reg_r14 r, pr_r15 = reg_r15 r,
     pr_rip = reg_rip r, pr_rflags = reg_rflags r,
     pr_cs = reg_cs r, pr_ss = reg_ss r, pr_ds = reg_ds r, pr_es = reg_es r,
     pr_fs = reg_fs r, pr_gs = reg_gs r,
     pr_fs_base = reg_fs_base r, pr_gs_base = reg_gs_base r,
     pr_fpu_state = reg_fpu_state r\<rparr>"

definition region_to_proto :: "memory_region \<Rightarrow> pb_region" where
  "region_to_proto r = \<lparr>start_addr = mr_start r, end_addr = mr_end r, size_bytes = region_size r,
     permissions = mr_perms r, region_type = mr_region_type r,
     backing_file = (case mr_backing_file r of None \<Rightarrow> [] | Some f \<Rightarrow> f),
     file_offset = mr_offset r, data = mr_data r, checksum = mr_checksum r\<rparr>"

text \<open>The cast of the signed flags to \<open>u32\<close> keeps their bits.\<close>

definition fd_to_proto :: "file_descriptor \<Rightarrow> pb_fd" where
  "fd_to_proto f = \<lparr>pf_num = fd_fd f, pf_type = show_fd_kind (fd_fd_type f), pf_path = fd_path f,
     pf_offset = fd_offset f, pf_flags = fd_flags f\<rparr>"

section \<open>Readers of the operating system\<close>

definition hostname :: "'k kernel \<Rightarrow> 'k \<Rightarrow> string" where
  "hostname K s = (case k_read_to_string K ''/etc/hostname'' s of
       Inl _ \<Rightarrow> ''unknown'' | Inr t \<Rightarrow> trim t)"

fun join_words :: "string list \<Rightarrow> string" where
  "join_words [] = []"
| "join_words [w] = w"
| "join_words (w # ws) = w @ CHR '' '' # join_words ws"

definition kernel_version :: "'k kernel \<Rightarrow> 'k \<Rightarrow> string" where
  "kernel_version K s = (case k_read_to_string K ''/proc/version'' s of
       Inl _ \<Rightarrow> ''unknown'' | Inr t \<Rightarrow> join_words (take 3 (split_whitespace t)))"

definition parse_status_field :: "'k kernel \<Rightarrow> pid \<Rightarrow> string \<Rightarrow> 'k \<Rightarrow> string option" where
  "parse_status_field K p field s =
     Option.bind (res_ok (k_read_to_string K (proc_file p ''status'') s)) (\<lambda>content.
     map_option (\<lambda>l. trim (drop (length field) l)) (find (starts_with field) (lines content)))"

definition first_word :: "string \<Rightarrow> string option" where
  "first_word s = (case split_whitespace s of [] \<Rightarrow> None | w # _ \<Rightarrow> Some w)"

definition parse_status_kb :: "'k kernel \<Rightarrow> pid \<Rightarrow> string \<Rightarrow> 'k \<Rightarrow> u64 option" where
  "parse_status_kb K p field s =
     Option.bind (parse_status_field K p field s) (\<lambda>v.
     Option.bind (first_word v) (u64_from_str_radix 10))"

definition get_uid :: "'k kernel \<Rightarrow> pid \<Rightarrow> 'k \<Rightarrow> u32" where
  "get_uid K p s = (case Option.bind (parse_status_field K p ''Uid:'' s) (\<lambda>v.
     Option.bind (first_word v) (u32_from_str_radix 10)) of None \<Rightarrow> 0 | Some n \<Rightarrow> n)"

definition opt_or_0 :: "u64 option \<Rightarrow> u64" where
  "opt_or_0 v = (case v of None \<Rightarrow> 0 | Some n \<Rightarrow> n)"

text \<open>Multiplication wraps, as in a release build.\<close>

definition vm_size_bytes :: "'k kernel \<Rightarrow> pid \<Rightarrow> 'k \<Rightarrow> u64" where
  "vm_size_bytes K p s = opt_or_0 (parse_status_kb K p ''VmSize:'' s) * 1024"

definition vm_rss_bytes :: "'k kernel \<Rightarrow> pid \<Rightarrow> 'k \<Rightarrow> u64" where
  "vm_rss_bytes K p s = opt_or_0 (parse_status_kb K p ''VmRSS:'' s) * 1024"

definition process_age_seconds ::
    "'k kernel \<Rightarrow> (string \<Rightarrow> u64 option) \<Rightarrow> pid \<Rightarrow> 'k \<Rightarrow> u64" where
  "process_age_seconds K f64_secs p s = opt_or_0 (
     Option.bind (res_ok (k_read_to_string K (proc_file p ''stat'') s)) (\<lambda>stat.
     let stat_fields = split_whitespace stat in
     Option.bind (if 21 < length stat_fields then Some (stat_fields ! 21) else None) (\<lambda>f.
     Option.bind (u64_from_str_radix 10 f) (\<lambda>start_ticks.
     Option.bind (res_ok (k_read_to_string K ''/proc/uptime'' s)) (\<lambda>uptime_str.
     Option.bind (first_word uptime_str) (\<lambda>w.
     Option.bind (f64_secs w) (\<lambda>uptime.
     let start_secs = start_ticks div 100 in
     Some (saturating_sub uptime start_secs))))))))"

section \<open>The builder\<close>

record snapshot_builder =
  sb_pid :: pid
  sb_registers :: "registers option"
  sb_regions :: "memory_region list"
  sb_fds :: "file_descriptor list"
  sb_process_name :: string
  sb_kernel :: string

definition builder_new :: "'k kernel \<Rightarrow> pid \<Rightarrow> 'k \<Rightarrow> snapshot_builder" where
  "builder_new K p s = \<lparr>sb_pid = p, sb_registers = None, sb_regions = [], sb_fds = [],
     sb_process_name = process_name K p s, sb_kernel = kernel_version K s\<rparr>"

definition builder_registers :: "registers \<Rightarrow> snapshot_builder \<Rightarrow> snapshot_builder" where
  "builder_registers regs b = b\<lparr>sb_registers := Some regs\<rparr>"

definition builder_memory_regions :: "memory_region list \<Rightarrow> snapshot_builder \<Rightarrow> snapshot_builder" where
  "builder_memory_regions regions b = b\<lparr>sb_regions := regions\<rparr>"

definition builder_file_descriptors :: "file_descriptor list \<Rightarrow> snapshot_builder \<Rightarrow> snapshot_builder" where
  "builder_file_descriptors fds b = b\<lparr>sb_fds := fds\<rparr>"

definition build_metadata ::
    "'k kernel \<Rightarrow> (string \<Rightarrow> u64 option) \<Rightarrow> snapshot_builder \<Rightarrow> 'k \<Rightarrow> snapshot_metadata" where
  "build_metadata K f64_secs b s = \<lparr>machine_hostname = hostname K s,
     meta_process_name = sb_process_name b,
     process_age_seconds = process_age_seconds K f64_secs (sb_pid b) s, thread_count = 1,
     virtual_memory_bytes = vm_size_bytes K (sb_pid b) s,
     resident_memory_bytes = vm_rss_bytes K (sb_pid b) s\<rparr>"

definition builder_build ::
    "'k kernel \<Rightarrow> (string \<Rightarrow> u64 option) \<Rightarrow> string \<Rightarrow> snapshot_builder \<Rightarrow> 'k \<Rightarrow>
     error + pb_fd process_snapshot" where
  "builder_build K f64_secs host_arch b s =
     bind_res (ok_or (Capture_Err RegistersRequired) (sb_registers b)) (\<lambda>regs.
     Inr \<lparr>snap_pid = sb_pid b, snap_uid = get_uid K (sb_pid b) s, snap_arch = host_arch,
       snap_kernel_version = sb_kernel b, captured_at_ns = timestamp_ns K s,
       snap_metadata = Some (build_metadata K f64_secs b s),
       snap_registers = Some (regs_to_proto regs),
       memory_regions = map region_to_proto (sb_regions b),
       file_descriptors = map fd_to_proto (sb_fds b),
       snap_checksum = 0, snapshot_version = ''1.0''\<rparr>)"

end
