(* ===== verification/Capturer.thy ===== *)
theory Capturer
  imports PtraceOps Snapshot
begin

text \<open>
  \<open>capturer.rs\<close>: the capture of a process. \<open>ck\<close> is \<open>MemoryDumper::checksum\<close>, \<open>f64_secs\<close> the
  parser of a floating-point number, and \<open>encode\<close> and \<open>decode\<close> stand for the protobuf codec of
  the crate \<open>prost\<close>. The end of the scope of the \<open>ProcessLock\<close> is written out: everything
  between \<open>attach\<close> and \<open>drop\<close> is \<open>capture_frozen\<close>, and the guard is dropped after it whether
  it succeeded or returned early.
\<close>

section \<open>Definitions\<close>

text \<open>One pass of the loop over the regions: a region that is skipped or unreadable keeps its
  empty data.\<close>

definition capture_region ::
    "'k kernel \<Rightarrow> (u8 list \<Rightarrow> u64) \<Rightarrow> pid \<Rightarrow> memory_region \<Rightarrow> 'k \<Rightarrow> memory_region \<times> 'k" where
  "capture_region K ck p region s =
     (if should_skip region then (region, s)
      else case dump_region K p region s of
          (Inr bs, t) \<Rightarrow> (region\<lparr>mr_checksum := ck bs, mr_data := bs\<rparr>, t)
        | (Inl _, t) \<Rightarrow> (region, t))"

fun capture_regions ::
    "'k kernel \<Rightarrow> (u8 list \<Rightarrow> u64) \<Rightarrow> pid \<Rightarrow> memory_region list \<Rightarrow> 'k \<Rightarrow> memory_region list \<times> 'k" where
  "capture_regions K ck p [] s = ([], s)"
| "capture_regions K ck p (r # rs) s = (case capture_region K ck p r s of (q, t) \<Rightarrow>
     case capture_regions K ck p rs t of (qs, u) \<Rightarrow> (q # qs, u))"

definition retain_captured :: "memory_region list \<Rightarrow> memory_region list" where
  "retain_captured rs = filter (\<lambda>r. mr_data r \<noteq> []) rs"

definition capture_frozen ::
    "'k kernel \<Rightarrow> (u8 list \<Rightarrow> u64) \<Rightarrow> process_lock \<Rightarrow> memory_region list \<Rightarrow>
     ('k, error, registers \<times> memory_region list \<times> file_descriptor list) act" where
  "capture_frozen K ck l regions =
     bind_act (capture_registers K l) (\<lambda>regs s.
     case capture_regions K ck (lock_pid l) regions s of (captured, t) \<Rightarrow>
     bind_act (look (enumerate_fds K (lock_pid l))) (\<lambda>fds.
     ok_act (regs, retain_captured captured, fds)) t)"

definition assemble ::
    "'k kernel \<Rightarrow> (string \<Rightarrow> u64 option) \<Rightarrow> string \<Rightarrow> pid \<Rightarrow>
     registers \<times> memory_region list \<times> file_descriptor list \<Rightarrow> 'k \<Rightarrow> error + pb_fd process_snapshot" where
  "assemble K f64_secs host_arch p parts s = (case parts of (regs, regions, fds) \<Rightarrow>
     builder_build K f64_secs host_arch
       (builder_file_descriptors fds (builder_memory_regions regions
         (builder_registers regs (builder_new K p s)))) s)"

definition capture ::
    "'k kernel \<Rightarrow> (u8 list \<Rightarrow> u64) \<Rightarrow> (string \<Rightarrow> u64 option) \<Rightarrow> string \<Rightarrow> pid \<Rightarrow>
     ('k, error, pb_fd process_snapshot) act" where
  "capture K ck f64_secs host_arch p =
     bind_act (look (\<lambda>_. assert_x86_64 host_arch)) (\<lambda>_.
     bind_act (look (parse_maps K p)) (\<lambda>regions.
     bind_act (lock_attach K p) (\<lambda>process s.
     case capture_frozen K ck process regions s of (r, t) \<Rightarrow>
     bind_act (\<lambda>u. (r, lock_drop K process u)) (\<lambda>parts.
     look (assemble K f64_secs host_arch p parts)) t)))"

definition save ::
    "'k kernel \<Rightarrow> ('fd process_snapshot \<Rightarrow> u8 list) \<Rightarrow> 'fd process_snapshot \<Rightarrow> string \<Rightarrow>
     ('k, error, unit) act" where
  "save K encode snap path =
     try_act (k_write_file K path (encode snap)) (\<lambda>e. Capture_Err (WriteSnapshotFailed path e)) (\<lambda>_.
     ok_act ())"

definition load ::
    "'k kernel \<Rightarrow> (u8 list \<Rightarrow> 'fd process_snapshot option) \<Rightarrow> string \<Rightarrow> 'k \<Rightarrow>
     error + 'fd process_snapshot" where
  "load K decode path s =
     bind_res (map_err (\<lambda>e. Capture_Err (ReadSnapshotFailed path e)) (k_read_file K path s)) (\<lambda>bs.
     ok_or (Capture_Err (DecodeSnapshotFailed path)) (decode bs))"

definition show_hex_0x :: "u64 \<Rightarrow> string" where
  "show_hex_0x w = ''0x'' @ show_radix 16 (unat w)"

definition summary :: "'fd process_snapshot \<Rightarrow> string" where
  "summary snap = (let regs = snap_registers snap in
     ''pid='' @ show_nat (unat (snap_pid snap)) @ '' arch='' @ snap_arch snap @
     '' regions='' @ show_nat (length (memory_regions snap)) @
     '' fds='' @ show_nat (length (file_descriptors snap)) @
     '' rip='' @ show_hex_0x (case regs of None \<Rightarrow> 0 | Some r \<Rightarrow> pr_rip r) @
     '' rsp='' @ show_hex_0x (case regs of None \<Rightarrow> 0 | Some r \<Rightarrow> pr_rsp r))"

section \<open>What the loop over the regions captures\<close>

text \<open>What every region of a captured list satisfies, and what stays of the parsed region.\<close>

definition captured_ok :: "(u8 list \<Rightarrow> u64) \<Rightarrow> memory_region \<Rightarrow> memory_region \<Rightarrow> bool" where
  "captured_ok ck r q \<longleftrightarrow> \<not> should_skip r \<and> mr_checksum q = ck (mr_data q) \<and>
     q = r\<lparr>mr_checksum := mr_checksum q, mr_data := mr_data q\<rparr>"

lemma capture_region_cases:
  assumes "capture_region K ck p r s = (q, t)"
  shows "(q = r \<and> (t = s \<or> (\<exists>e. dump_region K p r s = (Inl e, t)))) \<or>
     (captured_ok ck r q \<and> dump_region K p r s = (Inr (mr_data q), t))"
  using assms by (auto simp: capture_region_def captured_ok_def split: if_splits prod.splits sum.splits)

lemma parse_maps_line_empty: "parse_maps_line l = Inr (Some r) \<Longrightarrow> mr_data r = []"
  by (auto simp: parse_maps_line_def Let_def bind_res_Inr split: if_splits)

lemma parse_lines_empty: "r \<in> set (parse_lines ls) \<Longrightarrow> mr_data r = []"
  by (induction ls) (auto dest: parse_maps_line_empty split: sum.splits option.splits)

lemma parse_maps_empty: "parse_maps K p s = Inr rs \<Longrightarrow> r \<in> set rs \<Longrightarrow> mr_data r = []"
  by (auto simp: parse_maps_def Let_def bind_res_Inr dest: parse_lines_empty)

section \<open>The phases of a capture\<close>

lemma lock_attach_pid: "lock_attach K p s = (Inr l, t) \<Longrightarrow> l = \<lparr>lock_pid = p, lock_detached = False\<rparr>"
  by (auto simp: lock_attach_def split: if_splits)

lemma capture_frozen_phases:
  assumes "capture_frozen K ck l regions s = (Inr (regs, rs, fds), t)"
  obtains u qs where "capture_registers K l s = (Inr regs, u)"
    and "capture_regions K ck (lock_pid l) regions u = (qs, t)" "rs = retain_captured qs"
    and "enumerate_fds K (lock_pid l) t = Inr fds"
  using assms unfolding capture_frozen_def by (auto split: prod.splits)

lemma capture_phases:
  assumes "capture K ck f64_secs host p s = (Inr snap, t)"
  obtains regions l u regs rs fds v where "host = ''x86_64''" "parse_maps K p s = Inr regions"
    and "lock_attach K p s = (Inr l, u)" "capture_frozen K ck l regions u = (Inr (regs, rs, fds), v)"
    and "t = lock_drop K l v" "assemble K f64_secs host p (regs, rs, fds) t = Inr snap"
proof -
  from assms have h: "host = ''x86_64''"
    by (auto simp: capture_def assert_x86_64_def split: if_splits)
  from assms obtain regions l u x v where 1: "parse_maps K p s = Inr regions"
    and 2: "lock_attach K p s = (Inr l, u)" and 3: "capture_frozen K ck l regions u = (x, v)"
    and 4: "bind_act (\<lambda>w. (x, lock_drop K l w)) (\<lambda>parts. look (assemble K f64_secs host p parts)) v = (Inr snap, t)"
    unfolding capture_def by (auto split: prod.splits)
  from 4 obtain parts where "x = Inr parts" "t = lock_drop K l v" "assemble K f64_secs host p parts t = Inr snap"
    by auto
  with h 1 2 3 show ?thesis by (cases parts) (auto intro: that)
qed

lemma assemble_snapshot:
  "assemble K f64_secs host p (regs, rs, fds) s = Inr snap \<Longrightarrow>
     snap_registers snap = Some (regs_to_proto regs) \<and> memory_regions snap = map region_to_proto rs \<and>
     file_descriptors snap = map fd_to_proto fds \<and> snap_arch snap = host \<and> snap_pid snap = p"
  by (auto simp: assemble_def builder_build_def builder_new_def builder_registers_def
      builder_memory_regions_def builder_file_descriptors_def)

section \<open>What a snapshot says of the frozen process\<close>

text \<open>A captured region holds the bytes of the process, in memory and in the message.\<close>

definition holds_bytes :: "child \<Rightarrow> memory_region \<Rightarrow> bool" where
  "holds_bytes c q \<longleftrightarrow>
     length (mr_data q) = unat (region_size q) \<and> bytes_at (c_mem c) (mr_start q) (mr_data q)"

definition region_faithful :: "(u8 list \<Rightarrow> u64) \<Rightarrow> child \<Rightarrow> pb_region \<Rightarrow> bool" where
  "region_faithful ck c r \<longleftrightarrow> data r \<noteq> [] \<and> checksum r = ck (data r) \<and>
     length (data r) = unat (size_bytes r) \<and> bytes_at (c_mem c) (start_addr r) (data r)"

context tracer
begin

lemma capture_registers_effect:
  assumes "capture_registers K l s = (Inr regs, t)"
  shows "cv t (lock_pid l) = cv s (lock_pid l) \<and> registers_validate regs = Inr () \<and>
     regs = registers_of (c_regs (cv s (lock_pid l))) (c_fp (cv s (lock_pid l))) \<and>
     length (c_fp (cv s (lock_pid l))) = FPREGS_SIZE"
proof -
  from assms have f: "from_ptrace K (lock_pid l) s = (Inr regs, t)" and "registers_validate regs = Inr ()"
    unfolding capture_registers_def by auto
  with from_ptrace_effect [OF f] show ?thesis by simp
qed

lemma dump_region_effect:
  assumes "dump_region K p r s = (x, t)"
  shows "cv t p = cv s p"
    and "x = Inr bs \<Longrightarrow> length bs = unat (region_size r) \<and> bytes_at (c_mem (cv s p)) (mr_start r) bs"
proof -
  obtain a u where a: "k_mem_open K False p s = (a, u)" by fastforce
  have 1: "cv u p = cv s p" using mem_open_law [OF a] by blast
  have "cv t p = cv s p \<and>
      (\<forall>bs. x = Inr bs \<longrightarrow> length bs = unat (region_size r) \<and> bytes_at (c_mem (cv s p)) (mr_start r) bs)"
  proof (cases a)
    case (Inl e)
    with assms a 1 show ?thesis by (auto simp: dump_region_def try_act_def Let_def)
  next
    case (Inr h)
    then have h: "memh_pid h = p" using mem_open_law [OF a] by blast
    obtain b v where b: "k_mem_seek K h (mr_start r) u = (b, v)" by fastforce
    have 2: "cv v p = cv s p" using mem_seek_law [OF b] 1 by metis
    show ?thesis
    proof (cases b)
      case (Inl e)
      with assms a b Inr 2 show ?thesis by (auto simp: dump_region_def try_act_def Let_def)
    next
      case b': (Inr h')
      then have h': "h' = Memh p (mr_start r)" using mem_seek_law [OF b] h by blast
      obtain c w where c: "k_mem_read_exact K h' (unat (region_size r)) v = (c, w)" by fastforce
      note law = mem_read_law [OF c [unfolded h'], where q = p]
      from assms a b c Inr b' have "t = w \<and> (\<forall>bs. x = Inr bs \<longrightarrow> c = Inr bs)"
        by (auto simp: dump_region_def try_act_def Let_def ok_act_app split: sum.splits)
      with law 2 show ?thesis by simp
    qed
  qed
  then show "cv t p = cv s p"
    and "x = Inr bs \<Longrightarrow> length bs = unat (region_size r) \<and> bytes_at (c_mem (cv s p)) (mr_start r) bs"
    by auto
qed

lemma capture_region_effect:
  assumes "capture_region K ck p r s = (q, t)"
  shows "cv t p = cv s p" and "q = r \<or> captured_ok ck r q \<and> holds_bytes (cv s p) q"
proof -
  note cases = capture_region_cases [OF assms]
  then show "cv t p = cv s p" using dump_region_effect(1) by metis
  show "q = r \<or> captured_ok ck r q \<and> holds_bytes (cv s p) q"
  proof (cases "q = r")
    case False
    with cases have ok: "captured_ok ck r q" and d: "dump_region K p r s = (Inr (mr_data q), t)" by auto
    from ok have "mr_start q = mr_start r \<and> region_size q = region_size r"
      unfolding captured_ok_def region_size_def by (metis memory_region.select_convs(1,2)
          memory_region.surjective memory_region.update_convs(7,8))
    with ok dump_region_effect(2) [OF d] show ?thesis by (auto simp: holds_bytes_def)
  qed simp
qed

lemma capture_regions_effect:
  assumes "capture_regions K ck p rs s = (qs, t)"
  shows "cv t p = cv s p \<and>
    (\<forall>q \<in> set qs. q \<in> set rs \<or> (\<exists>r \<in> set rs. captured_ok ck r q \<and> holds_bytes (cv s p) q))"
  using assms
proof (induction rs arbitrary: s qs)
  case (Cons r rs)
  then obtain q u qs' where 1: "capture_region K ck p r s = (q, u)"
    and 2: "capture_regions K ck p rs u = (qs', t)" and qs: "qs = q # qs'"
    by (auto split: prod.splits)
  note e = capture_region_effect [OF 1]
  from Cons.IH [OF 2] e show ?case by (auto simp: qs)
qed simp

lemma capture_effect:
  assumes "capture K ck f64_secs host p s = (Inr snap, t)" "lock_attach K p s = (Inr l, u)"
  shows "snap_registers snap =
      Some (regs_to_proto (registers_of (c_regs (cv u p)) (c_fp (cv u p)))) \<and>
    length (c_fp (cv u p)) = FPREGS_SIZE \<and>
    (\<forall>r \<in> set (memory_regions snap). region_faithful ck (cv u p) r)"
proof -
  obtain regions regs rs fds v where maps: "parse_maps K p s = Inr regions"
    and frozen: "capture_frozen K ck l regions u = (Inr (regs, rs, fds), v)"
    and snap: "assemble K f64_secs host p (regs, rs, fds) t = Inr snap"
    using assms by (auto elim!: capture_phases)
  have l: "lock_pid l = p" using lock_attach_pid [OF assms(2)] by simp
  from frozen obtain w qs where r: "capture_registers K l u = (Inr regs, w)"
    and q: "capture_regions K ck p regions w = (qs, v)" and rs: "rs = retain_captured qs"
    unfolding l [symmetric] by (rule capture_frozen_phases)
  note er = capture_registers_effect [OF r, unfolded l]
  note eq = capture_regions_effect [OF q]
  have "region_faithful ck (cv u p) (region_to_proto x)" if "x \<in> set rs" for x
  proof -
    from that have "x \<in> set qs" "mr_data x \<noteq> []" by (auto simp: rs retain_captured_def)
    with eq er parse_maps_empty [OF maps] have "\<exists>y. captured_ok ck y x" "holds_bytes (cv u p) x"
      by auto
    with \<open>mr_data x \<noteq> []\<close> show ?thesis
      by (auto simp: region_faithful_def region_to_proto_def captured_ok_def holds_bytes_def)
  qed
  with assemble_snapshot [OF snap] er show ?thesis by auto
qed

end

section \<open>No readable mapping is lost\<close>

text \<open>A mapping the capture cannot miss: not skipped, in user space, with all its bytes mapped.\<close>

definition capturable :: "child \<Rightarrow> memory_region \<Rightarrow> bool" where
  "capturable c r \<longleftrightarrow> \<not> should_skip r \<and> unat (mr_start r) < 2 ^ 47 \<and>
     mapped (c_mem c) (mr_start r) (unat (region_size r))"

context serving_tracer
begin

lemma dump_region_returns:
  assumes "c_stopped (cv s p)" "capturable (cv s p) r"
  shows "\<exists>bs t. dump_region K p r s = (Inr bs, t)"
proof -
  obtain h s1 where o: "k_mem_open K False p s = (Inr h, s1)"
    using mem_open_live [OF assms(1)] by (rule is_ok_fstE)
  have "unat (mr_start r) < 2 ^ 47" using assms(2) by (simp add: capturable_def)
  from mem_seek_live [OF this] obtain h' s2 where k: "k_mem_seek K h (mr_start r) s1 = (Inr h', s2)"
    by (rule is_ok_fstE)
  from mem_open_law [OF o, of p] mem_seek_law [OF k, of p]
  have h': "h' = Memh p (mr_start r)" and v: "cv s2 p = cv s p" by auto
  have "is_ok (fst (k_mem_read_exact K h' (unat (region_size r)) s2))"
    using mem_read_live [of s2 p] assms by (simp add: h' v capturable_def)
  then obtain bs t where "k_mem_read_exact K h' (unat (region_size r)) s2 = (Inr bs, t)"
    by (rule is_ok_fstE)
  with o k show ?thesis by (simp add: dump_region_def Let_def act_simps)
qed

lemma capture_regions_complete:
  assumes "capture_regions K ck p rs s = (qs, t)" "c_stopped (cv s p)"
    and "r \<in> set rs" "capturable (cv s p) r"
  shows "\<exists>q \<in> set qs. captured_ok ck r q \<and> mr_data q \<noteq> []"
  using assms
proof (induction rs arbitrary: s qs)
  case (Cons x xs)
  then obtain q u qs' where 1: "capture_region K ck p x s = (q, u)"
    and 2: "capture_regions K ck p xs u = (qs', t)" and qs: "qs = q # qs'"
    by (auto split: prod.splits)
  show ?case
  proof (cases "r = x")
    case True
    from dump_region_returns [OF Cons.prems(2,4)] obtain bs v
      where d: "dump_region K p x s = (Inr bs, v)" by (auto simp: True)
    have ns: "\<not> should_skip x" using Cons.prems(4) by (simp add: True capturable_def)
    then have "region_size x \<noteq> 0" by (auto simp: should_skip_def)
    with dump_region_effect(2) [OF d, of bs] have "bs \<noteq> []" by (auto simp: unat_eq_0)
    moreover from 1 d ns have "q = x\<lparr>mr_checksum := ck bs, mr_data := bs\<rparr>"
      by (simp add: capture_region_def)
    ultimately show ?thesis using ns by (auto simp: qs True captured_ok_def)
  next
    case False
    with Cons.prems Cons.IH [OF 2] capture_region_effect(1) [OF 1] show ?thesis by (auto simp: qs)
  qed
qed simp

lemma capture_complete:
  assumes "capture K ck f64_secs host p s = (Inr snap, t)" "lock_attach K p s = (Inr l, u)"
    and "c_stopped (cv u p)" "parse_maps K p s = Inr regions"
    and "r \<in> set regions" "capturable (cv u p) r"
  shows "\<exists>q \<in> set (memory_regions snap). start_addr q = mr_start r \<and> end_addr q = mr_end r \<and>
     permissions q = mr_perms r \<and> length (data q) = unat (region_size r)"
proof -
  obtain regs rs fds v where frozen: "capture_frozen K ck l regions u = (Inr (regs, rs, fds), v)"
    and snap: "assemble K f64_secs host p (regs, rs, fds) t = Inr snap"
    using assms by (auto elim!: capture_phases)
  have l: "lock_pid l = p" using lock_attach_pid [OF assms(2)] by simp
  from frozen obtain w qs where 1: "capture_registers K l u = (Inr regs, w)"
    and q: "capture_regions K ck p regions w = (qs, v)" and rs: "rs = retain_captured qs"
    unfolding l [symmetric] by (rule capture_frozen_phases)
  have "cv w p = cv u p" using capture_registers_effect [OF 1] by (simp add: l)
  with capture_regions_complete [OF q] assms obtain x
    where x: "x \<in> set qs" "captured_ok ck r x" "mr_data x \<noteq> []" by auto
  then have x': "x = r\<lparr>mr_checksum := mr_checksum x, mr_data := mr_data x\<rparr>"
    unfolding captured_ok_def by blast
  have f: "mr_start x = mr_start r" "mr_end x = mr_end r" "mr_perms x = mr_perms r"
    by (subst x', simp)+
  have m: "region_to_proto x \<in> set (memory_regions snap)"
    using x assemble_snapshot [OF snap] by (auto simp: rs retain_captured_def)
  with capture_effect [OF assms(1,2)] have "region_faithful ck (cv u p) (region_to_proto x)" by blast
  with m f show ?thesis
    by (intro bexI [OF _ m]) (simp add: region_faithful_def region_to_proto_def region_size_def)
qed

end

end
