(* ===== verification/Cli.thy ===== *)
theory Cli
  imports Capturer Restorer
begin

text \<open>
  The two programs, \<open>main.rs\<close> and \<open>bin/restorer.rs\<close>. A command of \<open>wraith-capturer\<close> returns the
  lines it prints; the programs return their exit status, what they print on the two streams,
  in order, and the state they leave. Logging is left out; sums of sizes wrap, as in a release
  build. \<open>text\<close> is the text of an error and \<open>dbg\<close> the \<open>Debug\<close> form of a string, which depend on the
  crates \<open>anyhow\<close> and \<open>nix\<close> and on the tables of Unicode.
\<close>

section \<open>Formatting\<close>

text \<open>A line on the standard output or on the standard error stream.\<close>

datatype out_line = Out string | Err string

text \<open>\<open>eprintln!("error: {:#}", e)\<close>.\<close>

definition error_line :: "(error \<Rightarrow> string) \<Rightarrow> error \<Rightarrow> out_line" where
  "error_line text e = Err (''error: '' @ text e)"

text \<open>\<open>{:#018x}\<close> and \<open>{:<n}\<close>.\<close>

definition fmt_addr :: "u64 \<Rightarrow> string" where
  "fmt_addr w = (let h = show_radix 16 (unat w) in ''0x'' @ replicate (16 - length h) CHR ''0'' @ h)"

definition pad_right :: "nat \<Rightarrow> string \<Rightarrow> string" where
  "pad_right n s = s @ replicate (n - length s) CHR '' ''"

definition show_word :: "'a::len word \<Rightarrow> string" where
  "show_word w = show_nat (unat w)"

definition total_mb :: "'fd process_snapshot \<Rightarrow> u64" where
  "total_mb snap = sum_list (map size_bytes (memory_regions snap)) div 1024 div 1024"

section \<open>wraith-capturer\<close>

definition reg_or_0 :: "(pb_registers \<Rightarrow> u64) \<Rightarrow> 'fd process_snapshot \<Rightarrow> u64" where
  "reg_or_0 f snap = (case snap_registers snap of None \<Rightarrow> 0 | Some r \<Rightarrow> f r)"

definition capture_report :: "string \<Rightarrow> 'fd process_snapshot \<Rightarrow> string list" where
  "capture_report output snap = [
     ''Snapshot saved: '' @ output,
     ''  pid        : '' @ show_word (snap_pid snap),
     ''  name       : '' @ (case snap_metadata snap of None \<Rightarrow> ''?'' | Some m \<Rightarrow> meta_process_name m),
     ''  arch       : '' @ snap_arch snap,
     ''  kernel     : '' @ snap_kernel_version snap,
     ''  rip        : '' @ fmt_addr (reg_or_0 pr_rip snap),
     ''  rsp        : '' @ fmt_addr (reg_or_0 pr_rsp snap),
     ''  regions    : '' @ show_nat (length (memory_regions snap)),
     ''  fds        : '' @ show_nat (length (file_descriptors snap)),
     ''  memory     : '' @ show_word (total_mb snap) @ '' MB captured'']"

definition cmd_capture ::
    "'k kernel \<Rightarrow> (u8 list \<Rightarrow> u64) \<Rightarrow> (string \<Rightarrow> u64 option) \<Rightarrow> string \<Rightarrow>
     (pb_fd process_snapshot \<Rightarrow> u8 list) \<Rightarrow> pid \<Rightarrow> string \<Rightarrow> ('k, error, string list) act" where
  "cmd_capture K ck f64_secs host_arch encode p output =
     bind_act (capture K ck f64_secs host_arch p) (\<lambda>snap.
     bind_act (save K encode snap output) (\<lambda>_.
     ok_act (capture_report output snap)))"

definition cmd_resume :: "'k kernel \<Rightarrow> pid \<Rightarrow> ('k, error, string list) act" where
  "cmd_resume K p s =
     (if \<not> pid_exists K p s then fail_act (err_process_not_found p) s
      else bind_act (lock_attach K p) (\<lambda>lock u. case lock_detach K lock u of
          (r, lock, t) \<Rightarrow>
            (bind_res r (\<lambda>_. Inr [''Process '' @ show_pid p @ '' resumed.'']), lock_drop K lock t)) s)"

definition reg_row :: "string \<Rightarrow> u64 \<Rightarrow> string \<Rightarrow> u64 \<Rightarrow> string" where
  "reg_row n v m w = ''    '' @ pad_right 6 n @ '' '' @ fmt_addr v @ ''    '' @ pad_right 6 m @ '' '' @ fmt_addr w"

definition inspect_registers :: "pb_registers \<Rightarrow> string list" where
  "inspect_registers r = [
     [], ''  Registers:'',
     reg_row ''rip'' (pr_rip r) ''rsp'' (pr_rsp r), reg_row ''rax'' (pr_rax r) ''rbx'' (pr_rbx r),
     reg_row ''rcx'' (pr_rcx r) ''rdx'' (pr_rdx r), reg_row ''rdi'' (pr_rdi r) ''rsi'' (pr_rsi r),
     reg_row ''rbp'' (pr_rbp r) ''rflags'' (pr_rflags r), reg_row ''r8'' (pr_r8 r) ''r9'' (pr_r9 r),
     reg_row ''r10'' (pr_r10 r) ''r11'' (pr_r11 r), reg_row ''r12'' (pr_r12 r) ''r13'' (pr_r13 r),
     reg_row ''r14'' (pr_r14 r) ''r15'' (pr_r15 r),
     ''    cs '' @ show_hex_0x (pr_cs r) @ ''  ss '' @ show_hex_0x (pr_ss r) @
       ''  fs_base '' @ show_hex_0x (pr_fs_base r),
     ''    fpu: '' @ show_nat (length (pr_fpu_state r)) @ '' bytes'']"

definition inspect_metadata :: "snapshot_metadata \<Rightarrow> string list" where
  "inspect_metadata m = [
     ''  process name   : '' @ meta_process_name m, ''  hostname       : '' @ machine_hostname m,
     ''  vmsize         : '' @ show_word (virtual_memory_bytes m div 1024 div 1024) @ '' MB'',
     ''  vmrss          : '' @ show_word (resident_memory_bytes m div 1024 div 1024) @ '' MB'']"

definition inspect_region :: "pb_region \<Rightarrow> string" where
  "inspect_region r = ''  '' @ fmt_addr (start_addr r) @ ''  '' @
     pad_right 10 (show_word (size_bytes r div 1024) @ '' KB'') @ '' '' @
     pad_right 6 (permissions r) @ '' '' @ pad_right 12 (region_type r) @ '' '' @
     (if backing_file r = [] then ''(anon)'' else backing_file r)"

definition inspect_fd :: "pb_fd \<Rightarrow> string" where
  "inspect_fd f = ''  '' @ pad_right 6 (show_word (pf_num f)) @ '' '' @ pad_right 10 (pf_type f) @ '' '' @
     pad_right 10 (show_word (pf_offset f)) @ '' '' @ pf_path f"

definition inspect_report :: "string \<Rightarrow> bool \<Rightarrow> bool \<Rightarrow> pb_fd process_snapshot \<Rightarrow> string list" where
  "inspect_report path show_regions show_fds s =
     [''Snapshot: '' @ path,
      ''  pid            : '' @ show_word (snap_pid s),
      ''  arch           : '' @ snap_arch s,
      ''  kernel         : '' @ snap_kernel_version s,
      ''  captured_at_ns : '' @ show_word (captured_at_ns s),
      ''  version        : '' @ snapshot_version s] @
     (case snap_metadata s of None \<Rightarrow> [] | Some m \<Rightarrow> inspect_metadata m) @
     (case snap_registers s of None \<Rightarrow> [] | Some r \<Rightarrow> inspect_registers r) @
     [[], ''  Memory regions : '' @ show_nat (length (memory_regions s)),
      ''  Total memory   : '' @ show_word (total_mb s) @ '' MB''] @
     (if show_regions then
        [[], ''  '' @ pad_right 20 ''Start'' @ '' '' @ pad_right 10 ''Size'' @ '' '' @
           pad_right 6 ''Perms'' @ '' '' @ pad_right 12 ''Type'' @ '' Backing''] @
        map inspect_region (memory_regions s)
      else []) @
     [[], ''  File descriptors: '' @ show_nat (length (file_descriptors s))] @
     (if show_fds then
        [[], ''  '' @ pad_right 6 ''FD'' @ '' '' @ pad_right 10 ''Type'' @ '' '' @
           pad_right 10 ''Offset'' @ '' Path''] @
        map inspect_fd (file_descriptors s)
      else [])"

definition cmd_inspect ::
    "'k kernel \<Rightarrow> (u8 list \<Rightarrow> pb_fd process_snapshot option) \<Rightarrow> string \<Rightarrow> bool \<Rightarrow> bool \<Rightarrow>
     ('k, error, string list) act" where
  "cmd_inspect K decode path show_regions show_fds =
     bind_act (look (load K decode path)) (\<lambda>s.
     ok_act (inspect_report path show_regions show_fds s))"

datatype command =
    Capture pid string
  | Resume pid
  | Inspect string bool bool

definition capturer_command ::
    "'k kernel \<Rightarrow> (u8 list \<Rightarrow> u64) \<Rightarrow> (string \<Rightarrow> u64 option) \<Rightarrow> string \<Rightarrow>
     (pb_fd process_snapshot \<Rightarrow> u8 list) \<Rightarrow> (u8 list \<Rightarrow> pb_fd process_snapshot option) \<Rightarrow>
     command \<Rightarrow> ('k, error, string list) act" where
  "capturer_command K ck f64_secs host_arch encode decode cmd = (case cmd of
       Capture p output \<Rightarrow> cmd_capture K ck f64_secs host_arch encode p output
     | Resume p \<Rightarrow> cmd_resume K p
     | Inspect path show_regions show_fds \<Rightarrow> cmd_inspect K decode path show_regions show_fds)"

definition capturer_main ::
    "'k kernel \<Rightarrow> (u8 list \<Rightarrow> u64) \<Rightarrow> (string \<Rightarrow> u64 option) \<Rightarrow> string \<Rightarrow>
     (pb_fd process_snapshot \<Rightarrow> u8 list) \<Rightarrow> (u8 list \<Rightarrow> pb_fd process_snapshot option) \<Rightarrow>
     (error \<Rightarrow> string) \<Rightarrow> command \<Rightarrow> 'k \<Rightarrow> (nat \<times> out_line list) \<times> 'k" where
  "capturer_main K ck f64_secs host_arch encode decode text cmd s =
     (case capturer_command K ck f64_secs host_arch encode decode cmd s of
        (Inr printed, t) \<Rightarrow> ((0, map Out printed), t)
      | (Inl e, t) \<Rightarrow> ((1, [error_line text e]), t))"

section \<open>wraith-restorer\<close>

definition em_dash :: string where
  "em_dash = [CHR 0xE2, CHR 0x80, CHR 0x94]"

text \<open>The reasons \<open>fd_restore.rs\<close> gives for skipping a descriptor.\<close>

fun reason_text :: "(string \<Rightarrow> string) \<Rightarrow> skip_reason \<Rightarrow> string" where
  "reason_text dbg (PipeNotRestored path) =
     ''pipe FDs cannot be restored across machines in v1 (path: '' @ dbg path @ '') '' @ em_dash @
     '' app must reopen''"
| "reason_text dbg (SocketNotRestored path) =
     ''socket FDs not restored in v1 (path: '' @ dbg path @ '') '' @ em_dash @ '' planned for Phase 8.2''"
| "reason_text dbg (DeviceNotRestored n path) =
     ''device FD '' @ show_word n @ '' ('' @ dbg path @ '') not restored '' @ em_dash @
     '' device may not exist on destination''"
| "reason_text dbg (UnknownFdType n) =
     ''unknown FD type for FD '' @ show_word n @ '' '' @ em_dash @ '' skipping''"
| "reason_text dbg RegularWithoutPath = ''regular file FD has no path (deleted or anonymous)''"
| "reason_text dbg DirectoryWithoutPath = ''directory FD has no path''"

definition completion_lines :: "restore_result \<Rightarrow> out_line list" where
  "completion_lines result = (let rep = fd_report result;
       restored = length (rr_restored rep); skipped = length (rr_skipped rep); failed = length (rr_failed rep)
     in [Out [], Out ''Restore complete:'',
         Out (''  restored pid  : '' @ show_pid (res_pid result)),
         Out (''  regions mapped: '' @ show_nat (regions_ok result)),
         Out (''  fds restored  : '' @ show_nat restored @ '' / '' @ show_nat (restored + skipped + failed) @
           '' (skipped: '' @ show_nat skipped @ '', failed: '' @ show_nat failed @ '')'')])"

text \<open>The two loops print only outcomes of the constructor they expect.\<close>

definition skipped_lines :: "(string \<Rightarrow> string) \<Rightarrow> restore_report \<Rightarrow> out_line list" where
  "skipped_lines dbg rep = (if rr_skipped rep = [] then []
     else [Out [], Out ''  Skipped FDs (non-fatal):''] @
       concat (map (\<lambda>outcome. case outcome of
           Skipped n reason \<Rightarrow> [Out (''    fd '' @ show_word n @ '': '' @ reason_text dbg reason)]
         | _ \<Rightarrow> []) (rr_skipped rep)))"

definition failed_lines :: "(error \<Rightarrow> string) \<Rightarrow> restore_report \<Rightarrow> out_line list" where
  "failed_lines text rep = (if has_failures rep
     then [Err [], Err (''  WARNING: '' @ show_nat (length (rr_failed rep)) @ '' FD(s) failed to restore:'')] @
       concat (map (\<lambda>outcome. case outcome of
           Failed n e \<Rightarrow> [Err (''    fd '' @ show_word n @ '': '' @ text e)]
         | _ \<Rightarrow> []) (rr_failed rep))
     else [])"

definition abort_line :: "pid \<Rightarrow> out_line" where
  "abort_line p = Err (''Aborting due to --strict-fds (process '' @ show_pid p @ '' is still running)'')"

definition running_lines :: "pid \<Rightarrow> out_line list" where
  "running_lines p = [Out [], Out (''Process '' @ show_pid p @ '' is now running on this machine.'')]"

text \<open>The end of \<open>run\<close>: it returns, or it leaves the program by \<open>std::process::exit\<close>.\<close>

datatype run_end = Returned restore_result | ProcessExit nat

definition run ::
    "'k kernel \<Rightarrow> (u8 list \<Rightarrow> u64) \<Rightarrow> string \<Rightarrow> (u8 list \<Rightarrow> fd_spec process_snapshot option) \<Rightarrow>
     (error \<Rightarrow> string) \<Rightarrow> (string \<Rightarrow> string) \<Rightarrow> string \<Rightarrow> bool \<Rightarrow>
     ('k, error, out_line list \<times> run_end) act" where
  "run K ck host_arch decode text dbg snapshot strict_fds =
     bind_act (look (load K decode snapshot)) (\<lambda>snap.
     bind_act (restore K ck host_arch snap) (\<lambda>result.
     let report = completion_lines result @ skipped_lines dbg (fd_report result) @
           failed_lines text (fd_report result)
     in if has_failures (fd_report result) \<and> strict_fds
        then ignore_act (k_kill K (res_pid result) SIGKILL)
          (ok_act (report @ [abort_line (res_pid result)], ProcessExit 2))
        else ok_act (report @ running_lines (res_pid result), Returned result)))"

definition restorer_main ::
    "'k kernel \<Rightarrow> (u8 list \<Rightarrow> u64) \<Rightarrow> string \<Rightarrow> (u8 list \<Rightarrow> fd_spec process_snapshot option) \<Rightarrow>
     (error \<Rightarrow> string) \<Rightarrow> (string \<Rightarrow> string) \<Rightarrow> string \<Rightarrow> bool \<Rightarrow> 'k \<Rightarrow> (nat \<times> out_line list) \<times> 'k" where
  "restorer_main K ck host_arch decode text dbg snapshot strict_fds s =
     (case run K ck host_arch decode text dbg snapshot strict_fds s of
        (Inr (printed, Returned _), t) \<Rightarrow> ((0, printed), t)
      | (Inr (printed, ProcessExit n), t) \<Rightarrow> ((n, printed), t)
      | (Inl e, t) \<Rightarrow> ((1, [error_line text e]), t))"

end
