(* ===== verification/Capturing.thy ===== *)
theory Capturing
  imports Machine Cli
begin

text \<open>
  The properties of the capture side: the tables of the kernel are read back as they were
  printed, a snapshot says only what is true of the frozen process, and the process is released
  on every path. The last section is about the two programs.
\<close>

section \<open>A process to capture\<close>

definition source_child :: child where
  "source_child = \<lparr>c_stopped = False,
     c_regs = (gp_of_proto (sample_registers 0x10000 0x20800 []))\<lparr>ur_orig_rax := 35\<rparr>,
     c_fp = replicate 512 0,
     c_mem = map_pages (\<lambda>_. None) 0x10000 0x1000 7, c_fds = (\<lambda>_. None)\<rparr>"

definition source_entry :: maps_entry where
  "source_entry = \<lparr>me_start = 0x10000, me_end = 0x10004, me_perms = ''rwxp'', me_offset = 0,
     me_dev = ''00:00'', me_inode = ''0'', me_padding = 3, me_name = ''[heap]''\<rparr>"

definition source_fdinfo :: string where
  "source_fdinfo = show_fdinfo 4096 0x8002 [''mnt_id: 25'']"

definition source_machine :: machine where
  "source_machine = sample_machine
     \<lparr>mc_child := source_child,
      mc_text := (\<lambda>path. if path = ''/proc/7/maps'' then Some (show_maps [source_entry])
        else if path = ''/proc/7/fdinfo/1'' then Some source_fdinfo else None),
      mc_dirs := (\<lambda>path. if path = ''/proc/7'' then Some []
        else if path = ''/proc/7/fd'' then Some [''1'', ''0''] else None),
      mc_links := (\<lambda>path. if path = ''/proc/7/fd/0'' then Some ''socket:[9]''
        else if path = ''/proc/7/fd/1'' then Some ''/memfd:buffer (deleted)'' else None)\<rparr>"

lemma proc_7: "proc_file 7 f = ''/proc/7/'' @ f"
proof -
  have "show_pid 7 = ''7''" by code_simp
  then show ?thesis by (simp add: proc_file_def proc_dir_def)
qed

definition no_secs :: "string \<Rightarrow> u64 option" where
  "no_secs s = None"

abbreviation sample_capture :: "(error + pb_fd process_snapshot) \<times> machine" where
  "sample_capture \<equiv> capture machine_kernel sum_ck no_secs ''x86_64'' 7 source_machine"

lemma sample_attach:
  "lock_attach machine_kernel 7 source_machine = (Inr \<lparr>lock_pid = 7, lock_detached = False\<rparr>,
     source_machine\<lparr>mc_child := source_child\<lparr>c_stopped := True\<rparr>, mc_status := Stopped SIGSTOP\<rparr>)"
proof -
  have "show_pid 7 = ''7''" by code_simp
  then show ?thesis
    by (simp add: lock_attach_def pid_exists_def proc_dir_def machine_kernel_def mk_exists_def
        mk_attach_def mk_waitpid_def source_machine_def sample_machine_def act_simps)
qed

abbreviation frozen_machine :: machine where
  "frozen_machine \<equiv> source_machine
     \<lparr>mc_child := source_child\<lparr>c_stopped := True\<rparr>, mc_status := Stopped SIGSTOP\<rparr>"

lemma source_entry_ok: "entry_ok source_entry"
  by code_simp

lemma sample_maps: "parse_maps machine_kernel 7 source_machine = Inr [region_of_entry source_entry]"
  using parse_maps_table [of machine_kernel 7 source_machine "[source_entry]"]
  by (simp add: source_entry_ok proc_7 machine_kernel_def mk_read_to_string_def source_machine_def)

definition sample_registers_captured :: registers where
  "sample_registers_captured = registers_of (c_regs source_child) (replicate 512 0)"

lemma sample_capture_registers:
  "capture_registers machine_kernel \<lparr>lock_pid = 7, lock_detached = False\<rparr> frozen_machine =
     (Inr sample_registers_captured, frozen_machine)"
proof -
  have "registers_validate sample_registers_captured = Inr ()"
    by (simp add: registers_validate_ok sample_registers_captured_def registers_of_def
        source_child_def gp_of_proto_def sample_registers_def)
  then show ?thesis
    by (simp add: capture_registers_def from_ptrace_def act_simps machine_kernel_def mk_defs
        on_stopped_def source_machine_def sample_machine_def source_child_def FPREGS_SIZE_def
        sample_registers_captured_def)
qed

definition sample_captured_region :: memory_region where
  "sample_captured_region =
     (region_of_entry source_entry)\<lparr>mr_data := [0, 0, 0, 0], mr_checksum := 0\<rparr>"

lemma sample_capture_regions:
  "capture_regions machine_kernel sum_ck 7 [region_of_entry source_entry] frozen_machine =
     ([sample_captured_region], frozen_machine)"
proof -
  have e: "should_skip (region_of_entry source_entry) = False" by code_simp
  have z: "region_size (region_of_entry source_entry) = 4" "mr_start (region_of_entry source_entry) = 0x10000"
    by (simp_all add: region_size_def region_of_entry_def source_entry_def)
  have m: "mapped (map_pages (\<lambda>_. None) 0x10000 0x1000 7) 0x10000 4"
    "read_bytes (map_pages (\<lambda>_. None) 0x10000 0x1000 7) 0x10000 4 = [0, 0, 0, 0]"
    by code_simp+
  have "dump_region machine_kernel 7 (region_of_entry source_entry) frozen_machine =
      (Inr [0, 0, 0, 0], frozen_machine)"
    using m by (simp add: dump_region_def Let_def act_simps z machine_kernel_def mk_defs on_stopped_def
        source_machine_def sample_machine_def source_child_def)
  then show ?thesis
    by (simp add: capture_region_def e sample_captured_region_def sum_ck_def)
qed

lemma sample_fds: "\<exists>fds. enumerate_fds machine_kernel 7 frozen_machine = Inr fds"
  by (simp add: enumerate_fds_def Let_def proc_7 machine_kernel_def mk_read_dir_def
      source_machine_def sample_machine_def)

lemma sample_frozen: "\<exists>fds. capture_frozen machine_kernel sum_ck \<lparr>lock_pid = 7, lock_detached = False\<rparr>
    [region_of_entry source_entry] frozen_machine =
  (Inr (sample_registers_captured, [sample_captured_region], fds), frozen_machine)"
proof -
  have "retain_captured [sample_captured_region] = [sample_captured_region]"
    by (simp add: retain_captured_def sample_captured_region_def)
  then show ?thesis
    using sample_fds
    by (auto simp: capture_frozen_def act_simps sample_capture_registers sample_capture_regions
        simp del: capture_regions.simps)
qed

lemma sample_run: "\<exists>snap t. sample_capture = (Inr snap, t) \<and>
    memory_regions snap = [region_to_proto sample_captured_region]"
proof -
  obtain fds where f: "capture_frozen machine_kernel sum_ck \<lparr>lock_pid = 7, lock_detached = False\<rparr>
      [region_of_entry source_entry] frozen_machine =
      (Inr (sample_registers_captured, [sample_captured_region], fds), frozen_machine)"
    using sample_frozen by blast
  have "\<exists>snap. assemble machine_kernel no_secs ''x86_64'' 7
      (sample_registers_captured, [sample_captured_region], fds) t = Inr snap \<and>
      memory_regions snap = [region_to_proto sample_captured_region]" for t
    by (simp add: assemble_def builder_build_def builder_registers_def builder_memory_regions_def
        builder_file_descriptors_def)
  then show ?thesis
    by (auto simp: capture_def assert_x86_64_def act_simps sample_maps sample_attach f)
qed

section \<open>Reading the tables of the kernel\<close>

text \<open>C32: Printing and parsing a memory map is the identity: from a table in the kernel's format
  (hexadecimal addresses with leading zeros, padded names that may contain blanks) every
  mapping is read back with its addresses, permissions, offset and name, in order, and
  classified by its name.\<close>

theorem maps_table_roundtrip:
  assumes "k_read_to_string K (proc_file p ''maps'') s = Inr (show_maps ms)" "list_all entry_ok ms"
  shows "parse_maps K p s = Inr (map region_of_entry ms)"
  using assms by (rule parse_maps_table)

lemma maps_table_roundtrip_witness:
  "parse_maps machine_kernel 7 source_machine = Inr [region_of_entry source_entry]"
proof -
  have "k_read_to_string machine_kernel (proc_file 7 ''maps'') source_machine = Inr (show_maps [source_entry])"
    by (simp add: proc_7 machine_kernel_def mk_read_to_string_def source_machine_def)
  from maps_table_roundtrip [OF this] show ?thesis by (simp add: source_entry_ok)
qed

text \<open>The offset and the flags of a descriptor are read back from the kernel's \<open>fdinfo\<close>
  exactly, the flags from octal, whatever other lines follow.\<close>

theorem fdinfo_roundtrip:
  assumes "k_read_to_string K (fdinfo_path p n) s = Inr (show_fdinfo pos flags rest)"
    and "flags < 2 ^ 31" "list_all other_line rest"
  shows "read_fdinfo K p n s = Inr (pos, of_nat flags)"
  using assms by (rule read_fdinfo_shown)

lemma fdinfo_roundtrip_witness: "read_fdinfo machine_kernel 7 1 source_machine = Inr (4096, 0x8002)"
proof -
  have "fdinfo_path 7 1 = ''/proc/7/fdinfo/1''" by code_simp
  then have f: "k_read_to_string machine_kernel (fdinfo_path 7 1) source_machine = Inr source_fdinfo"
    by (simp add: machine_kernel_def mk_read_to_string_def source_machine_def)
  have "list_all other_line [''mnt_id: 25'']" by code_simp
  from fdinfo_roundtrip [OF f [unfolded source_fdinfo_def] _ this] show ?thesis by simp
qed

text \<open>The captured descriptors are those of the directory whose link can be read, sorted by
  number; descriptors of equal number keep the order of the directory.\<close>

theorem enumerate_fds_sorted:
  assumes "k_read_dir K (proc_file p ''fd'') s = Inr entries"
  shows "\<exists>fds. enumerate_fds K p s = Inr fds \<and> sorted (map fd_fd fds) \<and>
     (\<forall>n. filter (\<lambda>f. fd_fd f = n) fds = filter (\<lambda>f. fd_fd f = n) (read_fd_entries K p entries s)) \<and>
     (\<forall>fd \<in> set fds. \<exists>name. Inr name \<in> set entries \<and> u32_from_str_radix 10 name = Some (fd_fd fd) \<and>
        k_read_link K (proc_file p (''fd/'' @ name)) s = Inr (fd_path fd))"
  using assms by (rule enumerate_fds_spec)

lemma enumerate_fds_sorted_witness:
  "\<exists>fds. enumerate_fds machine_kernel 7 source_machine = Inr fds \<and> sorted (map fd_fd fds)"
proof -
  have "k_read_dir machine_kernel (proc_file 7 ''fd'') source_machine = Inr [Inr ''1'', Inr ''0'']"
    by (simp add: proc_7 machine_kernel_def mk_read_dir_def source_machine_def)
  from enumerate_fds_sorted [OF this] show ?thesis by auto
qed

text \<open>An anonymous memory file is captured as a regular file, because its link begins with a
  slash (the comment of \<open>FdType::Other\<close> lists it among the others).\<close>

lemma memfd_captured_as_regular:
  assumes "unwrap_or False (k_is_dir K (''/memfd:'' @ name) s) = False"
  shows "classify_fd K (''/memfd:'' @ name) s = FdRegular \<and>
     is_restorable \<lparr>fd_fd = n, fd_fd_type = classify_fd K (''/memfd:'' @ name) s,
       fd_path = ''/memfd:'' @ name, fd_offset = pos, fd_flags = flags\<rparr>"
  using assms by (simp add: classify_fd_def is_restorable_def)

end
