(* ===== verification/Lifecycle.thy ===== *)
theory Lifecycle
  imports Cli
begin

text \<open>
  The life cycle of a traced process as a step relation: the steps are the operations of the
  guard \<open>ProcessLock\<close> (\<open>ptrace_ops.rs\<close>), the loop that reads memory under it
  (\<open>capturer.rs\<close>), and what happens to the process besides: it runs whenever it is not stopped, it
  can be killed at any time, and whoever shares its memory and its descriptors can change them. The
  invariant of the reachable states says when the process is frozen; \<open>capture\<close> and \<open>cmd_resume\<close>
  are paths of the relation.
\<close>

section \<open>States and steps\<close>

text \<open>Who is responsible for the process: nobody, a guard, or nobody although it was attached,
  after a failed wait. The third state is the one that \<open>attach\<close> leaves with its last error. Beside
  the guard stands what the guard does not know: whether the process is there at all. It is not if
  it ended before the wait, whose status \<open>attach\<close> ignores, or if it has been killed since.\<close>

datatype custody = Free | Held process_lock bool | Lost

fun after_attach_error :: "error \<Rightarrow> custody" where
  "after_attach_error (Capture_Err (WaitAfterAttachFailed p e)) = Lost"
| "after_attach_error e = Free"

fun ended :: "custody \<Rightarrow> custody" where
  "ended (Held l a) = Held l False"
| "ended g = g"

definition attach_stopped :: "'k kernel \<Rightarrow> pid \<Rightarrow> 'k \<Rightarrow> bool" where
  "attach_stopped K p s =
     (case fst (k_waitpid K p (snd (k_attach K p s))) of Inr (Stopped sig) \<Rightarrow> True | _ \<Rightarrow> False)"

text \<open>\<open>alone\<close>: the process has a single thread and shares neither memory nor descriptors, which is
  what the programs are for. The step of the others is possible only where it is not.\<close>

inductive guard_step ::
    "'k kernel \<Rightarrow> ('k \<Rightarrow> pid \<Rightarrow> child) \<Rightarrow> (u8 list \<Rightarrow> u64) \<Rightarrow> bool \<Rightarrow> pid \<Rightarrow>
     custody \<times> 'k \<Rightarrow> custody \<times> 'k \<Rightarrow> bool"
  for K :: "'k kernel" and cv ck alone p where
  step_attach: "lock_attach K p s = (Inr l, t) \<Longrightarrow>
     guard_step K cv ck alone p (Free, s) (Held l (attach_stopped K p s), t)"
| step_attach_error:
    "lock_attach K p s = (Inl e, t) \<Longrightarrow> guard_step K cv ck alone p (Free, s) (after_attach_error e, t)"
| step_registers:
    "capture_registers K l s = (r, t) \<Longrightarrow> guard_step K cv ck alone p (Held l a, s) (Held l a, t)"
| step_regions:
    "capture_regions K ck (lock_pid l) rs s = (qs, t) \<Longrightarrow>
     guard_step K cv ck alone p (Held l a, s) (Held l a, t)"
| step_detach: "lock_detach K l s = (r, l', t) \<Longrightarrow> guard_step K cv ck alone p (Held l a, s) (Held l' a, t)"
| step_drop: "guard_step K cv ck alone p (Held l a, s) (Free, lock_drop K l s)"
| step_runs:
    "\<not> c_stopped (cv s p) \<Longrightarrow> \<not> c_stopped (cv t p) \<Longrightarrow> guard_step K cv ck alone p (g, s) (g, t)"
| step_killed: "\<not> c_stopped (cv t p) \<Longrightarrow> guard_step K cv ck alone p (g, s) (ended g, t)"
| step_others:
    "\<not> alone \<Longrightarrow> cv t p = (cv s p)\<lparr>c_mem := m, c_fds := fds\<rparr> \<Longrightarrow> guard_step K cv ck alone p (g, s) (g, t)"

inductive_simps guard_step_Lost: "guard_step K cv ck alone p (Lost, s) (g, t)"
inductive_cases guard_step_FreeE: "guard_step K cv ck alone p (Free, s) (g, t)"

abbreviation guard_run ::
    "'k kernel \<Rightarrow> ('k \<Rightarrow> pid \<Rightarrow> child) \<Rightarrow> (u8 list \<Rightarrow> u64) \<Rightarrow> bool \<Rightarrow> pid \<Rightarrow>
     custody \<times> 'k \<Rightarrow> custody \<times> 'k \<Rightarrow> bool" where
  "guard_run K cv ck alone p \<equiv> (guard_step K cv ck alone p)\<^sup>*\<^sup>*"

text \<open>The process is under a guard that has not been released.\<close>

fun under_guard :: "custody \<Rightarrow> bool" where
  "under_guard (Held l a) = (\<not> lock_detached l)"
| "under_guard _ = False"

fun custody_ok :: "pid \<Rightarrow> child \<Rightarrow> custody \<Rightarrow> bool" where
  "custody_ok p c Free = (\<not> c_stopped c)"
| "custody_ok p c (Held l a) = (lock_pid l = p \<and> c_stopped c = (a \<and> \<not> lock_detached l))"
| "custody_ok p c Lost = True"

text \<open>A stay under the guard: steps that do not release it.\<close>

abbreviation guard_stay ::
    "'k kernel \<Rightarrow> ('k \<Rightarrow> pid \<Rightarrow> child) \<Rightarrow> (u8 list \<Rightarrow> u64) \<Rightarrow> bool \<Rightarrow> pid \<Rightarrow>
     custody \<times> 'k \<Rightarrow> custody \<times> 'k \<Rightarrow> bool" where
  "guard_stay K cv ck alone p \<equiv> (\<lambda>x y. guard_step K cv ck alone p x y \<and> under_guard (fst y))\<^sup>*\<^sup>*"

text \<open>A process that is frozen keeps its registers, and everything that it does not share.\<close>

definition unmoved :: "bool \<Rightarrow> child \<Rightarrow> child \<Rightarrow> bool" where
  "unmoved alone c d \<longleftrightarrow> c_regs d = c_regs c \<and> c_fp d = c_fp c \<and> (alone \<longrightarrow> d = c)"

section \<open>The invariant\<close>

context tracer
begin

lemma capture_registers_keeps:
  assumes "capture_registers K l s = (r, t)"
  shows "cv t (lock_pid l) = cv s (lock_pid l)"
proof -
  obtain x u where x: "from_ptrace K (lock_pid l) s = (x, u)" by fastforce
  with assms have "t = u"
    by (auto simp: capture_registers_def bind_act_def split: sum.splits if_splits prod.splits)
  with from_ptrace_effect(1) [OF x] show ?thesis by simp
qed

end

context guarding_tracer
begin

lemma lock_attach_held:
  assumes "lock_attach K p s = (Inr l, t)"
  shows "custody_ok p (cv t p) (Held l (attach_stopped K p s))"
proof -
  from assms obtain u st where a: "k_attach K p s = (Inr (), u)" "k_waitpid K p u = (Inr st, t)"
    and l: "l = \<lparr>lock_pid = p, lock_detached = False\<rparr>"
    by (cases "k_attach K p s"; cases "k_waitpid K p (snd (k_attach K p s))")
      (auto simp: lock_attach_def try_act_def act_simps split: if_splits sum.splits)
  from attach_wait [OF a] a l show ?thesis by (cases st) (simp_all add: attach_stopped_def)
qed

lemma lock_attach_failed:
  assumes "lock_attach K p s = (Inl e, t)" "\<not> c_stopped (cv s p)"
  shows "custody_ok p (cv t p) (after_attach_error e)"
proof -
  obtain a u where a: "k_attach K p s = (a, u)" by fastforce
  obtain b v where b: "k_waitpid K p u = (b, v)" by fastforce
  show ?thesis
    using assms a b attach_refused [of p s _ u]
    by (cases a; cases b)
       (auto simp: lock_attach_def try_act_def attach_error_def err_permission_def
         err_process_not_found_def split: if_splits)
qed

text \<open>Detaching lets go of a process that is stopped, and does nothing to one that has ended.\<close>

lemma detach_any:
  assumes "k_detach K p s = (r, t)" "c_stopped (cv s p) = a"
  shows "\<not> c_stopped (cv t p)" "a \<Longrightarrow> r = Inr ()"
proof -
  show "r = Inr ()" if a using detach_live [of s p] assms that by (cases r) auto
  then show "\<not> c_stopped (cv t p)"
    using detach_law [of p s t] detach_refused [of p s _ t] assms by (cases r) auto
qed

lemma lock_detach_held:
  assumes "lock_detach K l s = (r, l', t)" "custody_ok p (cv s p) (Held l a)"
  shows "custody_ok p (cv t p) (Held l' a)" "a \<Longrightarrow> lock_detached l'" "l' = l \<or> lock_detached l'"
proof -
  obtain x u where d: "k_detach K (lock_pid l) s = (x, u)" by fastforce
  note all = detach_any [OF d refl] assms d
  show "l' = l \<or> lock_detached l'"
    using assms(1) d by (auto simp: lock_detach_def split: if_splits sum.splits)
  show "custody_ok p (cv t p) (Held l' a)"
    using all by (cases "lock_detached l"; cases x) (auto simp: lock_detach_def)
  show "lock_detached l'" if a
    using all that by (cases "lock_detached l"; cases x) (auto simp: lock_detach_def)
qed

lemma lock_drop_held:
  assumes "custody_ok p (cv s p) (Held l a)"
  shows "\<not> c_stopped (cv (lock_drop K l s) p)"
  using assms detach_any(1) [OF surjective_pairing refl, of p s] by (auto simp: lock_drop_def)

lemma guard_step_keeps:
  assumes "guard_step K cv ck alone p (g, s) (h, t)" "custody_ok p (cv s p) g"
  shows "custody_ok p (cv t p) h"
  using assms
proof (cases rule: guard_step.cases)
  case (step_attach l)
  with lock_attach_held [of p s l t] show ?thesis by simp
next
  case (step_attach_error e)
  with assms(2) lock_attach_failed [of p s e t] show ?thesis by simp
next
  case (step_registers l r a)
  with assms(2) capture_registers_keeps [of l s r t] show ?thesis by simp
next
  case (step_regions l rs qs a)
  with assms(2) capture_regions_effect [of ck "lock_pid l" rs s qs t] show ?thesis by simp
next
  case (step_detach l r l' a)
  with assms(2) lock_detach_held(1) show ?thesis by blast
next
  case (step_drop l a)
  with assms(2) lock_drop_held [of p s l a] show ?thesis by simp
next
  case step_runs
  with assms(2) show ?thesis by (cases g) auto
next
  case step_killed
  with assms(2) show ?thesis by (cases g) auto
next
  case (step_others m fds)
  with assms(2) show ?thesis by (cases g) auto
qed

lemma guard_run_keeps:
  assumes "guard_run K cv ck alone p (g, s) (h, t)" "custody_ok p (cv s p) g"
  shows "custody_ok p (cv t p) h"
  using assms by (induction rule: rtranclp_induct2) (auto intro: guard_step_keeps)

text \<open>Under one guard nothing moves.\<close>

lemma guard_step_frozen:
  assumes "guard_step K cv ck alone p (Held l a, s) (h, t)" "under_guard h" "custody_ok p (cv s p) (Held l a)"
  shows "\<exists>b. h = Held l b \<and> (b \<longrightarrow> a \<and> unmoved alone (cv s p) (cv t p))"
  using assms(1)
proof (cases rule: guard_step.cases)
  case (step_registers r)
  with assms(3) capture_registers_keeps [of l s r t] show ?thesis by (simp add: unmoved_def)
next
  case (step_regions rs qs)
  with assms(3) capture_regions_effect [of ck "lock_pid l" rs s qs t] show ?thesis by (simp add: unmoved_def)
next
  case (step_detach r l')
  with assms(2,3) lock_detach_held(2,3) show ?thesis by fastforce
qed (use assms in \<open>auto simp: unmoved_def\<close>)

lemma frozen_stay:
  assumes "guard_stay K cv ck alone p (Held l a, s) (h, t)" "custody_ok p (cv s p) (Held l a)"
  shows "\<exists>b. h = Held l b \<and> (b \<longrightarrow> a \<and> unmoved alone (cv s p) (cv t p))"
  using assms(1)
proof (induction rule: rtranclp_induct2)
  case refl
  show ?case by (auto simp: unmoved_def)
next
  case (step g u h t)
  then obtain b where b: "g = Held l b" "b \<longrightarrow> a \<and> unmoved alone (cv s p) (cv u p)" by blast
  have "(guard_step K cv ck alone p)\<^sup>*\<^sup>* (Held l a, s) (g, u)"
    using step.hyps(1) by (rule mono_rtranclp [rule_format, rotated]) simp
  from guard_run_keeps [OF this assms(2)] b(1) have ok: "custody_ok p (cv u p) (Held l b)" by simp
  have "guard_step K cv ck alone p (Held l b, u) (h, t)" "under_guard h" using step.hyps(2) b(1) by simp_all
  from guard_step_frozen [OF this ok] obtain d
    where "h = Held l d" "d \<longrightarrow> b \<and> unmoved alone (cv u p) (cv t p)" by blast
  with b(2) show ?case by (auto simp: unmoved_def)
qed

end

section \<open>The programs are paths of the relation\<close>

text \<open>These hold for every kernel and every view of it.\<close>

lemma guard_path:
  "guard_step K cv ck alone p a b \<Longrightarrow> guard_run K cv ck alone p b c \<Longrightarrow> guard_run K cv ck alone p a c"
  by (rule converse_rtranclp_into_rtranclp)

lemma capture_frozen_path:
  assumes "capture_frozen K ck l regions s = (r, t)"
  shows "guard_run K cv ck alone p (Held l a, s) (Held l a, t)"
proof -
  obtain x u where x: "capture_registers K l s = (x, u)" by fastforce
  note registers = step_registers [OF x, of cv ck alone p a]
  show ?thesis
  proof (cases x)
    case (Inl e)
    with assms x have "t = u" by (simp add: capture_frozen_def bind_act_def)
    with registers show ?thesis by simp
  next
    case (Inr regs)
    obtain qs v where q: "capture_regions K ck (lock_pid l) regions u = (qs, v)" by fastforce
    with assms x Inr have "t = v"
      by (auto simp: capture_frozen_def bind_act_def look_app split: sum.splits)
    with step_regions [OF q, of cv alone p a] registers show ?thesis by (simp add: guard_path)
  qed
qed

lemma attach_path:
  assumes "lock_attach K p s = (Inl e, t)"
  shows "guard_run K cv ck alone p (Free, s) (after_attach_error e, t)"
  by (rule r_into_rtranclp) (rule step_attach_error [OF assms])

lemma after_attach_error_Lost:
  "after_attach_error e = Free \<or> after_attach_error e = Lost \<and> (\<exists>p x. e = Capture_Err (WaitAfterAttachFailed p x))"
  by (cases e rule: after_attach_error.cases) auto

text \<open>What an operation that attaches and lets go of the process leaves behind.\<close>

definition lets_go ::
    "'k kernel \<Rightarrow> ('k \<Rightarrow> pid \<Rightarrow> child) \<Rightarrow> (u8 list \<Rightarrow> u64) \<Rightarrow> bool \<Rightarrow> pid \<Rightarrow> 'k \<Rightarrow> (error + 'a) \<times> 'k \<Rightarrow> bool" where
  "lets_go K cv ck alone p s out \<longleftrightarrow> guard_run K cv ck alone p (Free, s) (Free, snd out) \<or>
     guard_run K cv ck alone p (Free, s) (Lost, snd out) \<and>
       (\<exists>q x. fst out = Inl (Capture_Err (WaitAfterAttachFailed q x)))"

lemma lets_go_error: "lock_attach K p s = (Inl e, t) \<Longrightarrow> lets_go K cv ck alone p s (Inl e, t)"
  using attach_path [of K p s e t cv ck alone] after_attach_error_Lost [of e] by (auto simp: lets_go_def)

lemma lets_go_held:
  assumes "lock_attach K p s = (Inr l, u)" "\<And>a. guard_run K cv ck alone p (Held l a, u) (Held h a, v)"
  shows "lets_go K cv ck alone p s (r, lock_drop K h v)"
proof -
  have "guard_run K cv ck alone p (Free, s) (Held h (attach_stopped K p s), v)"
    using step_attach [OF assms(1)] assms(2) by (rule guard_path)
  then have "guard_run K cv ck alone p (Free, s) (Free, lock_drop K h v)"
    by (rule rtranclp.rtrancl_into_rtrancl) (rule step_drop)
  then show ?thesis by (simp add: lets_go_def)
qed

lemma capture_lets_go: "lets_go K cv ck alone p s (capture K ck f64_secs host p s)"
proof -
  have stays: "lets_go K cv ck alone p s (Inl e, s)" for e by (simp add: lets_go_def)
  show ?thesis
  proof (cases "assert_x86_64 host")
    case host: (Inr x)
    show ?thesis
    proof (cases "parse_maps K p s")
      case maps: (Inr regions)
      obtain a u where a: "lock_attach K p s = (a, u)" by fastforce
      show ?thesis
      proof (cases a)
        case (Inl e)
        with a host maps lets_go_error [of K p s e u] show ?thesis
          by (simp add: capture_def bind_act_def look_app)
      next
        case (Inr l)
        obtain r v where f: "capture_frozen K ck l regions u = (r, v)" by fastforce
        have "\<exists>x. capture K ck f64_secs host p s = (x, lock_drop K l v)"
          using a f host maps Inr by (cases r) (simp_all add: capture_def bind_act_def look_app)
        with lets_go_held [OF a [unfolded Inr] capture_frozen_path [OF f]] show ?thesis by fastforce
      qed
    qed (use host stays in \<open>simp add: capture_def bind_act_def look_app\<close>)
  qed (use stays in \<open>simp add: capture_def bind_act_def look_app\<close>)
qed

lemma resume_lets_go: "lets_go K cv ck alone p s (cmd_resume K p s)"
proof (cases "pid_exists K p s")
  case True
  obtain a u where a: "lock_attach K p s = (a, u)" by fastforce
  show ?thesis
  proof (cases a)
    case (Inl e)
    with a True lets_go_error [of K p s e u] show ?thesis by (simp add: cmd_resume_def bind_act_def)
  next
    case (Inr l)
    obtain r h v where d: "lock_detach K l u = (r, h, v)" by (metis prod_cases3)
    then obtain x where x: "cmd_resume K p s = (x, lock_drop K h v)"
      using a True Inr by (simp add: cmd_resume_def bind_act_def)
    have "guard_run K cv ck alone p (Held l b, u) (Held h b, v)" for b using step_detach [OF d] by blast
    from lets_go_held [OF a [unfolded Inr] this] show ?thesis unfolding x .
  qed
qed (simp add: lets_go_def cmd_resume_def fail_act_app)

context guarding_tracer
begin

lemma lets_go_running:
  assumes "lets_go K cv ck alone p s (r, t)" "\<not> c_stopped (cv s p)"
  shows "\<not> c_stopped (cv t p) \<or> (\<exists>q x. r = Inl (Capture_Err (WaitAfterAttachFailed q x)))"
  using assms guard_run_keeps [of ck alone p Free s Free t] by (auto simp: lets_go_def)

end

end
