(* ===== verification/Handover.thy ===== *)
theory Handover
  imports Cli Descriptors
begin

text \<open>
  What the capture hands over to the restorer: the regions of a snapshot are, in order, some of
  the mappings of the process, so the table of a real process gives a snapshot that passes the
  restorer's checks, and one that can be restored.
\<close>

section \<open>The table of a process\<close>

text \<open>
  A table as the kernel prints it for a process: its entries are in the kernel's format, in
  ascending order, not empty, start at a page, and end in user space unless the entry is the
  \<open>[vsyscall]\<close> page.
\<close>

definition entry_before :: "maps_entry \<Rightarrow> maps_entry \<Rightarrow> bool" where
  "entry_before a b \<longleftrightarrow> me_end a \<le> me_start b"

definition user_entry :: "maps_entry \<Rightarrow> bool" where
  "user_entry m \<longleftrightarrow> me_start m < me_end m \<and> page_aligned (me_start m) \<and>
     (me_name m = ''[vsyscall]'' \<or> unat (me_end m) \<le> 2 ^ 47)"

definition kernel_table :: "maps_entry list \<Rightarrow> bool" where
  "kernel_table ms \<longleftrightarrow> list_all entry_ok ms \<and> list_all user_entry ms \<and> sorted_wrt entry_before ms"

section \<open>The captured regions are mappings of the process\<close>

text \<open>A region of the capture loop and the mapping it started from.\<close>

definition from_entry :: "maps_entry \<Rightarrow> memory_region \<Rightarrow> bool" where
  "from_entry m q \<longleftrightarrow> mr_start q = me_start m \<and> mr_end q = me_end m \<and>
     (mr_data q \<noteq> [] \<longrightarrow> me_name m \<noteq> ''[vsyscall]'')"

lemma capture_region_from_entry:
  assumes "capture_region K ck p (region_of_entry m) s = (q, t)"
  shows "from_entry m q"
proof -
  let ?r = "region_of_entry m"
  have "q = ?r \<or> captured_ok ck ?r q" using capture_region_cases [OF assms] by blast
  then show ?thesis
  proof
    assume "captured_ok ck ?r q"
    then have q: "q = ?r\<lparr>mr_checksum := mr_checksum q, mr_data := mr_data q\<rparr>" and "\<not> should_skip ?r"
      unfolding captured_ok_def by blast+
    then have "mr_region_type ?r \<noteq> ''vsyscall''" by (simp add: should_skip_def split: if_splits)
    then have "me_name m \<noteq> ''[vsyscall]''" by (auto simp: region_of_entry_def classify_special)
    moreover have "mr_start q = me_start m" "mr_end q = me_end m"
      by (subst q, simp add: region_of_entry_def)+
    ultimately show ?thesis by (simp add: from_entry_def)
  qed (simp add: from_entry_def region_of_entry_def)
qed

lemma capture_regions_from_entries:
  "capture_regions K ck p (map region_of_entry ms) s = (qs, t) \<Longrightarrow> list_all2 from_entry ms qs"
  by (induction ms arbitrary: s qs) (auto dest: capture_region_from_entry split: prod.splits)

lemma entries_sorted:
  assumes "list_all2 from_entry ms qs" "sorted_wrt entry_before ms"
  shows "sorted_wrt (\<lambda>a b. mr_end a \<le> mr_start b) qs"
  using assms
proof (induction rule: list_all2_induct)
  case (Cons m ms q qs)
  have "mr_end q \<le> mr_start q'" if "q' \<in> set qs" for q'
  proof -
    from that Cons.hyps(2) obtain m' where "m' \<in> set ms" "from_entry m' q'"
      by (metis list_all2_conv_all_nth in_set_conv_nth)
    with Cons.hyps(1) Cons.prems show ?thesis by (simp add: from_entry_def entry_before_def)
  qed
  with Cons show ?case by simp
qed simp

lemma from_entry_bounded:
  assumes "from_entry m q" "user_entry m" "mr_data q \<noteq> []"
  shows "region_bounded (region_to_proto q)"
    and "unat (mr_start q) + unat (region_size q) = unat (mr_end q)"
    and "page_aligned (start_addr (region_to_proto q))"
proof -
  have lt: "mr_start q < mr_end q" and top: "unat (mr_end q) \<le> 2 ^ 47"
    using assms by (auto simp: from_entry_def user_entry_def)
  then show sum: "unat (mr_start q) + unat (region_size q) = unat (mr_end q)"
    by (simp add: region_size_def unat_sub word_le_nat_alt word_less_nat_alt)
  have "region_size q \<noteq> 0" using lt by (auto simp: region_size_def)
  with sum top show "region_bounded (region_to_proto q)"
    by (simp add: region_bounded_def region_to_proto_def)
  show "page_aligned (start_addr (region_to_proto q))"
    using assms by (simp add: from_entry_def user_entry_def region_to_proto_def)
qed

text \<open>The regions of a snapshot of a real process.\<close>

lemma captured_regions:
  assumes "capture K ck f64_secs host p s = (Inr snap, t)"
    and "k_read_to_string K (proc_file p ''maps'') s = Inr (show_maps ms)" "kernel_table ms"
  shows "\<forall>r \<in> set (memory_regions snap). region_bounded r \<and> page_aligned (start_addr r)"
    and "sorted_wrt regions_disjoint (memory_regions snap)"
proof -
  obtain regions l u regs rs fds v where maps: "parse_maps K p s = Inr regions"
    and att: "lock_attach K p s = (Inr l, u)"
    and frozen: "capture_frozen K ck l regions u = (Inr (regs, rs, fds), v)"
    and snap: "assemble K f64_secs host p (regs, rs, fds) t = Inr snap"
    using assms(1) by (rule capture_phases)
  have tab: "list_all entry_ok ms" "list_all user_entry ms" "sorted_wrt entry_before ms"
    using assms(3) by (simp_all add: kernel_table_def)
  have "regions = map region_of_entry ms"
    using maps parse_maps_table [OF assms(2) tab(1)] by simp
  with frozen obtain w qs where
    q: "capture_regions K ck (lock_pid l) (map region_of_entry ms) w = (qs, v)" and rs: "rs = retain_captured qs"
    by (auto elim: capture_frozen_phases)
  note e = capture_regions_from_entries [OF q]
  have rg: "memory_regions snap = map region_to_proto (filter (\<lambda>r. mr_data r \<noteq> []) qs)"
    using assemble_snapshot [OF snap] by (simp add: rs retain_captured_def)
  have from_m: "\<exists>m. from_entry m q \<and> user_entry m" if "q \<in> set qs" for q
    using that e tab(2) by (fastforce simp: in_set_conv_nth list_all2_conv_all_nth list_all_length)
  show "\<forall>r \<in> set (memory_regions snap). region_bounded r \<and> page_aligned (start_addr r)"
    using from_m by (auto simp: rg dest: from_entry_bounded)
  have "sorted_wrt (\<lambda>a b. mr_end a \<le> mr_start b) (filter (\<lambda>r. mr_data r \<noteq> []) qs)"
    using entries_sorted [OF e tab(3)] by (rule sorted_wrt_filter)
  then show "sorted_wrt regions_disjoint (memory_regions snap)"
    unfolding rg sorted_wrt_map
  proof (rule sorted_wrt_mono_rel [rotated])
    fix a b :: memory_region
    assume "a \<in> set (filter (\<lambda>r. mr_data r \<noteq> []) qs)" "mr_end a \<le> mr_start b"
    moreover from this from_m from_entry_bounded(2)
    have "unat (mr_start a) + unat (region_size a) = unat (mr_end a)" by auto
    ultimately show "regions_disjoint (region_to_proto a) (region_to_proto b)"
      by (auto simp: regions_disjoint_def region_addrs_def region_to_proto_def word_le_nat_alt)
  qed
qed

lemma captured_validates:
  assumes "capture K ck f64_secs host p s = (Inr snap, t)"
    and "k_read_to_string K (proc_file p ''maps'') s = Inr (show_maps ms)" "kernel_table ms"
    and "snap_arch snap2 = snap_arch snap" "snap_registers snap2 = snap_registers snap"
    and "memory_regions snap2 = memory_regions snap" "memory_regions snap \<noteq> []"
  shows "restorer_validate host snap2 = Inr ()"
proof -
  from assms(1) obtain x v where "host = ''x86_64''" "assemble K f64_secs host p x v = Inr snap"
    by (rule capture_phases) auto
  then have "snap_arch snap = ''x86_64''" "snap_registers snap \<noteq> None" "host = ''x86_64''"
    by (cases x, auto dest: assemble_snapshot)+
  with captured_regions [OF assms(1-3)] assms(4-7) show ?thesis
    by (simp add: restorer_validate_ok validate_snapshot_ok)
qed

section \<open>The snapshot is well-formed\<close>

text \<open>The types of the schema say less than the capture guarantees about its message.\<close>

definition region_wf :: "pb_region \<Rightarrow> bool" where
  "region_wf r \<longleftrightarrow> data r \<noteq> [] \<and> length (data r) = unat (size_bytes r) \<and>
     size_bytes r = end_addr r - start_addr r \<and> starts_with ''r'' (permissions r) \<and>
     region_type r \<in> {''heap'', ''stack'', ''vdso'', ''file'', ''anon'', ''other''} \<and>
     (backing_file r = [] \<or> starts_with ''/'' (backing_file r) \<or> starts_with ''.'' (backing_file r))"

definition registers_wf :: "pb_registers \<Rightarrow> bool" where
  "registers_wf r \<longleftrightarrow> unat (pr_rip r) < 2 ^ 47 \<and> pr_rsp r \<noteq> 0 \<and> length (pr_fpu_state r) = 512"

definition fd_wf :: "pb_fd \<Rightarrow> bool" where
  "fd_wf f \<longleftrightarrow> pf_type f \<in> {''regular'', ''pipe'', ''socket'', ''device'', ''directory''} \<or>
     pf_type f = ''other:'' @ pf_path f"

definition snapshot_wf :: "pb_fd process_snapshot \<Rightarrow> bool" where
  "snapshot_wf snap \<longleftrightarrow> snap_arch snap = ''x86_64'' \<and> snapshot_version snap = ''1.0'' \<and>
     snap_metadata snap \<noteq> None \<and> (\<exists>regs. snap_registers snap = Some regs \<and> registers_wf regs) \<and>
     list_all region_wf (memory_regions snap) \<and>
     list_all fd_wf (file_descriptors snap) \<and> sorted (map pf_num (file_descriptors snap))"

lemma classify_region_types: "classify_region name \<in>
    {''heap'', ''stack'', ''vdso'', ''vsyscall'', ''vvar'', ''file'', ''anon'', ''other''}"
  by (simp add: classify_region_def)

definition parsed_ok :: "memory_region \<Rightarrow> bool" where
  "parsed_ok r \<longleftrightarrow> (\<exists>name. mr_region_type r = classify_region name \<and>
     mr_backing_file r = (if starts_with ''/'' name \<or> starts_with ''.'' name then Some name else None))"

lemma parse_maps_parsed:
  assumes "parse_maps K p s = Inr rs" "r \<in> set rs"
  shows "parsed_ok r"
proof -
  have line: "parse_maps_line l = Inr (Some x) \<Longrightarrow> parsed_ok x" for l x
    by (auto simp: parse_maps_line_def Let_def bind_res_Inr parsed_ok_def split: if_splits)
  have "x \<in> set (parse_lines ls) \<Longrightarrow> parsed_ok x" for x ls
    by (induction ls) (auto dest: line split: sum.splits option.splits)
  with assms show ?thesis by (auto simp: parse_maps_def Let_def bind_res_Inr)
qed

lemma captured_region_wf:
  assumes "captured_ok ck r q" "parsed_ok r" "holds_bytes c q" "mr_data q \<noteq> []"
  shows "region_wf (region_to_proto q)"
proof -
  have q: "q = r\<lparr>mr_checksum := mr_checksum q, mr_data := mr_data q\<rparr>" and ns: "\<not> should_skip r"
    using assms(1) unfolding captured_ok_def by blast+
  then have f: "mr_region_type q = mr_region_type r" "mr_perms q = mr_perms r"
    "mr_backing_file q = mr_backing_file r"
    by (metis memory_region.select_convs(3,4,6) memory_region.surjective memory_region.update_convs(7,8))+
  obtain name where n: "mr_region_type r = classify_region name"
    and b: "mr_backing_file r = (if starts_with ''/'' name \<or> starts_with ''.'' name then Some name else None)"
    using assms(2) by (auto simp: parsed_ok_def)
  have "starts_with ''r'' (mr_perms r)" "mr_region_type r \<noteq> ''vsyscall''" "mr_region_type r \<noteq> ''vvar''"
    using ns by (simp_all add: should_skip_def is_readable_def split: if_splits)
  with n f classify_region_types [of name] assms(3,4) b show ?thesis
    by (auto simp: region_wf_def region_to_proto_def holds_bytes_def region_size_def)
qed

lemma fd_to_proto_wf: "fd \<in> set (read_fd_entries K p es s) \<Longrightarrow> fd_wf (fd_to_proto fd)"
proof (induction K p es s rule: read_fd_entries.induct)
  case (3 K p name es s)
  have "fd_wf (fd_to_proto x)" if "read_fd_entry K p name s = Some x" for x
  proof -
    have "fd_fd_type x = classify_fd K (fd_path x) s" using read_fd_entry_Some [OF that] by blast
    then show ?thesis by (simp add: fd_wf_def fd_to_proto_def classify_fd_def)
  qed
  with 3 show ?case by (auto split: option.splits)
qed simp_all

text \<open>Hence the snapshot of any process, whatever its map says, is well-formed.\<close>

context tracer
begin

lemma capture_wf:
  assumes "capture K ck f64_secs host p s = (Inr snap, t)"
  shows "snapshot_wf snap"
proof -
  obtain regions l u regs rs fds v where host: "host = ''x86_64''" and maps: "parse_maps K p s = Inr regions"
    and att: "lock_attach K p s = (Inr l, u)"
    and frozen: "capture_frozen K ck l regions u = (Inr (regs, rs, fds), v)"
    and snap: "assemble K f64_secs host p (regs, rs, fds) t = Inr snap"
    using assms by (rule capture_phases)
  have l: "lock_pid l = p" using lock_attach_pid [OF att] by simp
  obtain w qs where r: "capture_registers K l u = (Inr regs, w)"
    and q: "capture_regions K ck p regions w = (qs, v)" and rs: "rs = retain_captured qs"
    and fds: "enumerate_fds K p v = Inr fds"
    using frozen l by (auto elim: capture_frozen_phases)
  note s = assemble_snapshot [OF snap]
  from r capture_registers_effect [OF r] have "registers_wf (regs_to_proto regs)"
    by (auto simp: registers_validate_ok registers_wf_def regs_to_proto_def registers_of_def FPREGS_SIZE_def)
  moreover have "region_wf (region_to_proto x)" if "x \<in> set rs" for x
  proof -
    from that have x: "x \<in> set qs" "mr_data x \<noteq> []" by (auto simp: rs retain_captured_def)
    with parse_maps_empty [OF maps] capture_regions_effect [OF q] obtain y
      where "y \<in> set regions" "captured_ok ck y x" "holds_bytes (cv w p) x" by blast
    with captured_region_wf parse_maps_parsed [OF maps] x show ?thesis by blast
  qed
  moreover have "sorted (map fd_fd fds)" "\<forall>fd \<in> set fds. fd_wf (fd_to_proto fd)"
    using fds by (auto simp: enumerate_fds_def Let_def bind_res_Inr dest: fd_to_proto_wf)
  moreover have "snapshot_version snap = ''1.0''" "snap_metadata snap \<noteq> None"
    using snap by (auto simp: assemble_def builder_build_def builder_new_def builder_registers_def
        builder_memory_regions_def builder_file_descriptors_def bind_res_Inr)
  ultimately show ?thesis
    using s host by (auto simp: snapshot_wf_def list_all_iff fd_to_proto_def comp_def)
qed

end

section \<open>The captured snapshot can be restored\<close>

text \<open>
  What the destination has to offer: a stub that is clear of the regions and grants the
  mappings, and code at the captured instruction pointer once the regions are in place.
\<close>

definition destination_ready ::
    "syscalls \<Rightarrow> child \<Rightarrow> pb_region list \<Rightarrow> u64 \<Rightarrow> bool" where
  "destination_ready sysc c rs ip \<longleftrightarrow> injectable c \<and>
     (\<forall>r \<in> set rs. code_clear c (start_addr r) (size_bytes r) \<and>
        mmap_granted sysc (start_addr r) (size_bytes r)) \<and>
     mapped (load_regions (c_mem c) rs) ip 8 \<and> executable (load_regions (c_mem c) rs) ip 3"

lemma captured_restorable:
  assumes src: "tracer K cv sysc" and cap: "capture K ck f64_secs host p s = (Inr snap, t)"
    and att: "lock_attach K p s = (Inr l, u)"
    and same: "snap_registers snap2 = snap_registers snap" "memory_regions snap2 = memory_regions snap"
    and dst: "destination_ready sysc2 c (memory_regions snap) (ur_rip (c_regs (cv u p)))"
  shows "restorable c snap2 (regs_to_proto (registers_of (c_regs (cv u p)) (c_fp (cv u p))))"
proof -
  have ip: "pr_rip (regs_to_proto (registers_of (c_regs (cv u p)) fp)) = ur_rip (c_regs (cv u p))" for fp
    by (simp add: regs_to_proto_def registers_of_def)
  show ?thesis
    using tracer.capture_effect [OF src cap att] same dst
    by (auto simp: restorable_def ip region_faithful_def destination_ready_def)
qed

lemma captured_restores:
  assumes src: "tracer K cv sysc" and cap: "capture K ck f64_secs host p s = (Inr snap, t)"
    and att: "lock_attach K p s = (Inr l, u)"
    and maps: "k_read_to_string K (proc_file p ''maps'') s = Inr (show_maps ms)" "kernel_table ms"
    and same: "snap_arch snap2 = snap_arch snap" "snap_registers snap2 = snap_registers snap"
      "memory_regions snap2 = memory_regions snap" "memory_regions snap \<noteq> []"
    and dst: "serving_tracer K2 cv2 sysc2" "fork_stub K2 d = (Inr q, v)"
      "destination_ready sysc2 (cv2 v q) (memory_regions snap) (ur_rip (c_regs (cv u p)))"
  shows "\<exists>res d'. restore K2 ck host snap2 d = (Inr res, d')"
proof -
  let ?regs = "regs_to_proto (registers_of (c_regs (cv u p)) (c_fp (cv u p)))"
  note c = tracer.capture_effect [OF src cap att]
  note r = captured_regions [OF cap maps]
  have len: "length (pr_fpu_state ?regs) = FPREGS_SIZE"
    using c by (simp add: regs_to_proto_def registers_of_def)
  have "restorable (cv2 v q) snap2 ?regs"
    by (rule captured_restorable [OF src cap att same(2,3) dst(3)])
  moreover have "list_all (restorable_region sysc2 ck) (memory_regions snap2)"
    using c r same dst(3)
    by (auto simp: list_all_iff restorable_region_def region_faithful_def destination_ready_def)
  moreover have "injectable (cv2 v q)" using dst(3) by (simp add: destination_ready_def)
  moreover have "length (pr_fpu_state ?regs) \<in> {0, FPREGS_SIZE}" using len by blast
  ultimately show ?thesis
    using captured_validates [OF cap maps same] by (intro serving_tracer.restore_total [OF dst(1) _ dst(2)])
qed

section \<open>The process goes on\<close>

text \<open>
  What a migrated process has in common with the frozen one: the registers, with \<open>orig_rax\<close>
  cleared so that no system call is restarted, the floating-point state, and every byte of the
  captured regions.
\<close>

definition continues :: "pb_region list \<Rightarrow> child \<Rightarrow> child \<Rightarrow> bool" where
  "continues rs old new \<longleftrightarrow> c_regs new = (c_regs old)\<lparr>ur_orig_rax := - 1\<rparr> \<and> c_fp new = c_fp old \<and>
     (\<forall>r \<in> set rs. \<forall>i < unat (size_bytes r).
        map_option fst (c_mem new (start_addr r + of_nat i)) =
        map_option fst (c_mem old (start_addr r + of_nat i)))"

lemma migrated_continues:
  assumes "tracer K cv sysc" "capture K ck f64_secs host p s = (Inr snap, s')"
    and "lock_attach K p s = (Inr l, u)"
    and "fd_kernel K2 cv2 sysc2 pfds" "restore K2 ck2 host2 snap2 d = (Inr res, d')"
    and "fork_stub K2 d = (Inr q, v)" "restorable (cv2 v q) snap2 regs"
    and same: "snap_registers snap2 = snap_registers snap" "memory_regions snap2 = memory_regions snap"
  shows "continues (memory_regions snap) (cv u p) (cv2 d' (res_pid res))"
proof -
  note c = tracer.capture_effect [OF assms(1-3)]
  obtain fp where res: "res_pid res = q"
    and after: "cv2 d' q = \<lparr>c_stopped = False, c_regs = gp_of_proto regs, c_fp = fp,
        c_mem = load_regions (c_mem (cv2 v q)) (memory_regions snap), c_fds = pfds d\<rparr>"
    and fpu: "pr_fpu_state regs \<noteq> [] \<longrightarrow> fp = pr_fpu_state regs"
    and sorted: "sorted_wrt regions_disjoint (memory_regions snap)"
    and bounded: "\<forall>r \<in> set (memory_regions snap). region_bounded r \<and> page_aligned (start_addr r)"
    using fd_kernel.restore_effect [OF assms(4-7)] same(2) by auto
  from assms(7) c same have regs: "regs = regs_to_proto (registers_of (c_regs (cv u p)) (c_fp (cv u p)))"
    by (simp add: restorable_def)
  have fp: "pr_fpu_state regs = c_fp (cv u p)" "c_fp (cv u p) \<noteq> []"
    using c by (auto simp: regs regs_to_proto_def registers_of_def FPREGS_SIZE_def)
  have gp: "gp_of_proto regs = (c_regs (cv u p))\<lparr>ur_orig_rax := - 1\<rparr>"
    by (cases "c_regs (cv u p)") (simp add: regs gp_of_proto_def regs_to_proto_def registers_of_def)
  have mem: "map_option fst (c_mem (cv2 d' q) (start_addr r + of_nat i)) =
      map_option fst (c_mem (cv u p) (start_addr r + of_nat i))"
    if r: "r \<in> set (memory_regions snap)" and i: "i < unat (size_bytes r)" for r i
  proof -
    have f: "length (data r) = unat (size_bytes r)" "bytes_at (c_mem (cv u p)) (start_addr r) (data r)"
      using c r by (auto simp: region_faithful_def)
    from bounded r have b: "region_bounded r" by blast
    then have ad: "unat (start_addr r + of_nat i) = unat (start_addr r) + i"
      using i by (subst word_le_add_unat) (auto simp: region_bounded_def unat_of_nat)
    then have in_p: "region_in_pages r (start_addr r + of_nat i)"
      using i page_up_ge [of "unat (start_addr r) + unat (size_bytes r)"] by (simp add: in_pages_def)
    have "c_mem (cv2 d' q) (start_addr r + of_nat i) =
        Some (region_byte r (start_addr r + of_nat i), perms_to_prot (permissions r))"
      using load_regions_inside [OF sorted bounded r in_p] by (simp add: after)
    with f i ad show ?thesis by (auto simp: bytes_at_def region_byte_def)
  qed
  have "fp = c_fp (cv u p)" using fpu fp by simp
  with gp mem show ?thesis by (simp add: continues_def after res)
qed

text \<open>
  The two programs one after the other: \<open>wraith-capturer capture\<close> writes a file, the file reaches
  the destination, \<open>wraith-restorer\<close> reads it.
\<close>

lemma capture_command_done:
  assumes "capturer_main K ck f64_secs host encode decode text (Capture p output) s = ((0, printed), t)"
  obtains snap u where "capture K ck f64_secs host p s = (Inr snap, u)"
    and "k_write_file K output (encode snap) u = (Inr (), t)"
    and "printed = map Out (capture_report output snap)"
proof -
  from assms obtain lines where "cmd_capture K ck f64_secs host encode p output s = (Inr lines, t)"
    and "printed = map Out lines"
    by (auto simp: capturer_main_def capturer_command_def split: prod.splits sum.splits)
  then show ?thesis by (auto simp: cmd_capture_def save_def intro: that)
qed

text \<open>The destination understands the file: it decodes to the same architecture, registers and
  regions (the two sides read the descriptors differently).\<close>

definition understands ::
    "(u8 list \<Rightarrow> 'b process_snapshot option) \<Rightarrow> u8 list \<Rightarrow> 'a process_snapshot \<Rightarrow> bool" where
  "understands decode bs snap \<longleftrightarrow> (\<exists>snap2. decode bs = Some snap2 \<and>
     snap_arch snap2 = snap_arch snap \<and> snap_registers snap2 = snap_registers snap \<and>
     memory_regions snap2 = memory_regions snap)"

lemma programs_continue:
  assumes src: "tracer K cv sysc" and cap: "capture K ck f64_secs host p s = (Inr snap, t)"
    and att: "lock_attach K p s = (Inr l, u)"
    and maps: "k_read_to_string K (proc_file p ''maps'') s = Inr (show_maps ms)" "kernel_table ms"
    and some: "memory_regions snap \<noteq> []"
    and sent: "k_read_file K2 path d = Inr bs" "understands decode bs snap"
    and dst: "serving_tracer K2 cv2 sysc2" "fd_kernel K2 cv2 sysc2 pfds" "fork_stub K2 d = (Inr q, v)"
      "destination_ready sysc2 (cv2 v q) (memory_regions snap) (ur_rip (c_regs (cv u p)))"
  shows "\<exists>shown d'. restorer_main K2 ck host decode text dbg path False d =
       ((0, shown @ running_lines q), d') \<and>
     continues (memory_regions snap) (cv u p) (cv2 d' q) \<and> \<not> c_stopped (cv2 d' q)"
proof -
  obtain snap2 where dec: "decode bs = Some snap2"
    and same: "snap_arch snap2 = snap_arch snap" "snap_registers snap2 = snap_registers snap"
      "memory_regions snap2 = memory_regions snap"
    using sent(2) unfolding understands_def by blast
  obtain res d' where run: "restore K2 ck host snap2 d = (Inr res, d')"
    using captured_restores [OF src cap att maps same some dst(1,3,4)] by blast
  have r: "restorable (cv2 v q) snap2 (regs_to_proto (registers_of (c_regs (cv u p)) (c_fp (cv u p))))"
    by (rule captured_restorable [OF src cap att same(2,3) dst(4)])
  have q: "res_pid res = q" and go: "\<not> c_stopped (cv2 d' q)"
    using fd_kernel.restore_effect [OF dst(2) run dst(3) r] by auto
  have "load K2 decode path d = Inr snap2" by (simp add: load_def sent(1) dec)
  with run q have "\<exists>shown. restorer_main K2 ck host decode text dbg path False d =
      ((0, shown @ running_lines q), d')"
    by (simp add: restorer_main_def run_def act_simps Let_def)
  with migrated_continues [OF src cap att dst(2) run dst(3) r same(2,3)] q go show ?thesis by auto
qed

end
