(* ===== verification/Freezing.thy ===== *)
theory Freezing
  imports Capturing Lifecycle Handover
begin

text \<open>
  What happens while a process is frozen for capture: what the snapshot says of it, and how it
  is released again.
\<close>

section \<open>The snapshot is true of the frozen process\<close>

text \<open>C4: A snapshot is true of the process at the moment it was frozen: its registers and its
  floating-point state are those of the process, and every region carries, for exactly its
  size, the bytes the process had at its addresses, with their checksum.\<close>

theorem capture_faithful:
  assumes "tracer K cv sysc"
    and "capture K ck f64_secs host p s = (Inr snap, t)" "lock_attach K p s = (Inr l, u)"
  shows "snap_registers snap =
      Some (regs_to_proto (registers_of (c_regs (cv u p)) (c_fp (cv u p)))) \<and>
    length (c_fp (cv u p)) = FPREGS_SIZE \<and>
    (\<forall>r \<in> set (memory_regions snap). data r \<noteq> [] \<and> checksum r = ck (data r) \<and>
       length (data r) = unat (size_bytes r) \<and> bytes_at (c_mem (cv u p)) (start_addr r) (data r))"
  using tracer.capture_effect [OF assms] by (simp add: region_faithful_def)

lemma capture_faithful_witness:
  "\<exists>snap regs. fst sample_capture = Inr snap \<and> snap_registers snap = Some regs \<and> pr_rip regs = 0x10000"
proof -
  obtain snap t where run: "sample_capture = (Inr snap, t)" using sample_run by blast
  from capture_faithful [OF machine_tracer run sample_attach]
  have "snap_registers snap = Some (regs_to_proto (registers_of (c_regs source_child) (c_fp source_child)))"
    by (simp add: child_of_def source_machine_def sample_machine_def)
  then show ?thesis
    using run by (simp add: regs_to_proto_def registers_of_def source_child_def gp_of_proto_def
        sample_registers_def)
qed

text \<open>C15: No readable mapping is lost: on a kernel that serves reads of a stopped process, every
  parsed mapping that is readable, not special to the kernel and fully mapped is a region of
  the snapshot, with its bounds, its permissions and all its bytes.\<close>

theorem capture_keeps_mappings:
  assumes "serving_tracer K cv sysc"
    and "capture K ck f64_secs host p s = (Inr snap, t)" "lock_attach K p s = (Inr l, u)"
    and "c_stopped (cv u p)" "parse_maps K p s = Inr regions"
    and "r \<in> set regions" "capturable (cv u p) r"
  shows "\<exists>q \<in> set (memory_regions snap). start_addr q = mr_start r \<and> end_addr q = mr_end r \<and>
     permissions q = mr_perms r \<and> length (data q) = unat (region_size r)"
  by (rule serving_tracer.capture_complete [OF assms])

lemma capture_keeps_mappings_witness:
  "\<exists>snap q. fst sample_capture = Inr snap \<and> q \<in> set (memory_regions snap) \<and>
     start_addr q = 0x10000 \<and> length (data q) = 4"
proof -
  let ?r = "region_of_entry source_entry"
  obtain snap t where run: "sample_capture = (Inr snap, t)" using sample_run by blast
  have c: "child_of frozen_machine 7 = source_child\<lparr>c_stopped := True\<rparr>"
    by (simp add: child_of_def source_machine_def sample_machine_def)
  have "\<not> should_skip ?r" by code_simp
  moreover have "mapped (map_pages (\<lambda>_. None) 0x10000 0x1000 7) 0x10000 4" by code_simp
  ultimately have "capturable (child_of frozen_machine 7) ?r"
    unfolding capturable_def c
    by (simp add: region_size_def region_of_entry_def source_entry_def source_child_def)
  moreover have "c_stopped (child_of frozen_machine 7)" unfolding c by simp
  ultimately have "\<exists>q \<in> set (memory_regions snap). start_addr q = mr_start ?r \<and>
      end_addr q = mr_end ?r \<and> permissions q = mr_perms ?r \<and> length (data q) = unat (region_size ?r)"
    by (intro capture_keeps_mappings [OF machine_serving run sample_attach _ sample_maps]) simp_all
  with run show ?thesis
    by (auto simp: region_size_def region_of_entry_def source_entry_def)
qed

text \<open>C16: Whatever the process and its map, a snapshot that \<open>capture\<close> returns is well-formed: it
  names its architecture and version, has metadata and sane registers, its regions are
  readable, not empty, exactly as long as their bounds say and of one of the six types that are
  captured, and its descriptors are of a known kind and sorted by number.\<close>

theorem capture_well_formed:
  assumes "tracer K cv sysc" "capture K ck f64_secs host p s = (Inr snap, t)"
  shows "snapshot_wf snap"
  using assms by (rule tracer.capture_wf)

lemma capture_well_formed_witness:
  "\<exists>snap. fst sample_capture = Inr snap \<and> list_all region_wf (memory_regions snap)"
proof -
  obtain snap t where run: "sample_capture = (Inr snap, t)" using sample_run by blast
  from capture_well_formed [OF machine_tracer run] run show ?thesis by (simp add: snapshot_wf_def)
qed

text \<open>C35: Capturing registers and restoring them is the identity on all of them but
  \<open>orig_rax\<close>, which comes back as -1, so that the kernel restarts no system call.\<close>

theorem register_roundtrip:
  "gp_of_proto (regs_to_proto (registers_of gp fp)) = gp\<lparr>ur_orig_rax := - 1\<rparr> \<and>
   pr_fpu_state (regs_to_proto (registers_of gp fp)) = fp"
  by (cases gp) (simp add: gp_of_proto_def regs_to_proto_def registers_of_def)

section \<open>The process is released\<close>

text \<open>C29: Once the process is attached, every outcome of a capture, success or error, ends with
  its detachment: the last call to the kernel that changes anything is \<open>PTRACE_DETACH\<close>, after
  all reads.\<close>

theorem capture_always_detaches:
  assumes "assert_x86_64 host = Inr ()" "parse_maps K p s = Inr regions"
    and "lock_attach K p s = (Inr l, u)"
  shows "\<exists>r v. capture_frozen K ck l regions u = (r, v) \<and>
     snd (capture K ck f64_secs host p s) = snd (k_detach K p v)"
proof -
  obtain r v where f: "capture_frozen K ck l regions u = (r, v)" by fastforce
  have l: "lock_drop K l v = snd (k_detach K p v)"
    using lock_attach_pid [OF assms(3)] by (simp add: lock_drop_def)
  show ?thesis
    using assms f l
    by (cases r) (simp_all add: capture_def act_simps bind_act_def)
qed

lemma capture_always_detaches_witness:
  "\<not> c_stopped (mc_child (snd sample_capture))"
proof -
  have a: "assert_x86_64 ''x86_64'' = Inr ()" by (simp add: assert_x86_64_def)
  from capture_always_detaches [OF a sample_maps sample_attach, of sum_ck no_secs]
  obtain r v where f: "capture_frozen machine_kernel sum_ck \<lparr>lock_pid = 7, lock_detached = False\<rparr>
      [region_of_entry source_entry] frozen_machine = (r, v)"
    and s: "snd sample_capture = snd (k_detach machine_kernel 7 v)" by blast
  from f sample_frozen have "v = frozen_machine" by auto
  with s show ?thesis
    by (simp add: machine_kernel_def mk_detach_def on_stopped_def source_machine_def sample_machine_def)
qed

text \<open>There is one gap in that guarantee: if the wait after a successful attach fails, the
  capture ends right there, with the process attached and no guard to detach it.\<close>

lemma failed_wait_not_detached:
  assumes "assert_x86_64 host = Inr ()" "parse_maps K p s = Inr regions" "pid_exists K p s"
    and "k_attach K p s = (Inr (), u)" "k_waitpid K p u = (Inl e, t)"
  shows "capture K ck f64_secs host p s = (Inl (Capture_Err (WaitAfterAttachFailed p e)), t)"
  using assms by (simp add: capture_def lock_attach_def act_simps)

text \<open>And there is one more, in what the guard says: the status that the wait reports is not looked at,
  so that a process that has ended by then is taken for a frozen one.\<close>

lemma ended_process_guarded:
  assumes "pid_exists K p s" "k_attach K p s = (Inr (), u)" "k_waitpid K p u = (Inr (Exited status), t)"
  shows "lock_attach K p s = (Inr \<lparr>lock_pid = p, lock_detached = False\<rparr>, t) \<and> \<not> attach_stopped K p s"
  using assms by (simp add: lock_attach_def act_simps attach_stopped_def)

text \<open>C6: The life cycle of a traced process: start from a running process that nobody guards, and
  let attach, reads, detach, drop, the process itself, whoever kills it and whoever shares its memory
  take steps in any order. Whenever a guard exists it is that process's, and the process is frozen
  exactly while the guard has not been released and the process is still there: its attachment ended in
  a stop, not in its end, and it has not been killed since. When nobody has custody, it is not frozen.
  Only a failed wait leaves this scheme.\<close>

theorem guard_lifecycle:
  assumes "guarding_tracer K cv sysc" "\<not> c_stopped (cv s p)"
    and "guard_run K cv ck alone p (Free, s) (g, t)"
  shows "case g of Free \<Rightarrow> \<not> c_stopped (cv t p)
     | Held l there \<Rightarrow> lock_pid l = p \<and> c_stopped (cv t p) = (there \<and> \<not> lock_detached l)
     | Lost \<Rightarrow> True"
  using guarding_tracer.guard_run_keeps [OF assms(1,3)] assms(2) by (cases g) simp_all

lemma sample_running: "\<not> c_stopped (child_of source_machine 7)"
  by (simp add: child_of_def source_machine_def sample_machine_def source_child_def)

lemma sample_attach_stopped: "attach_stopped machine_kernel 7 source_machine"
  by (simp add: attach_stopped_def machine_kernel_def mk_attach_def mk_waitpid_def source_machine_def sample_machine_def)

lemma sample_step:
  "guard_step machine_kernel child_of ck alone 7 (Free, source_machine)
     (Held \<lparr>lock_pid = 7, lock_detached = False\<rparr> True, frozen_machine)"
  using step_attach [OF sample_attach] sample_attach_stopped by simp

lemma guard_lifecycle_witness: "c_stopped (child_of frozen_machine 7) = True"
  using guard_lifecycle [OF machine_guarding sample_running r_into_rtranclp, OF sample_step] by simp

text \<open>C7: A snapshot is a consistent cut. As long as the guard is not released and the process is
  there, no step moves it: its registers and its floating-point state are those it had when the guard
  was taken over, and if it has one thread and shares nothing, so are its memory and its
  descriptors. Whatever is read under one guard, in any order and however often, was true at one moment.\<close>

theorem frozen_until_released:
  assumes "guarding_tracer K cv sysc" "\<not> c_stopped (cv s p)"
    and "guard_run K cv ck alone p (Free, s) (Held l there, u)" "\<not> lock_detached l"
    and "guard_stay K cv ck alone p (Held l there, u) (h, t)"
  shows "\<exists>still. h = Held l still \<and> c_stopped (cv t p) = still \<and> (still \<longrightarrow> there \<and> unmoved alone (cv u p) (cv t p))"
proof -
  have start: "custody_ok p (cv u p) (Held l there)"
    using guarding_tracer.guard_run_keeps [OF assms(1,3)] assms(2) by simp
  from guarding_tracer.frozen_stay [OF assms(1,5) this] obtain b
    where b: "h = Held l b" "b \<longrightarrow> there \<and> unmoved alone (cv u p) (cv t p)" by blast
  have "guard_run K cv ck alone p (Held l there, u) (h, t)"
    using assms(5) by (rule mono_rtranclp [rule_format, rotated]) simp
  from guarding_tracer.guard_run_keeps [OF assms(1) this start] b assms(4) show ?thesis by auto
qed

lemma frozen_until_released_witness:
  "unmoved True (source_child\<lparr>c_stopped := True\<rparr>)
     (child_of (snd (capture_registers machine_kernel \<lparr>lock_pid = 7, lock_detached = False\<rparr> frozen_machine)) 7)"
proof -
  let ?l = "\<lparr>lock_pid = 7, lock_detached = False\<rparr>"
  let ?t = "snd (capture_registers machine_kernel ?l frozen_machine)"
  have "guard_step machine_kernel child_of sum_ck True 7 (Held ?l True, frozen_machine) (Held ?l True, ?t)"
    by (rule step_registers) (simp add: prod_eq_iff)
  then have stay: "guard_stay machine_kernel child_of sum_ck True 7 (Held ?l True, frozen_machine) (Held ?l True, ?t)"
    by (intro r_into_rtranclp) simp
  have start: "guard_run machine_kernel child_of sum_ck True 7 (Free, source_machine) (Held ?l True, frozen_machine)"
    using sample_step by (rule r_into_rtranclp)
  have "child_of frozen_machine 7 = source_child\<lparr>c_stopped := True\<rparr>"
    by (simp add: child_of_def source_machine_def sample_machine_def)
  with frozen_until_released [OF machine_guarding sample_running start _ stay] show ?thesis by auto
qed

text \<open>C30: \<open>capture\<close> and \<open>resume\<close> are runs of that life cycle, on every kernel: each begins and ends
  with nobody in custody, or has lost the process in a failed wait and says so.\<close>

theorem programs_are_runs:
  "lets_go K cv ck alone p s (capture K ck f64_secs host p s) \<and> lets_go K cv ck alone p s (cmd_resume K p s)"
  by (simp add: capture_lets_go resume_lets_go)

text \<open>So a process that was running is running again after \<open>capture\<close> and after \<open>resume\<close>,
  whatever the result, unless the result is the error of the wait.\<close>

theorem capture_and_resume_release:
  assumes "guarding_tracer K cv sysc" "\<not> c_stopped (cv s p)"
  shows "(\<not> c_stopped (cv (snd (capture K ck f64_secs host p s)) p) \<or>
       (\<exists>q x. fst (capture K ck f64_secs host p s) = Inl (Capture_Err (WaitAfterAttachFailed q x)))) \<and>
     (\<not> c_stopped (cv (snd (cmd_resume K p s)) p) \<or>
       (\<exists>q x. fst (cmd_resume K p s) = Inl (Capture_Err (WaitAfterAttachFailed q x))))"
  using guarding_tracer.lets_go_running [OF assms(1) _ assms(2)]
    capture_lets_go [of K cv ck True p s f64_secs host] resume_lets_go [of K cv ck True p s]
  by (metis prod.collapse)

lemma capture_and_resume_release_witness:
  "\<not> c_stopped (child_of (snd sample_capture) 7)"
proof -
  obtain snap t where "sample_capture = (Inr snap, t)" using sample_run by blast
  with capture_and_resume_release [OF machine_guarding sample_running, of sum_ck no_secs "''x86_64''"]
  show ?thesis by simp
qed

end
