(* ===== verification/Restoration.thy ===== *)
theory Restoration
  imports Machine
begin

text \<open>
  The properties of restoration: what an injected system call leaves behind, what a restored
  process looks like, what the restorer reports, what happens on its error paths, and what it
  does not do. Properties of effects hold for every kernel that obeys the laws of the locales
  \<open>tracer\<close>, \<open>live_tracer\<close> or \<open>fd_kernel\<close>; properties of control flow hold for every kernel.
\<close>

section \<open>Concrete inputs\<close>

definition file_spec :: "u32 \<Rightarrow> i32 \<Rightarrow> string \<Rightarrow> i32 \<Rightarrow> fd_spec" where
  "file_spec n ty path flags = \<lparr>fs_num = n, fs_type = ty, fs_path = path, fs_offset = 0,
     fs_open_flags = flags\<rparr>"

definition small_snapshot :: "fd_spec list \<Rightarrow> fd_spec process_snapshot" where
  "small_snapshot fds = sample_snapshot (Some (sample_registers 0x10000 0x20800 []))
     [sample_region 0x10000 0x1000 ''rwxp'' [0x90, 0x91, 0x92] 0x1b3] fds"

lemma run_step: "fst run = r \<Longrightarrow> run = (r, snd run)"
  by (simp add: prod_eq_iff)

text \<open>The machine after the fork of the stub.\<close>

definition forked_machine :: machine where
  "forked_machine = snd (fork_stub machine_kernel sample_machine)"

lemma forked_run: "fork_stub machine_kernel sample_machine = (Inr 42, forked_machine)"
proof -
  have "fst (fork_stub machine_kernel sample_machine) = Inr 42" by code_simp
  then show ?thesis by (simp add: forked_machine_def prod_eq_iff)
qed

lemma forked_child:
  "c_mem (child_of forked_machine 42) = code_page"
  "ur_rip (c_regs (child_of forked_machine 42)) = 0x400010"
  "c_stopped (child_of forked_machine 42)" "c_fds (child_of forked_machine 42) = mc_fds sample_machine"
  by (simp_all add: forked_machine_def fork_stub_def act_simps machine_kernel_def mk_fork_def
      mk_waitpid_def child_stub_def is_stopped_def sample_machine_def sample_child_def Let_def child_of_def
      gp_of_proto_def sample_registers_def ok_act_def try_act_def)

section \<open>Injected system calls\<close>

text \<open>Patching the code word of the child puts the machine code of a system call followed by
  a trap into its three lowest bytes and leaves the five bytes above as they are (the comment
  in the code says they become no-operations).\<close>

theorem inject_patch_bytes:
  "word_bytes (inject_patch w) = [0x0f, 0x05, 0xcc] @ drop 3 (word_bytes w)"
  by (rule word_bytes_patch)

text \<open>C28: An injected \<open>mmap\<close> that returns is transparent to the child: apart from the new pages,
  its memory with the patched code, its registers and its descriptors are what they were before,
  and the address is the one that was asked for.\<close>

theorem injected_mmap_transparent:
  assumes "tracer K cv sysc"
    and "inj_mmap K p a n prot (MAP_FIXED OR MAP_PRIVATE OR MAP_ANONYMOUS) fd 0 s = (Inr v, t)"
    and "code_clear (cv s p) a n"
  shows "v = a \<and> page_aligned a \<and>
     cv t p = (cv s p)\<lparr>c_mem := map_pages (c_mem (cv s p)) a n prot\<rparr>"
  by (rule tracer.inj_mmap_effect [OF assms])

lemma code_clear_sample: "code_clear (child_of forked_machine 42) 0x10000 0x1000"
proof -
  have "in_pages 0x10000 0x1000 x \<Longrightarrow> unat x < 0x20000" for x
    by (simp add: in_pages_def page_up_def)
  moreover have "unat (0x400010 + of_nat i :: u64) \<ge> 0x20000" if "i < 8" for i
    using that by (subst word_le_add_unat) (simp_all add: unat_of_nat)
  ultimately show ?thesis
    unfolding code_clear_def forked_child by (meson leD)
qed

lemma injected_mmap_transparent_witness:
  "c_mem (child_of (snd (inj_mmap machine_kernel 42 0x10000 0x1000 3
       (MAP_FIXED OR MAP_PRIVATE OR MAP_ANONYMOUS) (- 1) 0 forked_machine)) 42) =
   map_pages code_page 0x10000 0x1000 3"
proof -
  let ?m = "inj_mmap machine_kernel 42 0x10000 0x1000 3
       (MAP_FIXED OR MAP_PRIVATE OR MAP_ANONYMOUS) (- 1) 0 forked_machine"
  have "fst ?m = Inr 0x10000" by code_simp
  then have "?m = (Inr 0x10000, snd ?m)" by (simp add: prod_eq_iff)
  from injected_mmap_transparent [OF machine_tracer this code_clear_sample] show ?thesis
    by (simp add: forked_child)
qed

text \<open>A stopped child whose code is mapped and executable completes an injected \<open>dup2\<close>: the
  call returns its value or its error number, on no other path.\<close>

theorem injected_dup2_completes:
  assumes "live_tracer K cv sysc" "c_stopped (cv s p)"
    and "mapped (c_mem (cv s p)) (ur_rip (c_regs (cv s p))) 8"
    and "executable (c_mem (cv s p)) (ur_rip (c_regs (cv s p))) 3"
  shows "completed (fst (inj_dup2 K p old new s))"
  by (rule live_tracer.inj_dup2_completes [OF assms])

lemma injected_dup2_completes_witness:
  "completed (fst (inj_dup2 machine_kernel 42 3 5 forked_machine))"
proof -
  have "mapped code_page 0x400010 8" "executable code_page 0x400010 3" by code_simp+
  then show ?thesis
    by (intro injected_dup2_completes [OF machine_live]) (simp_all only: forked_child)
qed

text \<open>When the child stops for another reason than the trap, the injection fails with the
  patch left in the child: no call follows the wait, so neither the code word nor the registers
  are put back.\<close>

theorem inject_leaves_patch:
  assumes "k_getregs K p s = (Inr regs, s1)" "k_peek K p (ur_rip regs) s1 = (Inr w, s2)"
    and "k_poke K p (ur_rip regs) (inject_patch w) s2 = (Inr (), s3)"
    and "k_setregs K p (syscall_regs regs nr a0 a1 a2 a3 a4 a5) s3 = (Inr (), s4)"
    and "k_cont K p s4 = (Inr (), s5)" "k_waitpid K p s5 = (Inr status, s6)"
    and "status \<noteq> Stopped SIGTRAP"
  shows "\<exists>e. inject K p nr a0 a1 a2 a3 a4 a5 s = (Inl (Inject_Err e), s6)"
  using assms
  by (cases status) (auto simp: inject_def inject_run_def act_simps Let_def)

text \<open>A kernel whose child dies of a segmentation fault as soon as it runs.\<close>

definition faulting_kernel :: "machine kernel" where
  "faulting_kernel = machine_kernel
     \<lparr>k_waitpid := \<lambda>p s. (Inr (Stopped SIGSEGV), s), k_cont := \<lambda>p s. (Inr (), s)\<rparr>"

lemma inject_leaves_patch_witness:
  "\<exists>e u. inject faulting_kernel 42 SYS_dup2 0 1 0 0 0 0 forked_machine = (Inl (Inject_Err e), u) \<and>
     bytes_at (c_mem (child_of u 42)) 0x400010 [0x0f, 0x05, 0xcc]"
proof -
  let ?K = faulting_kernel
  define regs where "regs = c_regs (mc_child forked_machine)"
  define s1 where "s1 = snd (k_getregs ?K 42 forked_machine)"
  define s2 where "s2 = snd (k_peek ?K 42 (ur_rip regs) s1)"
  define s3 where "s3 = snd (k_poke ?K 42 (ur_rip regs) (inject_patch 0x9090909090909090) s2)"
  define s4 where "s4 = snd (k_setregs ?K 42 (syscall_regs regs SYS_dup2 0 1 0 0 0 0) s3)"
  note d = s4_def s3_def s2_def s1_def regs_def
  have 1: "k_getregs ?K 42 forked_machine = (Inr regs, s1)"
    unfolding s1_def by (rule run_step) (unfold d, code_simp)
  have 2: "k_peek ?K 42 (ur_rip regs) s1 = (Inr 0x9090909090909090, s2)"
    unfolding s2_def by (rule run_step) (unfold d, code_simp)
  have 3: "k_poke ?K 42 (ur_rip regs) (inject_patch 0x9090909090909090) s2 = (Inr (), s3)"
    unfolding s3_def by (rule run_step) (unfold d, code_simp)
  have 4: "k_setregs ?K 42 (syscall_regs regs SYS_dup2 0 1 0 0 0 0) s3 = (Inr (), s4)"
    unfolding s4_def by (rule run_step) (unfold d, code_simp)
  have "\<exists>e. inject ?K 42 SYS_dup2 0 1 0 0 0 0 forked_machine = (Inl (Inject_Err e), s4)"
    by (rule inject_leaves_patch [OF 1 2 3 4, where status = "Stopped SIGSEGV"])
       (simp_all add: faulting_kernel_def)
  moreover have "bytes_at (c_mem (child_of s4 42)) 0x400010 [0x0f, 0x05, 0xcc]"
    unfolding d by code_simp
  ultimately show ?thesis by blast
qed

section \<open>The restored process\<close>

text \<open>C3: A restoration that returns has reproduced the snapshot: at every address of the pages
  of a region the new process has the byte of the region's data (zero beyond the data) under
  the region's protection, its general and floating-point registers are those of the snapshot,
  and it runs. This holds for every kernel that obeys the laws and every \<open>restorable\<close>
  snapshot.\<close>

theorem restore_reproduces_snapshot:
  assumes "fd_kernel K cv sysc pfds"
    and "restore K ck host snap s = (Inr res, t)" "fork_stub K s = (Inr p, u)"
    and "restorable (cv u p) snap regs"
  shows "(\<forall>r \<in> set (memory_regions snap). \<forall>x. in_pages (start_addr r) (size_bytes r) x \<longrightarrow>
        c_mem (cv t (res_pid res)) x = Some (region_byte r x, perms_to_prot (permissions r))) \<and>
     c_regs (cv t (res_pid res)) = gp_of_proto regs \<and>
     (pr_fpu_state regs \<noteq> [] \<longrightarrow> c_fp (cv t (res_pid res)) = pr_fpu_state regs) \<and>
     \<not> c_stopped (cv t (res_pid res))"
  using fd_kernel.restore_effect [OF assms] by (auto simp: load_regions_inside)

text \<open>A restoration on the reference machine.\<close>

abbreviation small_run :: "fd_spec list \<Rightarrow> (error + restore_result) \<times> machine" where
  "small_run fds \<equiv> restore machine_kernel sum_ck ''x86_64'' (small_snapshot fds) sample_machine"

lemma small_run_result:
  "fst (small_run []) = Inr \<lparr>res_pid = 42, regions_ok = 1,
     fd_report = \<lparr>rr_restored = [], rr_skipped = [], rr_failed = []\<rparr>\<rparr>"
  by code_simp

lemma small_run_fd_result:
  "fst (small_run [file_spec 5 0 ''/tmp/a'' 0]) = Inr \<lparr>res_pid = 42, regions_ok = 1,
     fd_report = \<lparr>rr_restored = [Restored 5 3], rr_skipped = [], rr_failed = []\<rparr>\<rparr>"
  by code_simp

lemma small_restorable:
  "restorable (child_of forked_machine 42) (small_snapshot fds) (sample_registers 0x10000 0x20800 [])"
proof -
  let ?r = "sample_region 0x10000 0x1000 ''rwxp'' [0x90, 0x91, 0x92] 0x1b3"
  have "mapped (load_regions code_page [?r]) 0x10000 8"
    "executable (load_regions code_page [?r]) 0x10000 3" by code_simp+
  then show ?thesis
    using code_clear_sample
    by (simp add: restorable_def small_snapshot_def sample_snapshot_def forked_child
        sample_registers_def) (simp add: sample_region_def)
qed

lemma restore_reproduces_snapshot_witness:
  "c_mem (child_of (snd (small_run [])) 42) 0x10001 = Some (0x91, 7) \<and>
   ur_rsp (c_regs (child_of (snd (small_run [])) 42)) = 0x20800"
proof -
  let ?r = "sample_region 0x10000 0x1000 ''rwxp'' [0x90, 0x91, 0x92] 0x1b3"
  note e = restore_reproduces_snapshot [OF machine_fds run_step [OF small_run_result] forked_run
      small_restorable]
  have "in_pages (start_addr ?r) (size_bytes ?r) 0x10001" by code_simp
  with e have "c_mem (child_of (snd (small_run [])) 42) 0x10001 =
      Some (region_byte ?r 0x10001, perms_to_prot (permissions ?r))"
    by (simp add: small_snapshot_def sample_snapshot_def)
  moreover have "region_byte ?r 0x10001 = 0x91"
    by (simp add: region_byte_def sample_region_def)
  moreover have "perms_to_prot (permissions ?r) = 7"
    by code_simp
  ultimately show ?thesis
    using e by (simp add: gp_of_proto_def sample_registers_def)
qed

text \<open>Outside the pages of the snapshot's regions the restored process keeps the memory of
  the restorer it was forked from; nothing of it is unmapped.\<close>

theorem restore_keeps_restorer_memory:
  assumes "fd_kernel K cv sysc pfds"
    and "restore K ck host snap s = (Inr res, t)" "fork_stub K s = (Inr p, u)"
    and "restorable (cv u p) snap regs"
    and "\<forall>r \<in> set (memory_regions snap). \<not> in_pages (start_addr r) (size_bytes r) x"
  shows "c_mem (cv t (res_pid res)) x = c_mem (cv u p) x"
  using fd_kernel.restore_effect [OF assms(1-4)] assms(5) by (auto simp: load_regions_outside)

lemma restore_keeps_restorer_memory_witness:
  "c_mem (child_of (snd (small_run [])) 42) 0x400010 = Some (0x90, 5)"
proof -
  have "\<not> in_pages 0x10000 0x1000 0x400010" "code_page 0x400010 = Some (0x90, 5)" by code_simp+
  then show ?thesis
    using restore_keeps_restorer_memory [OF machine_fds run_step [OF small_run_result] forked_run
        small_restorable, where x = "0x400010"]
    by (simp add: small_snapshot_def sample_snapshot_def sample_region_def forked_child)
qed

text \<open>C18: The descriptors of the snapshot never reach the restored process. Whatever the report
  says was restored, the process ends with exactly the table the restorer had at the fork: the
  files are opened in the restorer afterwards, and the child that executes \<open>dup2\<close> does not have
  them.\<close>

theorem restored_descriptors_lost:
  assumes "fd_kernel K cv sysc pfds"
    and "restore K ck host snap s = (Inr res, t)" "fork_stub K s = (Inr p, u)"
    and "restorable (cv u p) snap regs"
  shows "c_fds (cv t (res_pid res)) = pfds s"
  using fd_kernel.restore_effect [OF assms] by auto

lemma restored_descriptors_lost_witness:
  "\<exists>res t. small_run [file_spec 5 0 ''/tmp/a'' 0] = (Inr res, t) \<and>
     rr_restored (fd_report res) = [Restored 5 3] \<and> c_fds (child_of t (res_pid res)) 5 = None"
proof -
  note run = run_step [OF small_run_fd_result]
  have "mc_fds sample_machine 5 = None" by code_simp
  with restored_descriptors_lost [OF machine_fds run forked_run small_restorable]
  have "rr_restored (fd_report res) = [Restored 5 3] \<and> c_fds (child_of t (res_pid res)) 5 = None"
    if "small_run [file_spec 5 0 ''/tmp/a'' 0] = (Inr res, t)" for res t
    using that run by simp
  with run show ?thesis by blast
qed



text \<open>C19: The restorer leaks no descriptor. Whatever the snapshot and whatever the outcome, early
  errors, failed seeks and failed injections included, its own table of descriptors is in the
  end what it was in the beginning.\<close>

theorem restorer_closes_what_it_opened:
  assumes "fd_kernel K cv sysc pfds"
  shows "pfds (snd (restore K ck host snap s)) = pfds s"
  using fd_kernel.restore_table [OF assms] by (simp add: keeps_def)

lemma restorer_closes_what_it_opened_witness:
  "mc_fds (snd (small_run [file_spec 5 0 ''/tmp/a'' 0])) 3 = None"
  using restorer_closes_what_it_opened [OF machine_fds, of sum_ck "''x86_64''"
      "small_snapshot [file_spec 5 0 ''/tmp/a'' 0]" sample_machine]
  by (simp add: sample_machine_def)

definition stub_snapshot :: "fd_spec process_snapshot" where
  "stub_snapshot = sample_snapshot (Some (sample_registers 0x400000 0x20800 []))
     [sample_region 0x400000 0x1000 ''rwxp'' [0x90] 0x90] []"

text \<open>Nothing compares the regions of the snapshot with the code the stub executes. A snapshot
  with a region there passes all the checks, although \<open>conflicts_with\<close>, which is never called,
  finds the conflict, and the first mapping takes the stub's code away: on the reference kernel
  the restoration ends with the segmentation fault of the stub.\<close>

theorem stub_overlap_not_detected:
  "restorer_validate ''x86_64'' stub_snapshot = Inr () \<and>
   conflicts_with (from_snapshot stub_snapshot) \<lparr>ar_start = 0x400000, ar_end = 0x401000\<rparr> \<and>
   fst (restore machine_kernel sum_ck ''x86_64'' stub_snapshot sample_machine) =
     Inl (Inject_Err (InjectSignal SIGSEGV))"
proof (intro conjI)
  show "restorer_validate ''x86_64'' stub_snapshot = Inr ()" by code_simp
  show "conflicts_with (from_snapshot stub_snapshot) \<lparr>ar_start = 0x400000, ar_end = 0x401000\<rparr>"
    by code_simp
  show "fst (restore machine_kernel sum_ck ''x86_64'' stub_snapshot sample_machine) =
      Inl (Inject_Err (InjectSignal SIGSEGV))" by code_simp
qed

section \<open>What the restorer reports\<close>

text \<open>A result of the restorer accounts for the whole snapshot: it counts every region, the
  data of every region had its recorded checksum, and the three lists of the report hold one
  outcome per descriptor of the snapshot.\<close>

theorem restore_result_complete:
  assumes "restore K ck host snap s = (Inr res, t)"
  shows "regions_ok res = length (memory_regions snap) \<and>
     (\<forall>r \<in> set (memory_regions snap). ck (data r) = checksum r) \<and>
     length (rr_restored (fd_report res)) + length (rr_skipped (fd_report res)) +
       length (rr_failed (fd_report res)) = length (file_descriptors snap)"
  using restore_counts [OF assms] .

lemma restore_result_complete_witness:
  "sum_ck [0x90, 0x91, 0x92] = 0x1b3"
  using restore_result_complete [OF run_step [OF small_run_result]]
  by (simp add: small_snapshot_def sample_snapshot_def sample_region_def)

end
