(* ===== verification/RestorePaths.thy ===== *)
theory RestorePaths
  imports Restoration
begin

text \<open>
  Properties of the control flow of restoration that hold for every kernel: what is checked
  before anything is touched, what happens to the child on the error paths, and how a single
  descriptor is reopened.
\<close>

section \<open>Checks before the fork\<close>

text \<open>The checks do not compare the data of a region with its size: there is a snapshot they
  accept although a region carries more bytes than it maps.\<close>

theorem validate_accepts_oversized_data:
  "\<exists>snap :: fd_spec process_snapshot. restorer_validate ''x86_64'' snap = Inr () \<and>
     (\<exists>r \<in> set (memory_regions snap). unat (size_bytes r) < length (data r))"
proof -
  let ?r = "sample_region 0x10000 1 ''rw-p'' [1, 2] 3"
  let ?s = "sample_snapshot (Some (sample_registers 0 0 [])) [?r] ([] :: fd_spec list)"
  have "restorer_validate ''x86_64'' ?s = Inr ()" by code_simp
  moreover have "unat (size_bytes ?r) < length (data ?r)" by (simp add: sample_region_def)
  ultimately show ?thesis by (auto simp: sample_snapshot_def)
qed

section \<open>Error paths\<close>

text \<open>C36: An error of the restorer has one of three histories: the checks refused the snapshot
  and nothing was done; the fork of the stub failed with this error, and nothing was done
  after it; or a stub was stopped and ready, the restoration failed later, and the child was
  then killed with \<open>SIGKILL\<close> and reaped, in this order, as the last two calls.\<close>

theorem restore_error_paths:
  assumes "restore K ck host snap s = (Inl e, t)"
  shows "(restorer_validate host snap = Inl e \<and> t = s) \<or>
     (restorer_validate host snap = Inr () \<and> fork_stub K s = (Inl e, t)) \<or>
     (\<exists>p u v. restorer_validate host snap = Inr () \<and> fork_stub K s = (Inr p, u) \<and>
        restore_inner K ck p snap u = (Inl e, v) \<and>
        t = snd (k_waitpid K p (snd (k_kill K p SIGKILL v))))"
  using assms unfolding restore_def bind_act_def
  by (auto simp: ignore_act_def split: sum.splits prod.splits)

abbreviation bad_checksum :: "fd_spec process_snapshot" where
  "bad_checksum \<equiv> sample_snapshot (Some (sample_registers 0x10000 0x20800 []))
     [sample_region 0x10000 0x1000 ''rwxp'' [0x90] 0] []"

lemma restore_error_paths_witness:
  "mc_status (snd (restore machine_kernel sum_ck ''x86_64'' bad_checksum sample_machine)) =
     Signaled SIGKILL"
proof -
  have v: "restorer_validate ''x86_64'' bad_checksum = Inr ()" by code_simp
  have "fst (restore machine_kernel sum_ck ''x86_64'' bad_checksum sample_machine) =
      Inl (Restore_Err (ChecksumMismatch 0x10000 0 0x90))" by code_simp
  from restore_error_paths [OF run_step [OF this]] v forked_run
  obtain w where i: "restore_inner machine_kernel sum_ck 42 bad_checksum forked_machine =
      (Inl (Restore_Err (ChecksumMismatch 0x10000 0 0x90)), w)"
    and t: "snd (restore machine_kernel sum_ck ''x86_64'' bad_checksum sample_machine) =
      snd (k_waitpid machine_kernel 42 (snd (k_kill machine_kernel 42 SIGKILL w)))" by auto
  have "mc_pid (snd (restore_inner machine_kernel sum_ck 42 bad_checksum forked_machine)) = 42"
    by code_simp
  with i t show ?thesis
    by (simp add: machine_kernel_def mk_kill_def mk_waitpid_def)
qed

text \<open>A stub that is forked but does not report \<open>SIGSTOP\<close> is left behind: the restorer
  returns the error right after the wait and neither kills nor reaps the child.\<close>

theorem failed_stub_not_killed:
  assumes "restorer_validate host snap = Inr ()"
    and "k_fork K child_stub s = (Inr p, s1)" "k_waitpid K p s1 = (Inr status, s2)"
    and "status \<noteq> Stopped SIGSTOP"
  shows "\<exists>e. restore K ck host snap s = (Inl (Restore_Err e), s2)"
  using assms by (cases status) (auto simp: restore_def fork_stub_def act_simps)

lemma failed_stub_not_killed_witness:
  "\<exists>e. restore faulting_kernel sum_ck ''x86_64'' (small_snapshot []) sample_machine =
     (Inl (Restore_Err e), snd (k_fork faulting_kernel child_stub sample_machine))"
proof (rule failed_stub_not_killed [where status = "Stopped SIGSEGV"])
  show "restorer_validate ''x86_64'' (small_snapshot []) = Inr ()" by code_simp
  show "k_fork faulting_kernel child_stub sample_machine =
      (Inr 42, snd (k_fork faulting_kernel child_stub sample_machine))"
    by (rule run_step) code_simp
qed (simp_all add: faulting_kernel_def)

section \<open>Single descriptors\<close>

text \<open>A regular file is reopened close-on-exec, for reading and writing unless it was captured
  read-only without append, never write-only and never truncating or creating: these are the
  only flags that reach \<open>open(2)\<close>.\<close>

theorem regular_reopen_flags:
  "\<exists>fl. regular_open_flags spec = Inr fl \<and>
     (\<forall>i. bit fl i \<longleftrightarrow> i = 19 \<or>
        (i = 1 \<and> (fs_open_flags spec AND O_ACCMODE \<in> {O_WRONLY, O_RDWR} \<or> bit (fs_open_flags spec) 10)) \<or>
        (i = 10 \<and> bit (fs_open_flags spec) 10))"
proof -
  have app: "fs_open_flags spec AND O_APPEND \<noteq> 0 \<longleftrightarrow> bit (fs_open_flags spec) 10"
  proof -
    have "O_APPEND = 2 ^ 10" by (simp add: O_APPEND_def)
    then show ?thesis by (metis and_exp_eq_0_iff_not_bit)
  qed
  show ?thesis
    by (auto simp: regular_open_flags_def regular_options_def access_flags_def Let_def app
        bit_simps o_flag_bits)
qed

end
