(* ===== verification/ProcFiles.thy ===== *)
theory ProcFiles
  imports Snapshot
begin

text \<open>
  What the readers of \<open>snapshot.rs\<close> make of the files the kernel writes: \<open>/proc/<pid>/status\<close>,
  a list of keys and values, and \<open>/proc/<pid>/stat\<close>, one line of fields.
\<close>

section \<open>Words\<close>

lemma words_from_append:
  "is_ws c \<Longrightarrow> words_from acc (xs @ c # ys) = words_from acc xs @ words_from [] ys"
  by (induction acc xs rule: words_from.induct) simp_all

lemma split_whitespace_append:
  "is_ws c \<Longrightarrow> split_whitespace (xs @ c # ys) = split_whitespace xs @ split_whitespace ys"
  by (simp add: split_whitespace_def words_from_append)

lemma words_from_word: "list_all (\<lambda>c. \<not> is_ws c) w \<Longrightarrow> words_from acc w = words_from (rev w @ acc) []"
  by (induction w arbitrary: acc) simp_all

lemma split_whitespace_word: "no_ws w \<Longrightarrow> split_whitespace w = [w]"
  by (simp add: split_whitespace_def words_from_word no_ws_def)

lemma split_whitespace_pad: "\<forall>c \<in> set p. is_ws c \<Longrightarrow> split_whitespace (p @ s) = split_whitespace s"
  by (induction p) (simp_all add: split_whitespace_def)

lemma first_word_append: "no_ws w \<Longrightarrow> is_ws c \<Longrightarrow> first_word (w @ c # s) = Some w"
  by (simp add: first_word_def split_whitespace_append split_whitespace_word)

lemma first_word_pad: "\<forall>c \<in> set p. is_ws c \<Longrightarrow> first_word (p @ s) = first_word s"
  by (simp add: first_word_def split_whitespace_pad)

lemma no_ws_show_radix: "2 \<le> r \<Longrightarrow> r \<le> 36 \<Longrightarrow> no_ws (show_radix r n)"
  using set_show_radix [of r _ n] show_radix_nonempty [of r n]
  by (fastforce simp: no_ws_def list_all_iff digit_char_not_ws)

section \<open>The status file\<close>

text \<open>A line of the file is a key, a colon, a tabulator and a value (\<open>proc(5)\<close>).\<close>

definition show_status :: "(string \<times> string) list \<Rightarrow> string" where
  "show_status kvs = concat (map (\<lambda>(k, v). k @ '':'' @ tab # v @ [newline]) kvs)"

definition status_key :: "string \<Rightarrow> bool" where
  "status_key k \<longleftrightarrow> CHR '':'' \<notin> set k \<and> newline \<notin> set k"

definition status_ok :: "(string \<times> string) list \<Rightarrow> bool" where
  "status_ok kvs \<longleftrightarrow> list_all (\<lambda>(k, v). status_key k \<and> newline \<notin> set v \<and>
     (v = [] \<or> last v \<noteq> carriage_return)) kvs"

definition status_line :: "string \<times> string \<Rightarrow> string" where
  "status_line kv = fst kv @ '':'' @ tab # snd kv"

lemma lines_show_status: "status_ok kvs \<Longrightarrow> lines (show_status kvs) = map status_line kvs"
proof (induction kvs)
  case (Cons kv kvs)
  obtain k v where kv: "kv = (k, v)" by fastforce
  have "CHR '':'' \<noteq> newline" "tab \<noteq> newline" "tab \<noteq> carriage_return" by code_simp+
  with Cons.prems kv have "newline \<notin> set (status_line kv)" "last (status_line kv) \<noteq> carriage_return"
    by (auto simp: status_ok_def status_key_def status_line_def)
  moreover have "show_status (kv # kvs) = status_line kv @ newline # show_status kvs"
    by (simp add: show_status_def status_line_def kv)
  ultimately show ?case using Cons by (simp add: lines_Cons status_ok_def)
qed (simp add: show_status_def)

lemma status_line_key:
  assumes "status_key k" "status_key key"
  shows "starts_with (key @ '':'') (status_line (k, v)) \<longleftrightarrow> k = key"
proof -
  have "split_once CHR '':'' (key @ CHR '':'' # t) = Some (key, t)"
    "split_once CHR '':'' (k @ CHR '':'' # t) = Some (k, t)" for t
    using assms by (simp_all add: status_key_def split_once_append)
  then have "k @ CHR '':'' # t = key @ CHR '':'' # u \<Longrightarrow> k = key" for t u
    by (metis Pair_inject option.inject)
  then show ?thesis
    by (auto simp: starts_with_iff_prefix prefix_def status_line_def)
qed

lemma parse_status_field_map_of:
  assumes "k_read_to_string K (proc_file p ''status'') s = Inr (show_status kvs)" "status_ok kvs"
    and "status_key key"
  shows "parse_status_field K p (key @ '':'') s = map_option trim (map_of kvs key)"
proof -
  have trim: "trim (tab # v) = trim v" for v by (simp add: trim_def)
  have "map_option (\<lambda>l. trim (drop (length (key @ '':'')) l)) (find (starts_with (key @ '':'')) (map status_line kvs)) =
      map_option trim (map_of kvs key)"
    using assms(2)
  proof (induction kvs)
    case (Cons kv kvs)
    obtain k v where kv: "kv = (k, v)" by fastforce
    with Cons.prems have "status_key k" by (simp add: status_ok_def)
    then have st: "starts_with (key @ '':'') (status_line kv) \<longleftrightarrow> k = key"
      using assms(3) by (simp add: kv status_line_key)
    show ?case
    proof (cases "k = key")
      case True
      with st show ?thesis by (simp add: kv status_line_def trim)
    next
      case False
      with st Cons show ?thesis by (simp add: kv status_ok_def)
    qed
  qed simp
  with assms(1,2) show ?thesis by (simp add: parse_status_field_def lines_show_status)
qed

text \<open>The values that are read as numbers: a count of kilobytes, and the first of four ids.\<close>

lemma u64_show_nat: "n < 2 ^ 64 \<Longrightarrow> u64_from_str_radix 10 (show_nat n) = Some (of_nat n)"
  using u64_from_str_radix_show [of 10 "of_nat n"] by (simp add: show_nat_def unat_of_nat)

lemma no_ws_show_nat: "no_ws (show_nat n)"
  by (simp add: show_nat_def no_ws_show_radix)

lemma trim_words: "split_whitespace (trim v) = split_whitespace v"
proof -
  have pre: "split_whitespace (dropWhile is_ws v) = split_whitespace v" for v
    by (induction v) (simp_all add: split_whitespace_def)
  have suf: "split_whitespace (v @ w) = split_whitespace v" if "\<forall>c \<in> set w. is_ws c" for v w
  proof (cases w)
    case (Cons c cs)
    with that have "split_whitespace cs = []"
      using split_whitespace_pad [of cs "[]"] by (simp add: split_whitespace_def)
    with Cons that show ?thesis by (simp add: split_whitespace_append)
  qed simp
  have "v = trim v @ rev (takeWhile is_ws (rev v))" if "v = dropWhile is_ws v" for v
    using that by (metis trim_def rev_append rev_rev_ident takeWhile_dropWhile_id)
  then have "split_whitespace (dropWhile is_ws v) = split_whitespace (trim (dropWhile is_ws v))"
    by (metis suf dropWhile_idem set_rev set_takeWhileD)
  moreover have "trim (dropWhile is_ws v) = trim v" by (simp add: trim_def)
  ultimately show ?thesis by (simp add: pre)
qed

lemma first_word_trim: "first_word (trim v) = first_word v"
  by (simp add: first_word_def trim_words)

lemma parse_status_kb_shown:
  assumes "k_read_to_string K (proc_file p ''status'') s = Inr (show_status kvs)" "status_ok kvs"
    and "status_key key" "map_of kvs key = Some (replicate i CHR '' '' @ show_nat n @ '' kB'')" "n < 2 ^ 64"
  shows "parse_status_kb K p (key @ '':'') s = Some (of_nat n)"
proof -
  have "first_word (trim (replicate i CHR '' '' @ show_nat n @ '' kB'')) = Some (show_nat n)"
    by (simp add: first_word_trim first_word_pad first_word_append no_ws_show_nat)
  with assms(4,5) parse_status_field_map_of [OF assms(1-3)] show ?thesis
    by (simp add: parse_status_kb_def u64_show_nat)
qed

lemma get_uid_shown:
  assumes "k_read_to_string K (proc_file p ''status'') s = Inr (show_status kvs)" "status_ok kvs"
    and "map_of kvs ''Uid'' = Some (show_nat (unat u) @ tab # rest)"
  shows "get_uid K p s = u"
proof -
  have key: "status_key ''Uid''" by code_simp
  have "first_word (trim (show_nat (unat u) @ tab # rest)) = Some (show_nat (unat u))"
    by (simp add: first_word_trim first_word_append no_ws_show_nat)
  moreover have "u32_from_str_radix 10 (show_nat (unat u)) = Some u"
    using parse_unsigned_show_radix [of 10 "unat u" 32] unat_lt2p_word [of u]
    by (simp add: u32_from_str_radix_def show_nat_def)
  ultimately show ?thesis
    using assms(3) parse_status_field_map_of [OF assms(1,2) key] by (simp add: get_uid_def)
qed

section \<open>The stat file\<close>

lemma no_ws_show_pid: "no_ws (show_pid p)"
  using no_ws_show_nat by (simp add: show_pid_def show_int_def no_ws_def is_ws_def)

text \<open>The fields after the name, which is in parentheses and may hold anything, are numbered from
  the third; the start time is the 22nd, the 20th after the name.\<close>

definition name_words :: "string \<Rightarrow> string list" where
  "name_words name = split_whitespace (''('' @ name @ '')'')"

lemma stat_words:
  "split_whitespace (show_pid p @ '' ('' @ name @ '') '' @ rest) =
     show_pid p # name_words name @ split_whitespace rest"
  using split_whitespace_append [of "CHR '' ''" "show_pid p" "''('' @ name @ '') '' @ rest"]
    split_whitespace_append [of "CHR '' ''" "''('' @ name @ '')''" rest]
  by (simp add: split_whitespace_word no_ws_show_pid name_words_def)

lemma process_age_field:
  assumes "k_read_to_string K (proc_file p ''stat'') s = Inr (show_pid p @ '' ('' @ name @ '') '' @ rest)"
    and "length (name_words name) \<le> 20"
    and "fs = split_whitespace rest" "20 - length (name_words name) < length fs"
    and "u64_from_str_radix 10 (fs ! (20 - length (name_words name))) = Some ticks"
    and "k_read_to_string K ''/proc/uptime'' s = Inr uptime" "first_word uptime = Some w"
    and "f64_secs w = Some secs"
  shows "process_age_seconds K f64_secs p s = saturating_sub secs (ticks div 100)"
proof -
  let ?ws = "show_pid p # name_words name @ fs"
  have "?ws ! 21 = fs ! (20 - length (name_words name))" "21 < length ?ws"
    using assms(2,4) by (simp_all add: nth_append)
  moreover obtain stat where "k_read_to_string K (proc_file p ''stat'') s = Inr stat"
    and "split_whitespace stat = ?ws"
    using assms(1) stat_words assms(3) by blast
  ultimately show ?thesis
    using assms(5-8) by (simp add: process_age_seconds_def Let_def opt_or_0_def)
qed

end
