(* ===== verification/Programs.thy ===== *)
theory Programs
  imports Freezing RestorePaths ProcFiles
begin

text \<open>
  The properties of the two programs as a whole: what their commands leave behind and what
  their exit status says.
\<close>

lemma machine_file_law:
  "k_write_file machine_kernel path bs u = (Inr (), v) \<Longrightarrow> k_read_file machine_kernel path v = Inr bs"
  by (auto simp: machine_kernel_def mk_write_file_def mk_read_file_def)

definition toy_decode :: "u8 list \<Rightarrow> fd_spec process_snapshot option" where
  "toy_decode bs = (if bs = [1] then Some (small_snapshot []) else None)"

text \<open>C37: What the restorer's user is told. On a restoration that completes, the printed counts
  add up to the number of descriptors in the snapshot. The program exits with 2 exactly when a
  descriptor failed under \<open>--strict-fds\<close>: it has then said that the process is still running, and
  killed it. Otherwise it exits with 0, says that the process is running, and touches nothing,
  whatever failed.\<close>

theorem restorer_exit_status:
  assumes "load K decode path s = Inr snap" "restore K ck host snap s = (Inr res, t)"
  shows "restorer_main K ck host decode text dbg path strict_fds s =
     (let rep = fd_report res; shown = completion_lines res @ skipped_lines dbg rep @ failed_lines text rep
      in if strict_fds \<and> rr_failed rep \<noteq> []
         then ((2, shown @ [abort_line (res_pid res)]), snd (k_kill K (res_pid res) SIGKILL t))
         else ((0, shown @ running_lines (res_pid res)), t)) \<and>
     last (completion_lines res) = Out (''  fds restored  : '' @ show_nat (length (rr_restored (fd_report res))) @
       '' / '' @ show_nat (length (file_descriptors snap)) @
       '' (skipped: '' @ show_nat (length (rr_skipped (fd_report res))) @
       '', failed: '' @ show_nat (length (rr_failed (fd_report res))) @ '')'')"
  using assms restore_counts [OF assms(2)]
  by (simp add: restorer_main_def run_def act_simps has_failures_def ignore_act_def Let_def
      completion_lines_def)

definition stored_machine :: machine where
  "stored_machine = sample_machine\<lparr>mc_bytes := (\<lambda>_. Some [1])\<rparr>"

lemma restorer_exit_status_witness:
  "\<exists>shown. fst (restorer_main machine_kernel sum_ck ''x86_64'' toy_decode (\<lambda>_. ''?'') (\<lambda>p. p) ''/tmp/s.pb''
      True stored_machine) = (0, shown @ running_lines 42)"
proof -
  have l: "load machine_kernel toy_decode ''/tmp/s.pb'' stored_machine = Inr (small_snapshot [])"
    by (simp add: load_def machine_kernel_def mk_read_file_def stored_machine_def toy_decode_def)
  have "fst (restore machine_kernel sum_ck ''x86_64'' (small_snapshot []) stored_machine) =
      Inr \<lparr>res_pid = 42, regions_ok = 1,
        fd_report = \<lparr>rr_restored = [], rr_skipped = [], rr_failed = []\<rparr>\<rparr>"
    by code_simp
  from restorer_exit_status [OF l run_step [OF this], of "\<lambda>_. ''?''" "\<lambda>p. p" True] show ?thesis
    by (simp add: Let_def)
qed

section \<open>The metadata of a snapshot\<close>

text \<open>The owner and the sizes of a process are read back from its \<open>status\<close> file as the kernel
  prints it, whatever other keys the file has and however the numbers are padded; the products
  do not wrap for any address space of a machine.\<close>

theorem status_file_read:
  assumes "k_read_to_string K (proc_file p ''status'') s = Inr (show_status kvs)" "status_ok kvs"
    and "map_of kvs ''Uid'' = Some (show_nat (unat u) @ tab # ids)"
    and "map_of kvs ''VmSize'' = Some (replicate i CHR '' '' @ show_nat n @ '' kB'')" "n < 2 ^ 54"
    and "map_of kvs ''VmRSS'' = Some (replicate j CHR '' '' @ show_nat m @ '' kB'')" "m < 2 ^ 54"
  shows "get_uid K p s = u \<and> unat (vm_size_bytes K p s) = n * 1024 \<and> unat (vm_rss_bytes K p s) = m * 1024"
proof -
  have keys: "status_key ''VmSize''" "status_key ''VmRSS''" by code_simp+
  have size: "parse_status_kb K p ''VmSize:'' s = Some (of_nat n)" "parse_status_kb K p ''VmRSS:'' s = Some (of_nat m)"
    using parse_status_kb_shown [OF assms(1,2) keys(1) assms(4)] parse_status_kb_shown [OF assms(1,2) keys(2) assms(6)]
      assms(5,7) by simp_all
  have "unat (of_nat k * 1024 :: u64) = k * 1024" if "k < 2 ^ 54" for k
    using that by (simp add: unat_word_ariths unat_of_nat)
  with size get_uid_shown [OF assms(1-3)] assms(5,7) show ?thesis
    by (simp add: vm_size_bytes_def vm_rss_bytes_def opt_or_0_def)
qed

definition status_fields :: "(string \<times> string) list" where
  "status_fields = [(''Name'', ''my app''), (''Uid'', ''1000'' @ tab # ''1000''),
     (''VmSize'', ''    4096 kB''), (''VmRSS'', ''    2048 kB'')]"

lemma status_file_read_witness:
  "unat (vm_rss_bytes machine_kernel 7 (sample_machine\<lparr>mc_text := (\<lambda>path.
     if path = ''/proc/7/status'' then Some (show_status status_fields) else None)\<rparr>)) = 2097152"
proof -
  let ?s = "sample_machine\<lparr>mc_text := (\<lambda>path.
     if path = ''/proc/7/status'' then Some (show_status status_fields) else None)\<rparr>"
  have n: "show_nat 1000 = ''1000''" "show_nat 4096 = ''4096''" "show_nat 2048 = ''2048''"
    "replicate 4 CHR '' '' = ''    ''"
    by code_simp+
  have ok: "status_ok status_fields" by code_simp
  have read: "k_read_to_string machine_kernel (proc_file 7 ''status'') ?s = Inr (show_status status_fields)"
    by (simp add: proc_7 machine_kernel_def mk_read_to_string_def)
  have uid: "map_of status_fields ''Uid'' = Some (show_nat (unat (1000 :: u32)) @ tab # ''1000'')"
    by (simp add: status_fields_def n)
  have size: "map_of status_fields ''VmSize'' = Some (replicate 4 CHR '' '' @ show_nat 4096 @ '' kB'')"
    by (simp only: n) (simp add: status_fields_def)
  have rss: "map_of status_fields ''VmRSS'' = Some (replicate 4 CHR '' '' @ show_nat 2048 @ '' kB'')"
    by (simp only: n) (simp add: status_fields_def)
  show ?thesis
    using status_file_read [OF read ok uid size _ rss] by simp
qed

text \<open>Which field of the \<open>stat\<close> file the age of a process is computed from: the start time is
  the 20th field after the name, and it is read there exactly if the name has no white space;
  a name of several words shifts the reading to an earlier field, one for each further word.\<close>

theorem process_age_start_field:
  assumes "k_read_to_string K (proc_file p ''stat'') s = Inr (show_pid p @ '' ('' @ name @ '') '' @ rest)"
    and "length (name_words name) \<le> 20"
    and "fs = split_whitespace rest" "20 - length (name_words name) < length fs"
    and "u64_from_str_radix 10 (fs ! (20 - length (name_words name))) = Some ticks"
    and "k_read_to_string K ''/proc/uptime'' s = Inr uptime" "first_word uptime = Some w"
    and "f64_secs w = Some secs"
  shows "process_age_seconds K f64_secs p s = saturating_sub secs (ticks div 100)"
  using assms by (rule process_age_field)

definition stat_rest :: string where
  "stat_rest = ''S 1 7 7 0 -1 4194304 1 0 0 0 1 2 0 0 20 0 1 0 98765 1000''"

definition aged_machine :: machine where
  "aged_machine = sample_machine\<lparr>mc_text := (\<lambda>path.
     if path = ''/proc/7/stat'' then Some (''7 (my app) '' @ stat_rest)
     else if path = ''/proc/uptime'' then Some ''5000.25 9000.00'' else None)\<rparr>"

lemma process_age_start_field_witness:
  "process_age_seconds machine_kernel (\<lambda>_. Some 5000) 7 aged_machine = 5000"
proof -
  have w: "split_whitespace stat_rest ! 18 = ''0''" "18 < length (split_whitespace stat_rest)"
    "first_word ''5000.25 9000.00'' = Some ''5000.25''" "show_pid 7 = ''7''"
    "length (name_words ''my app'') = 2"
    by code_simp+
  have z: "u64_from_str_radix 10 ''0'' = Some 0"
    by (simp add: u64_from_str_radix_def parse_unsigned_def strip_plus_def digit_val_def)
  have "process_age_seconds machine_kernel (\<lambda>_. Some 5000) 7 aged_machine = saturating_sub 5000 (0 div 100)"
    by (rule process_age_start_field [where name = "''my app''" and rest = stat_rest, OF _ _ refl _ _ _ w(3)])
       (simp_all add: w z proc_7 machine_kernel_def mk_read_to_string_def aged_machine_def)
  then show ?thesis by (simp add: saturating_sub_def)
qed

end
