(* ===== verification/UnitTests.thy ===== *)
theory UnitTests
  imports Cli
begin

text \<open>
  The unit tests of the repository, run on the model: each definition is the test of its name (the
  modules \<open>tests\<close> at the end of \<open>aslr.rs\<close>, \<open>memory.rs\<close>, \<open>fd_enum.rs\<close>, \<open>fd_restore.rs\<close> and
  \<open>restorer.rs\<close>), the conjunction of its assertions, and the lemma after it says that it passes.
  A test that runs on the system takes the kernel and its state. The two tests of the checksum
  and the one that lists the descriptors of the test process are about code outside the library.
\<close>

section \<open>aslr.rs\<close>

definition test_range_size :: bool where
  "test_range_size \<longleftrightarrow> range_size \<lparr>ar_start = 0x1000, ar_end = 0x3000\<rparr> = 0x2000"

definition test_range_overlap :: bool where
  "test_range_overlap \<longleftrightarrow>
     (let a = \<lparr>ar_start = 0x1000, ar_end = 0x3000\<rparr>;
          b = \<lparr>ar_start = 0x2000, ar_end = 0x4000\<rparr>;
          c = \<lparr>ar_start = 0x3000, ar_end = 0x5000\<rparr>
      in overlaps a b \<and> \<not> overlaps a c)"

definition test_validate_overlap_detected :: bool where
  "test_validate_overlap_detected \<longleftrightarrow>
     \<not> is_ok (layout_validate \<lparr>ranges = [\<lparr>ar_start = 0x1000, ar_end = 0x3000\<rparr>,
       \<lparr>ar_start = 0x2000, ar_end = 0x4000\<rparr>]\<rparr>)"

definition test_validate_above_47bit_rejected :: bool where
  "test_validate_above_47bit_rejected \<longleftrightarrow>
     \<not> is_ok (layout_validate \<lparr>ranges = [\<lparr>ar_start = push_bit 47 1, ar_end = push_bit 47 1 + 0x1000\<rparr>]\<rparr>)"

definition test_find_safe_base_rounded :: bool where
  "test_find_safe_base_rounded \<longleftrightarrow>
     find_safe_base \<lparr>ranges = [\<lparr>ar_start = 0x1000, ar_end = 0x2001\<rparr>]\<rparr> = 0x3000"

definition test_perms_to_prot :: bool where
  "test_perms_to_prot \<longleftrightarrow>
     perms_to_prot ''r--p'' = PROT_READ \<and>
     perms_to_prot ''rw-p'' = PROT_READ OR PROT_WRITE \<and>
     perms_to_prot ''r-xp'' = PROT_READ OR PROT_EXEC \<and>
     perms_to_prot ''rwxp'' = PROT_READ OR PROT_WRITE OR PROT_EXEC \<and>
     perms_to_prot ''---p'' = PROT_NONE"

lemma aslr_tests_pass:
  "test_range_size" "test_range_overlap" "test_validate_overlap_detected"
  "test_validate_above_47bit_rejected" "test_find_safe_base_rounded" "test_perms_to_prot"
proof -
  show test_range_size by (simp add: test_range_size_def range_size_def saturating_sub_def)
  show test_range_overlap by (simp add: test_range_overlap_def overlaps_def)
  show test_validate_overlap_detected
    by (simp add: test_validate_overlap_detected_def layout_validate_def overlaps_def range_size_def
        saturating_sub_def user_space_limit)
  show test_validate_above_47bit_rejected
    by (simp add: test_validate_above_47bit_rejected_def layout_validate_def USER_SPACE_LIMIT_def)
  show test_find_safe_base_rounded
    by (simp add: test_find_safe_base_rounded_def find_safe_base_def max_end_def page_round_up_def PAGE_def)
  show test_perms_to_prot by code_simp
qed

section \<open>memory.rs\<close>

text \<open>\<open>parse_maps_line(line).unwrap().unwrap()\<close> followed by assertions on the region.\<close>

definition on_region :: "string \<Rightarrow> (memory_region \<Rightarrow> bool) \<Rightarrow> bool" where
  "on_region line P \<longleftrightarrow> (case parse_maps_line line of Inr (Some region) \<Rightarrow> P region | _ \<Rightarrow> False)"

definition test_parse_maps_line_file_backed :: bool where
  "test_parse_maps_line_file_backed \<longleftrightarrow>
     on_region ''7f1234560000-7f1234561000 r--p 00001000 08:01 9876 /lib/libc.so.6'' (\<lambda>region.
       mr_start region = 0x7f1234560000 \<and>
       mr_end region = 0x7f1234561000 \<and>
       mr_perms region = ''r--p'' \<and>
       mr_offset region = 0x1000 \<and>
       mr_backing_file region = Some ''/lib/libc.so.6'' \<and>
       mr_region_type region = ''file'' \<and>
       is_readable region)"

definition test_parse_maps_line_heap :: bool where
  "test_parse_maps_line_heap \<longleftrightarrow>
     on_region ''55f4a1b00000-55f4a1c00000 rw-p 00000000 00:00 0  [heap]'' (\<lambda>region.
       mr_region_type region = ''heap'' \<and>
       mr_backing_file region = None \<and>
       is_readable region)"

definition test_parse_maps_line_anon :: bool where
  "test_parse_maps_line_anon \<longleftrightarrow>
     on_region ''7ffe00001000-7ffe00002000 rw-p 00000000 00:00 0'' (\<lambda>region.
       mr_region_type region = ''anon'')"

definition test_parse_maps_line_no_perms_skipped :: bool where
  "test_parse_maps_line_no_perms_skipped \<longleftrightarrow>
     on_region ''7f0000001000-7f0000002000 ---p 00000000 00:00 0'' should_skip"

definition test_should_skip_vsyscall :: bool where
  "test_should_skip_vsyscall \<longleftrightarrow>
     on_region ''ffffffffff600000-ffffffffff601000 --xp 00000000 00:00 0  [vsyscall]'' should_skip"

lemmas hex_numeral = show_radix.simps [of 16 "numeral k" for k] show_radix.simps [of 16 0]
  show_radix.simps [of 16 1] show_radix.simps [of 16 "Suc 0"]

lemma hex_digits:
  "digit_char 0 = CHR ''0''" "digit_char 1 = CHR ''1''" "digit_char (Suc 0) = CHR ''1''"
  "digit_char 2 = CHR ''2''" "digit_char 3 = CHR ''3''" "digit_char 4 = CHR ''4''"
  "digit_char 5 = CHR ''5''" "digit_char 6 = CHR ''6''" "digit_char 7 = CHR ''7''"
  "digit_char 8 = CHR ''8''" "digit_char 9 = CHR ''9''" "digit_char 10 = CHR ''a''"
  "digit_char 11 = CHR ''b''" "digit_char 12 = CHR ''c''" "digit_char 13 = CHR ''d''"
  "digit_char 14 = CHR ''e''" "digit_char 15 = CHR ''f''"
  by code_simp+

lemma zeros: "replicate 4 CHR ''0'' = ''0000''" "replicate 7 CHR ''0'' = ''0000000''"
  by code_simp+

lemmas print_entry = show_entry_def show_hex_def Let_def hex_numeral hex_digits zeros

text \<open>The lines of the tests are lines the kernel prints.\<close>

lemma parse_printed_line:
  "entry_ok m \<Longrightarrow> show_entry m = line \<Longrightarrow> parse_maps_line line = Inr (Some (region_of_entry m))"
  using parse_show_entry by blast

lemmas region_fields = region_of_entry_def should_skip_def is_readable_def region_size_def
  classify_region_def starts_with_Cons is_ws_def

lemma test_parse_maps_line_file_backed_passes: test_parse_maps_line_file_backed
proof -
  let ?m = "\<lparr>me_start = 0x7f1234560000, me_end = 0x7f1234561000, me_perms = ''r--p'', me_offset = 0x1000,
     me_dev = ''08:01'', me_inode = ''9876'', me_padding = 0, me_name = ''/lib/libc.so.6''\<rparr>"
  have "entry_ok ?m" by code_simp
  moreover have "show_entry ?m = ''7f1234560000-7f1234561000 r--p 00001000 08:01 9876 /lib/libc.so.6''"
    by (simp add: print_entry)
  ultimately show ?thesis
    using parse_printed_line by (simp add: test_parse_maps_line_file_backed_def on_region_def region_fields)
qed

lemma test_parse_maps_line_heap_passes: test_parse_maps_line_heap
proof -
  let ?m = "\<lparr>me_start = 0x55f4a1b00000, me_end = 0x55f4a1c00000, me_perms = ''rw-p'', me_offset = 0,
     me_dev = ''00:00'', me_inode = ''0'', me_padding = 1, me_name = ''[heap]''\<rparr>"
  have "entry_ok ?m" by code_simp
  moreover have "show_entry ?m = ''55f4a1b00000-55f4a1c00000 rw-p 00000000 00:00 0  [heap]''"
    by (simp add: print_entry)
  ultimately show ?thesis
    using parse_printed_line by (simp add: test_parse_maps_line_heap_def on_region_def region_fields)
qed

lemma test_should_skip_vsyscall_passes: test_should_skip_vsyscall
proof -
  let ?m = "\<lparr>me_start = 0xffffffffff600000, me_end = 0xffffffffff601000, me_perms = ''--xp'', me_offset = 0,
     me_dev = ''00:00'', me_inode = ''0'', me_padding = 1, me_name = ''[vsyscall]''\<rparr>"
  have "entry_ok ?m" by code_simp
  moreover have "show_entry ?m = ''ffffffffff600000-ffffffffff601000 --xp 00000000 00:00 0  [vsyscall]''"
    by (simp add: print_entry)
  ultimately show ?thesis
    using parse_printed_line by (simp add: test_should_skip_vsyscall_def on_region_def region_fields)
qed

text \<open>The kernel ends the line of an anonymous mapping with a blank, the tests do not.\<close>

lemma parse_unpadded_line:
  assumes "entry_ok m" "show_entry m = line @ '' ''" "line \<noteq> []" "\<not> is_ws (hd line)"
  shows "parse_maps_line line = Inr (Some (region_of_entry m))"
proof -
  have "trim (line @ replicate 1 CHR '' '') = trim line" using assms(3,4) by (intro trim_pad_right) auto
  then have "parse_maps_line line = parse_maps_line (line @ '' '')" by (simp add: parse_maps_line_def)
  with parse_printed_line [OF assms(1,2)] show ?thesis by simp
qed

lemma test_parse_maps_line_anon_passes: test_parse_maps_line_anon
proof -
  let ?m = "\<lparr>me_start = 0x7ffe00001000, me_end = 0x7ffe00002000, me_perms = ''rw-p'', me_offset = 0,
     me_dev = ''00:00'', me_inode = ''0'', me_padding = 0, me_name = []\<rparr>"
  have "entry_ok ?m" by code_simp
  moreover have "show_entry ?m = ''7ffe00001000-7ffe00002000 rw-p 00000000 00:00 0'' @ '' ''"
    by (simp add: print_entry)
  ultimately show ?thesis
    using parse_unpadded_line by (simp add: test_parse_maps_line_anon_def on_region_def region_fields)
qed

lemma test_parse_maps_line_no_perms_skipped_passes: test_parse_maps_line_no_perms_skipped
proof -
  let ?m = "\<lparr>me_start = 0x7f0000001000, me_end = 0x7f0000002000, me_perms = ''---p'', me_offset = 0,
     me_dev = ''00:00'', me_inode = ''0'', me_padding = 0, me_name = []\<rparr>"
  have "entry_ok ?m" by code_simp
  moreover have "show_entry ?m = ''7f0000001000-7f0000002000 ---p 00000000 00:00 0'' @ '' ''"
    by (simp add: print_entry)
  ultimately show ?thesis
    using parse_unpadded_line by (simp add: test_parse_maps_line_no_perms_skipped_def on_region_def region_fields)
qed

section \<open>fd_enum.rs\<close>

definition test_classify_socket :: "'k kernel \<Rightarrow> 'k \<Rightarrow> bool" where
  "test_classify_socket K s \<longleftrightarrow> classify_fd K ''socket:[12345]'' s = FdSocket"

definition test_classify_pipe :: "'k kernel \<Rightarrow> 'k \<Rightarrow> bool" where
  "test_classify_pipe K s \<longleftrightarrow> classify_fd K ''pipe:[99]'' s = FdPipe"

definition test_classify_regular :: "'k kernel \<Rightarrow> 'k \<Rightarrow> bool" where
  "test_classify_regular K s \<longleftrightarrow> classify_fd K ''/tmp/some_file.txt'' s = FdRegular"

definition test_classify_device :: "'k kernel \<Rightarrow> 'k \<Rightarrow> bool" where
  "test_classify_device K s \<longleftrightarrow> classify_fd K ''/dev/null'' s = FdDevice"

definition test_fd_display :: bool where
  "test_fd_display \<longleftrightarrow>
     show_fd_kind FdSocket = ''socket'' \<and>
     show_fd_kind FdPipe = ''pipe'' \<and>
     show_fd_kind FdRegular = ''regular'' \<and>
     show_fd_kind FdDevice = ''device'' \<and>
     show_fd_kind FdDirectory = ''directory'' \<and>
     show_fd_kind (FdOther ''memfd'') = ''other:memfd''"

definition test_is_restorable_only_regular :: bool where
  "test_is_restorable_only_regular \<longleftrightarrow>
     (let make = (\<lambda>t. \<lparr>fd_fd = 0, fd_fd_type = t, fd_path = [], fd_offset = 0, fd_flags = 0\<rparr>)
      in is_restorable (make FdRegular) \<and> \<not> is_restorable (make FdSocket) \<and> \<not> is_restorable (make FdPipe))"

text \<open>The test of a regular file passes where the path is not a directory, even if it does not exist
  and cannot be asked about.\<close>

lemma fd_enum_tests_pass:
  "test_classify_socket K s" "test_classify_pipe K s" "test_classify_device K s"
  "k_is_dir K ''/tmp/some_file.txt'' s = Inr False \<Longrightarrow> test_classify_regular K s"
  "test_fd_display" "test_is_restorable_only_regular"
  by (simp_all add: test_classify_socket_def test_classify_pipe_def test_classify_device_def
      test_classify_regular_def test_fd_display_def test_is_restorable_only_regular_def
      classify_fd_def is_restorable_def Let_def)

section \<open>fd_restore.rs\<close>

definition make_fd :: "u32 \<Rightarrow> i32 \<Rightarrow> string \<Rightarrow> u64 \<Rightarrow> fd_spec" where
  "make_fd n ty path pos = \<lparr>fs_num = n, fs_type = ty, fs_path = path, fs_offset = pos,
     fs_open_flags = O_RDONLY\<rparr>"

definition test_pipe_is_skipped :: "'k kernel \<Rightarrow> 'k \<Rightarrow> bool" where
  "test_pipe_is_skipped K s \<longleftrightarrow> is_skipped (fst (restore_one K (make_fd 3 1 [] 0) s))"

definition test_socket_is_skipped :: "'k kernel \<Rightarrow> 'k \<Rightarrow> bool" where
  "test_socket_is_skipped K s \<longleftrightarrow> is_skipped (fst (restore_one K (make_fd 4 2 ''socket:[12345]'' 0) s))"

definition test_regular_nonexistent_is_failed :: "'k kernel \<Rightarrow> 'k \<Rightarrow> bool" where
  "test_regular_nonexistent_is_failed K s \<longleftrightarrow>
     is_failed (fst (restore_one K (make_fd 5 0 ''/nonexistent/path/wraith_test_xyz'' 0) s))"

definition test_regular_empty_path_is_skipped :: "'k kernel \<Rightarrow> 'k \<Rightarrow> bool" where
  "test_regular_empty_path_is_skipped K s \<longleftrightarrow> is_skipped (fst (restore_one K (make_fd 6 0 [] 0) s))"

definition test_restore_report_aggregation :: "'k kernel \<Rightarrow> 'k \<Rightarrow> bool" where
  "test_restore_report_aggregation K s \<longleftrightarrow>
     (let fds = [make_fd 3 1 [] 0, make_fd 4 2 ''socket:[1]'' 0, make_fd 5 0 ''/no/such/file'' 0];
          report = fst (restore_all K fds s)
      in length (rr_skipped report) = 2 \<and> length (rr_failed report) = 1 \<and> has_failures report)"

lemma skipped_tests_pass:
  "test_pipe_is_skipped K s" "test_socket_is_skipped K s" "test_regular_empty_path_is_skipped K s"
  by (simp_all add: test_pipe_is_skipped_def test_socket_is_skipped_def test_regular_empty_path_is_skipped_def
      restore_one_def make_fd_def fd_type_try_from_def restore_regular_def)

text \<open>A file that does not exist: every \<open>open\<close> of it fails.\<close>

lemma nonexistent_failed:
  assumes "\<And>fl t. \<exists>e u. k_open K path fl t = (Inl e, u)" "\<not> has_nul path" "path \<noteq> []"
  shows "\<exists>n e u. restore_one K (make_fd 5 0 path 0) s = (Failed n e, u)"
proof -
  let ?spec = "make_fd 5 0 path 0"
  obtain e u where "std_open K (regular_options ?spec) path s = (Inl e, u)"
    using assms(1,2) by (fastforce simp: std_open_def regular_options_def make_fd_def access_flags_def
        O_RDONLY_def O_ACCMODE_def O_APPEND_def O_WRONLY_def O_RDWR_def Let_def)
  then have "open_and_seek K ?spec s = (Inl (Fd_Err (OpenFailed path e)), u)"
    by (simp add: open_and_seek_def try_act_def fd_spec.defs make_fd_def)
  moreover have "restore_one K ?spec s = outcome_of 5 (open_and_seek K ?spec s)"
    using assms(3) by (simp add: restore_one_def fd_type_try_from_def restore_regular_def make_fd_def)
  ultimately show ?thesis by (simp add: outcome_of_def)
qed

lemma test_regular_nonexistent_is_failed_passes:
  assumes "\<And>fl t. \<exists>e u. k_open K ''/nonexistent/path/wraith_test_xyz'' fl t = (Inl e, u)"
  shows "test_regular_nonexistent_is_failed K s"
proof -
  have "has_nul ''/nonexistent/path/wraith_test_xyz'' = False" by code_simp
  with nonexistent_failed [OF assms, of s] show ?thesis
    by (auto simp: test_regular_nonexistent_is_failed_def)
qed

lemma test_restore_report_aggregation_passes:
  assumes "\<And>fl t. \<exists>e u. k_open K ''/no/such/file'' fl t = (Inl e, u)"
  shows "test_restore_report_aggregation K s"
proof -
  have "restore_one K (make_fd 3 1 [] 0) t = (Skipped 3 (PipeNotRestored []), t)"
    "restore_one K (make_fd 4 2 ''socket:[1]'' 0) t = (Skipped 4 (SocketNotRestored ''socket:[1]''), t)" for t
    by (simp_all add: restore_one_def make_fd_def fd_type_try_from_def)
  moreover have "has_nul ''/no/such/file'' = False" by code_simp
  then obtain n e t where "restore_one K (make_fd 5 0 ''/no/such/file'' 0) s = (Failed n e, t)"
    using nonexistent_failed [OF assms, of s] by auto
  ultimately show ?thesis
    by (simp add: test_restore_report_aggregation_def restore_all_outcomes sort_outcomes_def has_failures_def)
qed

section \<open>restorer.rs\<close>

text \<open>\<open>..Default::default()\<close>: zeros, empty texts, nothing.\<close>

definition default_region :: pb_region where
  "default_region = \<lparr>start_addr = 0, end_addr = 0, size_bytes = 0, permissions = [], region_type = [],
     backing_file = [], file_offset = 0, data = [], checksum = 0\<rparr>"

definition default_snapshot :: "'fd process_snapshot" where
  "default_snapshot = \<lparr>snap_pid = 0, snap_uid = 0, snap_arch = [], snap_kernel_version = [],
     captured_at_ns = 0, snap_metadata = None, snap_registers = None, memory_regions = [],
     file_descriptors = [], snap_checksum = 0, snapshot_version = []\<rparr>"

definition test_validate_rejects_no_registers :: "(u8 list \<Rightarrow> u64) \<Rightarrow> bool" where
  "test_validate_rejects_no_registers ck \<longleftrightarrow>
     (let snapshot = (default_snapshot :: fd_spec process_snapshot)\<lparr>
        snap_registers := None,
        memory_regions := [default_region\<lparr>
          start_addr := 0x10000,
          size_bytes := 4096,
          permissions := ''rw-p'',
          data := replicate 4096 0,
          checksum := ck (replicate 4096 0)\<rparr>],
        snap_arch := ''x86_64''\<rparr>
      in \<not> is_ok (restorer_validate ''x86_64'' snapshot))"

definition test_validate_rejects_wrong_arch :: bool where
  "test_validate_rejects_wrong_arch \<longleftrightarrow>
     (let snapshot = (default_snapshot :: fd_spec process_snapshot)\<lparr>snap_arch := ''aarch64''\<rparr>
      in restorer_validate ''x86_64'' snapshot = Inl (Restore_Err (SnapshotArch ''aarch64'')))"

definition test_prot_flags :: bool where
  "test_prot_flags \<longleftrightarrow>
     perms_to_prot ''rwxp'' = PROT_READ OR PROT_WRITE OR PROT_EXEC \<and>
     perms_to_prot ''r--p'' = PROT_READ"

lemma restorer_tests_pass:
  "test_validate_rejects_no_registers ck" "test_validate_rejects_wrong_arch" "test_prot_flags"
proof -
  show "test_validate_rejects_no_registers ck"
    by (auto simp: test_validate_rejects_no_registers_def is_ok_iff restorer_validate_ok default_snapshot_def Let_def)
  show test_validate_rejects_wrong_arch
    by (simp add: test_validate_rejects_wrong_arch_def restorer_validate_def default_snapshot_def)
  show test_prot_flags by code_simp
qed

end
