(* ===== verification/GoBytes.thy ===== *)
theory GoBytes
  imports Prelude
begin

text \<open>
  Byte slices as the Go programs use them: \<open>data[a:b]\<close>, \<open>copy\<close> into a part of a buffer, and
  the big-endian integers of \<open>encoding/binary\<close>.
\<close>

section \<open>Slices\<close>

definition slice_of :: "nat \<Rightarrow> nat \<Rightarrow> 'a list \<Rightarrow> 'a list" where
  "slice_of a b xs = take (b - a) (drop a xs)"

definition copy_at :: "nat \<Rightarrow> 'a list \<Rightarrow> 'a list \<Rightarrow> 'a list" where
  "copy_at a ys xs = take a xs @ ys @ drop (a + length ys) xs"

lemma length_slice_of: "b \<le> length xs \<Longrightarrow> length (slice_of a b xs) = b - a"
  by (simp add: slice_of_def)

lemma nth_slice_of: "b \<le> length xs \<Longrightarrow> i < b - a \<Longrightarrow> slice_of a b xs ! i = xs ! (a + i)"
  by (simp add: slice_of_def)

lemma length_copy_at: "a + length ys \<le> length xs \<Longrightarrow> length (copy_at a ys xs) = length xs"
  by (simp add: copy_at_def)

lemma nth_copy_at:
  "a + length ys \<le> length xs \<Longrightarrow> i < length xs \<Longrightarrow>
   copy_at a ys xs ! i = (if a \<le> i \<and> i < a + length ys then ys ! (i - a) else xs ! i)"
  by (auto simp: copy_at_def nth_append)

section \<open>Big-endian integers\<close>

text \<open>\<open>PutUint32\<close>, \<open>PutUint64\<close> and \<open>binary.Write\<close> on the one hand, \<open>Uint32\<close> and \<open>Uint64\<close> on
  the other: the given number of bytes, the most significant first.\<close>

fun be_bytes :: "nat \<Rightarrow> nat \<Rightarrow> u8 list" where
  "be_bytes 0 v = []"
| "be_bytes (Suc k) v = of_nat (v div 256 ^ k) # be_bytes k v"

definition be_value :: "u8 list \<Rightarrow> nat" where
  "be_value bs = foldl (\<lambda>v b. 256 * v + unat b) 0 bs"

lemma length_be_bytes [simp]: "length (be_bytes k v) = k"
  by (induction k) simp_all

lemma foldl_be_bytes: "foldl (\<lambda>v b. 256 * v + unat b) a (be_bytes k v) = a * 256 ^ k + v mod 256 ^ k"
proof (induction k arbitrary: a)
  case (Suc k)
  have "v mod (256 ^ k * 256) = 256 ^ k * (v div 256 ^ k mod 256) + v mod 256 ^ k"
    by (rule mod_mult2_eq)
  then have "(256 * a + v div 256 ^ k mod 256) * 256 ^ k + v mod 256 ^ k = a * 256 ^ Suc k + v mod 256 ^ Suc k"
    by (simp add: algebra_simps)
  then show ?case by (simp only: be_bytes.simps foldl.simps Suc) (simp add: unat_of_nat)
qed simp

lemma be_value_bytes: "v < 256 ^ k \<Longrightarrow> be_value (be_bytes k v) = v"
  by (simp add: be_value_def foldl_be_bytes)

definition be32 :: "u32 \<Rightarrow> u8 list" where
  "be32 w = be_bytes 4 (unat w)"

definition be64 :: "u64 \<Rightarrow> u8 list" where
  "be64 w = be_bytes 8 (unat w)"

definition read_be32 :: "u8 list \<Rightarrow> u32" where
  "read_be32 bs = of_nat (be_value (take 4 bs))"

definition read_be64 :: "u8 list \<Rightarrow> u64" where
  "read_be64 bs = of_nat (be_value (take 8 bs))"

lemma length_be [simp]: "length (be32 w) = 4" "length (be64 v) = 8"
  by (simp_all add: be32_def be64_def)

lemma read_be32 [simp]: "read_be32 (be32 w) = w" "read_be32 (be32 w @ bs) = w"
  using unat_lt2p_word [of w] by (simp_all add: read_be32_def be32_def be_value_bytes)

lemma read_be64 [simp]: "read_be64 (be64 w) = w" "read_be64 (be64 w @ bs) = w"
  using unat_lt2p_word [of w] by (simp_all add: read_be64_def be64_def be_value_bytes)

section \<open>Texts as bytes\<close>

definition to_bytes :: "string \<Rightarrow> u8 list" where
  "to_bytes s = map (\<lambda>c. of_nat (of_char c)) s"

definition of_bytes :: "u8 list \<Rightarrow> string" where
  "of_bytes bs = map (\<lambda>b. char_of (unat b)) bs"

lemma length_to_bytes [simp]: "length (to_bytes s) = length s"
  by (simp add: to_bytes_def)

lemma of_to_bytes [simp]: "of_bytes (to_bytes s) = s"
proof -
  have "char_of (unat (of_nat (of_char c) :: u8)) = c" for c
    by (simp add: unat_of_nat)
  then show ?thesis by (simp add: of_bytes_def to_bytes_def comp_def)
qed

end
