(* ===== verification/GoJson.thy ===== *)
theory GoJson
  imports RustStr
begin

text \<open>
  What the transport uses of Go's \<open>encoding/json\<close> (Go 1.21, the version of \<open>go.mod\<close>):
  \<open>json.Marshal\<close> of a flat struct and \<open>json.Unmarshal\<close> into one. A Go string is a list of
  bytes, here characters of eight bits. Strings are written with the escapes of the library
  and with invalid UTF-8 replaced; the reader is the scanner of the library with its nesting
  limit, followed by the assignment of the members to the fields of the struct.
\<close>

section \<open>UTF-8\<close>

abbreviation byte :: "char \<Rightarrow> nat" where "byte c \<equiv> of_char c"

definition cont :: "char \<Rightarrow> bool" where
  "cont c \<longleftrightarrow> 0x80 \<le> byte c \<and> byte c \<le> 0xBF"

definition between :: "nat \<Rightarrow> nat \<Rightarrow> char \<Rightarrow> bool" where
  "between lo hi c \<longleftrightarrow> lo \<le> byte c \<and> byte c \<le> hi"

text \<open>The first two bytes of a rune of two, three and four bytes: the table of accepted ranges.\<close>

definition lead2 :: "char \<Rightarrow> char \<Rightarrow> bool" where
  "lead2 a b \<longleftrightarrow> between 0xC2 0xDF a \<and> cont b"

definition lead3 :: "char \<Rightarrow> char \<Rightarrow> bool" where
  "lead3 a b \<longleftrightarrow> byte a = 0xE0 \<and> between 0xA0 0xBF b \<or> byte a = 0xED \<and> between 0x80 0x9F b \<or>
     between 0xE1 0xEF a \<and> byte a \<noteq> 0xED \<and> cont b"

definition lead4 :: "char \<Rightarrow> char \<Rightarrow> bool" where
  "lead4 a b \<longleftrightarrow> byte a = 0xF0 \<and> between 0x90 0xBF b \<or> byte a = 0xF4 \<and> between 0x80 0x8F b \<or>
     between 0xF1 0xF3 a \<and> cont b"

text \<open>\<open>utf8.DecodeRune\<close> at a byte that is not ASCII: the size of the rune, 0 where the bytes are
  not the encoding of one (the library then reports a width of 1 and \<open>RuneError\<close>).\<close>

definition rune_size :: "string \<Rightarrow> nat" where
  "rune_size s = (case s of
     a # b # t \<Rightarrow>
       if lead2 a b then 2
       else (case t of [] \<Rightarrow> 0 | c # u \<Rightarrow>
         if lead3 a b \<and> cont c then 3
         else (case u of [] \<Rightarrow> 0 | d # _ \<Rightarrow> if lead4 a b \<and> cont c \<and> cont d then 4 else 0))
   | _ \<Rightarrow> 0)"

text \<open>\<open>utf8.AppendRune\<close>.\<close>

definition encode_rune :: "nat \<Rightarrow> string" where
  "encode_rune r =
     (if r < 0x80 then [char_of r]
      else if r < 0x800 then [char_of (0xC0 + r div 64), char_of (0x80 + r mod 64)]
      else if r < 0x10000 then
        [char_of (0xE0 + r div 4096), char_of (0x80 + r div 64 mod 64), char_of (0x80 + r mod 64)]
      else [char_of (0xF0 + r div 262144), char_of (0x80 + r div 4096 mod 64),
        char_of (0x80 + r div 64 mod 64), char_of (0x80 + r mod 64)])"

definition rune_error :: string where
  "rune_error = encode_rune 0xFFFD"

text \<open>\<open>strings.ToValidUTF8\<close> byte for byte: what a string becomes when it is written and read back.\<close>

function to_valid :: "string \<Rightarrow> string" where
  "to_valid [] = []"
| "to_valid (c # cs) =
     (if byte c < 0x80 then c # to_valid cs
      else if rune_size (c # cs) = 0 then rune_error @ to_valid cs
      else take (rune_size (c # cs)) (c # cs) @ to_valid (drop (rune_size (c # cs) - 1) cs))"
  by pat_completeness auto
termination by (relation "measure length") auto

declare to_valid.simps(2) [simp del]

section \<open>Writing\<close>

definition quote_char :: char where "quote_char = CHR 0x22"
definition backslash :: char where "backslash = CHR 0x5C"

definition hex_digit :: "nat \<Rightarrow> char" where
  "hex_digit d = digit_char d"

text \<open>The escapes of ASCII characters, those of HTML included (\<open>escapeHTML\<close>).\<close>

definition quote_ascii :: "char \<Rightarrow> string" where
  "quote_ascii c =
     (if c = quote_char \<or> c = backslash then [backslash, c]
      else if byte c = 10 then [backslash, CHR ''n'']
      else if byte c = 13 then [backslash, CHR ''r'']
      else if byte c = 9 then [backslash, CHR ''t'']
      else if byte c < 0x20 \<or> c \<in> {CHR ''<'', CHR ''>'', CHR ''&''}
        then [backslash, CHR ''u'', CHR ''0'', CHR ''0'', hex_digit (byte c div 16), hex_digit (byte c mod 16)]
      else [c])"

text \<open>The line and paragraph separators U+2028 and U+2029 are escaped as well.\<close>

definition line_sep :: "string \<Rightarrow> bool" where
  "line_sep s \<longleftrightarrow> take 3 s = encode_rune 0x2028 \<or> take 3 s = encode_rune 0x2029"

function quote_body :: "string \<Rightarrow> string" where
  "quote_body [] = []"
| "quote_body (c # cs) =
     (if byte c < 0x80 then quote_ascii c @ quote_body cs
      else if rune_size (c # cs) = 0 then backslash # ''ufffd'' @ quote_body cs
      else if line_sep (c # cs)
        then backslash # ''u202'' @ [hex_digit (byte (cs ! 1) mod 16)] @ quote_body (drop 2 cs)
      else take (rune_size (c # cs)) (c # cs) @ quote_body (drop (rune_size (c # cs) - 1) cs))"
  by pat_completeness auto
termination by (relation "measure length") auto

declare quote_body.simps(2) [simp del]

definition json_string :: "string \<Rightarrow> string" where
  "json_string s = quote_char # quote_body s @ [quote_char]"

definition json_bool :: "bool \<Rightarrow> string" where
  "json_bool b = (if b then ''true'' else ''false'')"

text \<open>A struct: its fields in order, each a key and a value that is already written.\<close>

fun json_members :: "(string \<times> string) list \<Rightarrow> string" where
  "json_members [] = []"
| "json_members [(k, v)] = json_string k @ CHR '':'' # v"
| "json_members ((k, v) # m # ms) = json_string k @ CHR '':'' # v @ CHR '','' # json_members (m # ms)"

definition json_object :: "(string \<times> string) list \<Rightarrow> string" where
  "json_object ms = CHR ''{'' # json_members ms @ [CHR ''}'']"

section \<open>Reading a string literal\<close>

definition hex_val :: "char \<Rightarrow> nat option" where
  "hex_val c = (case digit_val c of None \<Rightarrow> None | Some d \<Rightarrow> if d < 16 then Some d else None)"

text \<open>Four hexadecimal digits, as after a backslash and \<open>u\<close>.\<close>

fun hex4 :: "string \<Rightarrow> (nat \<times> string) option" where
  "hex4 (a # b # c # d # s) = (case (hex_val a, hex_val b, hex_val c, hex_val d) of
       (Some w, Some x, Some y, Some z) \<Rightarrow> Some (4096 * w + 256 * x + 16 * y + z, s)
     | _ \<Rightarrow> None)"
| "hex4 s = None"

text \<open>\<open>getu4\<close>: an escape \<open>u\<close> at the head of the input.\<close>

fun getu4 :: "string \<Rightarrow> (nat \<times> string) option" where
  "getu4 (a # b # s) = (if a = backslash \<and> b = CHR ''u'' then hex4 s else None)"
| "getu4 s = None"

definition is_surrogate :: "nat \<Rightarrow> bool" where
  "is_surrogate r \<longleftrightarrow> 0xD800 \<le> r \<and> r < 0xE000"

text \<open>An escape \<open>u\<close> with value \<open>r\<close> before \<open>s\<close>: a surrogate is joined with the escape after it
  (\<open>utf16.DecodeRune\<close>) or replaced.\<close>

definition unicode_escape :: "nat \<Rightarrow> string \<Rightarrow> string \<times> string" where
  "unicode_escape r s =
     (if \<not> is_surrogate r then (encode_rune r, s)
      else case getu4 s of
          Some (q, t) \<Rightarrow>
            if r < 0xDC00 \<and> 0xDC00 \<le> q \<and> q < 0xE000
            then (encode_rune ((r - 0xD800) * 1024 + (q - 0xDC00) + 0x10000), t)
            else (rune_error, s)
        | None \<Rightarrow> (rune_error, s))"

definition simple_escape :: "char \<Rightarrow> char option" where
  "simple_escape e =
     (if e = quote_char \<or> e = backslash \<or> e = CHR ''/'' then Some e
      else if e = CHR ''b'' then Some (char_of (8 :: nat))
      else if e = CHR ''f'' then Some (char_of (12 :: nat))
      else if e = CHR ''n'' then Some (char_of (10 :: nat))
      else if e = CHR ''r'' then Some (char_of (13 :: nat))
      else if e = CHR ''t'' then Some (char_of (9 :: nat))
      else None)"

lemma hex4_length: "hex4 s = Some (r, t) \<Longrightarrow> length s = length t + 4"
  by (induction s rule: hex4.induct) (auto split: option.splits)

lemma getu4_length: "getu4 s = Some (r, t) \<Longrightarrow> length s = length t + 6"
  by (induction s rule: getu4.induct) (auto split: if_splits dest: hex4_length)

lemma unicode_escape_length: "length (snd (unicode_escape r s)) \<le> length s"
  by (auto simp: unicode_escape_def split: option.splits dest: getu4_length)

text \<open>The literal after its opening quote, up to and including the closing one: the scanner and
  \<open>unquote\<close> in one pass.\<close>

definition app_fst :: "string \<Rightarrow> (string \<times> string) option \<Rightarrow> (string \<times> string) option" where
  "app_fst p r = map_option (\<lambda>(u, t). (p @ u, t)) r"

function string_body :: "string \<Rightarrow> (string \<times> string) option" where
  "string_body [] = None"
| "string_body (c # cs) =
     (if c = quote_char then Some ([], cs)
      else if c = backslash then
        (case cs of
           [] \<Rightarrow> None
         | e # ds \<Rightarrow>
             if e = CHR ''u'' then
               (case hex4 ds of
                  None \<Rightarrow> None
                | Some (r, es) \<Rightarrow> app_fst (fst (unicode_escape r es)) (string_body (snd (unicode_escape r es))))
             else (case simple_escape e of
                  None \<Rightarrow> None
                | Some x \<Rightarrow> app_fst [x] (string_body ds)))
      else if byte c < 0x20 then None
      else if byte c < 0x80 then app_fst [c] (string_body cs)
      else if rune_size (c # cs) = 0 then app_fst rune_error (string_body cs)
      else app_fst (take (rune_size (c # cs)) (c # cs)) (string_body (drop (rune_size (c # cs) - 1) cs)))"
  by pat_completeness auto
termination
  by (relation "measure length")
    (auto dest!: hex4_length intro: le_less_trans [OF unicode_escape_length])

declare string_body.simps(2) [simp del]


section \<open>Reading a value\<close>

datatype json =
    JNull
  | JBool bool
  | JNum string
  | JStr string
  | JArr "json list"
  | JObj "(string \<times> json) list"

definition json_ws :: "char \<Rightarrow> bool" where
  "json_ws c \<longleftrightarrow> byte c \<in> {32, 9, 13, 10}"

definition skip_ws :: "string \<Rightarrow> string" where
  "skip_ws s = dropWhile json_ws s"

definition is_digit :: "char \<Rightarrow> bool" where
  "is_digit c \<longleftrightarrow> between 48 57 c"

text \<open>The grammar of numbers: a literal is kept as it is written.\<close>

definition digits_part :: "string \<Rightarrow> (string \<times> string) option" where
  "digits_part s = (if takeWhile is_digit s = [] then None else Some (takeWhile is_digit s, dropWhile is_digit s))"

definition int_part :: "string \<Rightarrow> (string \<times> string) option" where
  "int_part s = (case s of [] \<Rightarrow> None | c # cs \<Rightarrow> if c = CHR ''0'' then Some ([c], cs) else digits_part s)"

definition frac_part :: "string \<Rightarrow> (string \<times> string) option" where
  "frac_part s = (case s of [] \<Rightarrow> Some ([], s)
     | c # cs \<Rightarrow> if c = CHR ''.'' then app_fst [c] (digits_part cs) else Some ([], s))"

definition exp_part :: "string \<Rightarrow> (string \<times> string) option" where
  "exp_part s = (case s of [] \<Rightarrow> Some ([], s)
     | c # cs \<Rightarrow>
         if c = CHR ''e'' \<or> c = CHR ''E'' then
           (case cs of [] \<Rightarrow> None
              | d # ds \<Rightarrow> if d = CHR ''+'' \<or> d = CHR ''-'' then app_fst [c, d] (digits_part ds)
                  else app_fst [c] (digits_part cs))
         else Some ([], s))"

definition then_part :: "(string \<times> string) option \<Rightarrow> (string \<Rightarrow> (string \<times> string) option) \<Rightarrow> (string \<times> string) option" where
  "then_part r f = (case r of None \<Rightarrow> None | Some (u, t) \<Rightarrow> app_fst u (f t))"

definition json_number :: "string \<Rightarrow> (string \<times> string) option" where
  "json_number s = (case s of [] \<Rightarrow> None
     | c # cs \<Rightarrow> then_part (then_part
         (if c = CHR ''-'' then app_fst [c] (int_part cs) else int_part s) frac_part) exp_part)"

text \<open>The values: the first number bounds the recursion, the second is the nesting that is still
  allowed. Every call but the one from a list to its first element consumes input, so twice the
  length of the input is enough (\<open>json_value_fuel\<close>).\<close>

fun json_value :: "nat \<Rightarrow> nat \<Rightarrow> string \<Rightarrow> (json \<times> string) option"
  and json_pairs :: "nat \<Rightarrow> nat \<Rightarrow> string \<Rightarrow> ((string \<times> json) list \<times> string) option"
  and json_items :: "nat \<Rightarrow> nat \<Rightarrow> string \<Rightarrow> (json list \<times> string) option" where
  "json_value 0 d s = None"
| "json_value (Suc n) d s = (case skip_ws s of
     [] \<Rightarrow> None
   | c # cs \<Rightarrow>
       if c = CHR ''{'' then
         (if d = 0 then None
          else if starts_with ''}'' (skip_ws cs) then Some (JObj [], tl (skip_ws cs))
          else map_option (\<lambda>(ms, t). (JObj ms, t)) (json_pairs n (d - 1) cs))
       else if c = CHR ''['' then
         (if d = 0 then None
          else if starts_with '']'' (skip_ws cs) then Some (JArr [], tl (skip_ws cs))
          else map_option (\<lambda>(vs, t). (JArr vs, t)) (json_items n (d - 1) cs))
       else if c = quote_char then map_option (\<lambda>(u, t). (JStr u, t)) (string_body cs)
       else if starts_with ''true'' (c # cs) then Some (JBool True, drop 4 (c # cs))
       else if starts_with ''false'' (c # cs) then Some (JBool False, drop 5 (c # cs))
       else if starts_with ''null'' (c # cs) then Some (JNull, drop 4 (c # cs))
       else map_option (\<lambda>(u, t). (JNum u, t)) (json_number (c # cs)))"
| "json_pairs 0 d s = None"
| "json_pairs (Suc n) d s = (case skip_ws s of
     [] \<Rightarrow> None
   | c # cs \<Rightarrow> if c \<noteq> quote_char then None else (case string_body cs of
       None \<Rightarrow> None
     | Some (k, t) \<Rightarrow> if \<not> starts_with '':'' (skip_ws t) then None
         else (case json_value n d (tl (skip_ws t)) of
           None \<Rightarrow> None
         | Some (v, w) \<Rightarrow>
             if starts_with ''}'' (skip_ws w) then Some ([(k, v)], tl (skip_ws w))
             else if starts_with '','' (skip_ws w)
               then map_option (\<lambda>(ms, x). ((k, v) # ms, x)) (json_pairs n d (tl (skip_ws w)))
             else None)))"
| "json_items 0 d s = None"
| "json_items (Suc n) d s = (case json_value n d s of
     None \<Rightarrow> None
   | Some (v, w) \<Rightarrow>
       if starts_with '']'' (skip_ws w) then Some ([v], tl (skip_ws w))
       else if starts_with '','' (skip_ws w)
         then map_option (\<lambda>(vs, x). (v # vs, x)) (json_items n d (tl (skip_ws w)))
       else None)"

definition max_nesting :: nat where "max_nesting = 10000"

definition json_document :: "string \<Rightarrow> json option" where
  "json_document s = (case json_value (2 * length s + 1) max_nesting s of
     None \<Rightarrow> None
   | Some (v, t) \<Rightarrow> if skip_ws t = [] then Some v else None)"

section \<open>Assignment to the fields of a struct\<close>

text \<open>A setter is \<open>None\<close> where the library records an \<open>UnmarshalTypeError\<close> and goes on; \<open>null\<close>
  leaves a field as it is.\<close>

type_synonym 'r setter = "json \<Rightarrow> 'r \<Rightarrow> 'r option"

definition string_field :: "(string \<Rightarrow> 'r \<Rightarrow> 'r) \<Rightarrow> 'r setter" where
  "string_field f v r = (case v of JStr s \<Rightarrow> Some (f s r) | JNull \<Rightarrow> Some r | _ \<Rightarrow> None)"

definition bool_field :: "(bool \<Rightarrow> 'r \<Rightarrow> 'r) \<Rightarrow> 'r setter" where
  "bool_field f v r = (case v of JBool b \<Rightarrow> Some (f b r) | JNull \<Rightarrow> Some r | _ \<Rightarrow> None)"

text \<open>\<open>strconv.ParseUint\<close> in base 10, then the overflow check of the field's type.\<close>

definition parse_uint :: "string \<Rightarrow> nat option" where
  "parse_uint s = (if s = [] then None else digits_acc 10 0 s)"

definition uint_field :: "('a::len word \<Rightarrow> 'r \<Rightarrow> 'r) \<Rightarrow> 'r setter" where
  "uint_field f v r = (case v of
     JNum s \<Rightarrow> (case parse_uint s of
         None \<Rightarrow> None
       | Some n \<Rightarrow> if n < 2 ^ LENGTH('a) then Some (f (of_nat n) r) else None)
   | JNull \<Rightarrow> Some r
   | _ \<Rightarrow> None)"

text \<open>Keys are compared exactly, then under case folding, for which the Kelvin sign is a \<open>K\<close> and
  the long s an \<open>S\<close>; no other rune folds into the ASCII names of the fields.\<close>

function fold_name :: "string \<Rightarrow> string" where
  "fold_name [] = []"
| "fold_name (c # cs) =
     (if take 3 (c # cs) = encode_rune 0x212A then CHR ''K'' # fold_name (drop 2 cs)
      else if take 2 (c # cs) = encode_rune 0x17F then CHR ''S'' # fold_name (drop 1 cs)
      else (if between 97 122 c then char_of (byte c - 32) else c) # fold_name cs)"
  by pat_completeness auto
termination by (relation "measure length") auto

declare fold_name.simps(2) [simp del]

definition find_field :: "(string \<times> 'r setter) list \<Rightarrow> string \<Rightarrow> 'r setter option" where
  "find_field fs k = or_else (map_of fs k)
     (map_option snd (find (\<lambda>(n, _). fold_name n = fold_name k) fs))"

text \<open>The struct after the assignments, and whether all of them succeeded.\<close>

fun assign_members :: "(string \<times> 'r setter) list \<Rightarrow> (string \<times> json) list \<Rightarrow> 'r \<Rightarrow> 'r \<times> bool" where
  "assign_members fs [] r = (r, True)"
| "assign_members fs ((k, v) # ms) r = (case find_field fs k of
     None \<Rightarrow> assign_members fs ms r
   | Some put \<Rightarrow> (case put v r of
       None \<Rightarrow> (fst (assign_members fs ms r), False)
     | Some q \<Rightarrow> assign_members fs ms q))"

definition unmarshal :: "(string \<times> 'r setter) list \<Rightarrow> string \<Rightarrow> 'r \<Rightarrow> 'r \<times> bool" where
  "unmarshal fs s r = (case json_document s of
     None \<Rightarrow> (r, False)
   | Some JNull \<Rightarrow> (r, True)
   | Some (JObj ms) \<Rightarrow> assign_members fs ms r
   | Some _ \<Rightarrow> (r, False))"

end
