(* ===== verification/JsonRoundtrip.thy ===== *)
theory JsonRoundtrip
  imports GoJson
begin

text \<open>
  What \<open>json.Marshal\<close> writes, \<open>json.Unmarshal\<close> reads back: strings up to the replacement of
  invalid UTF-8, numbers, Booleans, and the members of an object in their order.
\<close>

section \<open>Runes\<close>

lemma rune_size_values: "rune_size s \<in> {0, 2, 3, 4}"
  by (auto simp: rune_size_def split: list.splits)

lemma rune_size_le: "rune_size s \<le> length s"
  by (auto simp: rune_size_def split: list.splits)

lemma rune_size_cases:
  assumes "rune_size s \<noteq> 0"
  obtains (two) a b t where "s = a # b # t" "lead2 a b"
  | (three) a b c t where "s = a # b # c # t" "\<not> lead2 a b" "lead3 a b" "cont c"
  | (four) a b c d t where "s = a # b # c # d # t" "\<not> lead2 a b" "\<not> (lead3 a b \<and> cont c)"
      "lead4 a b" "cont c" "cont d"
  using assms by (auto simp: rune_size_def split: list.splits if_splits)

lemma rune_size_take:
  assumes "rune_size s \<noteq> 0"
  shows "rune_size (take (rune_size s) s @ r) = rune_size s"
  using assms
proof (cases rule: rune_size_cases)
  case two
  then have "rune_size s = 2" by (simp add: rune_size_def)
  with two show ?thesis by (simp add: rune_size_def)
next
  case three
  then have "rune_size s = 3" by (simp add: rune_size_def)
  with three show ?thesis by (simp add: rune_size_def)
next
  case four
  then have "rune_size s = 4" by (simp add: rune_size_def)
  with four show ?thesis by (auto simp: rune_size_def)
qed

lemma take_rune_Cons: "rune_size (c # cs) \<noteq> 0 \<Longrightarrow>
    take (rune_size (c # cs)) (c # cs) = c # take (rune_size (c # cs) - 1) cs"
  using rune_size_values [of "c # cs"] by (cases "rune_size (c # cs)") auto

lemma drop_rune:
  assumes "rune_size (c # cs) \<noteq> 0"
  shows "drop (rune_size (c # cs) - 1) (take (rune_size (c # cs) - 1) cs @ r) = r"
  using rune_size_le [of "c # cs"] assms by simp

section \<open>String literals\<close>

lemma control_codes: "byte quote_char = 34" "byte backslash = 92"
  by (simp_all add: quote_char_def backslash_def)

lemma byte_eq: "byte c = byte d \<longleftrightarrow> c = d"
  by simp

lemma hex_val_digit: "d < 16 \<Longrightarrow> hex_val (hex_digit d) = Some d"
  by (simp add: hex_val_def hex_digit_def digit_val_char)

lemma encode_rune_ascii: "byte c < 0x80 \<Longrightarrow> encode_rune (byte c) = [c]"
  by (simp add: encode_rune_def)

lemma string_body_plain:
  "c \<noteq> quote_char \<Longrightarrow> c \<noteq> backslash \<Longrightarrow> 0x20 \<le> byte c \<Longrightarrow> byte c < 0x80 \<Longrightarrow>
   string_body (c # s) = app_fst [c] (string_body s)"
  by (simp add: string_body.simps(2))

lemma string_body_escape:
  "e \<noteq> CHR ''u'' \<Longrightarrow> simple_escape e = Some x \<Longrightarrow>
   string_body (backslash # e # s) = app_fst [x] (string_body s)"
  by (simp add: string_body.simps(2) quote_char_def backslash_def)

lemma string_body_unicode:
  "map hex_val [a, b, c, d] = map Some [w, x, y, z] \<Longrightarrow>
   4096 * w + 256 * x + 16 * y + z = r \<Longrightarrow> \<not> is_surrogate r \<Longrightarrow>
   string_body (backslash # CHR ''u'' # a # b # c # d # s) = app_fst (encode_rune r) (string_body s)"
  by (simp add: string_body.simps(2) quote_char_def backslash_def unicode_escape_def)

lemma hex_val_literals:
  "hex_val CHR ''0'' = Some 0" "hex_val CHR ''2'' = Some 2" "hex_val CHR ''d'' = Some 13"
  "hex_val CHR ''f'' = Some 15"
  by code_simp+

lemma short_escapes:
  "quote_ascii (char_of (10 :: nat)) = [backslash, CHR ''n'']"
  "quote_ascii (char_of (13 :: nat)) = [backslash, CHR ''r'']"
  "quote_ascii (char_of (9 :: nat)) = [backslash, CHR ''t'']"
  "simple_escape CHR ''n'' = Some (char_of (10 :: nat))" "simple_escape CHR ''r'' = Some (char_of (13 :: nat))"
  "simple_escape CHR ''t'' = Some (char_of (9 :: nat))"
  by code_simp+

lemma string_body_quote_ascii:
  assumes "byte c < 0x80"
  shows "string_body (quote_ascii c @ s) = app_fst [c] (string_body s)"
proof (cases "byte c < 0x20 \<or> c \<in> {CHR ''<'', CHR ''>'', CHR ''&''}")
  case True
  have div: "byte c div 16 < 16" "byte c mod 16 < 16" using assms by auto
  have "byte c = 10 \<or> byte c = 13 \<or> byte c = 9 \<or>
      quote_ascii c = [backslash, CHR ''u'', CHR ''0'', CHR ''0'', hex_digit (byte c div 16), hex_digit (byte c mod 16)]"
    using True by (auto simp: quote_ascii_def quote_char_def backslash_def)
  then consider "c = char_of (10 :: nat)" | "c = char_of (13 :: nat)" | "c = char_of (9 :: nat)"
    | "quote_ascii c = [backslash, CHR ''u'', CHR ''0'', CHR ''0'', hex_digit (byte c div 16), hex_digit (byte c mod 16)]"
    by (metis char_of_char)
  then show ?thesis
  proof cases
    case 4
    have "\<not> is_surrogate (byte c)" using assms by (simp add: is_surrogate_def)
    moreover have "byte c = 4096 * 0 + 256 * 0 + 16 * (byte c div 16) + byte c mod 16" by simp
    ultimately have "string_body (quote_ascii c @ s) = app_fst (encode_rune (byte c)) (string_body s)"
      unfolding 4 using div by (simp only: append.simps)
        (rule string_body_unicode [of _ _ _ _ 0 0 "byte c div 16" "byte c mod 16"],
          simp_all add: hex_val_literals hex_val_digit)
    with assms show ?thesis by (simp add: encode_rune_ascii)
  qed (simp_all add: short_escapes string_body_escape)
next
  case False
  show ?thesis
  proof (cases "c = quote_char \<or> c = backslash")
    case True
    moreover have "simple_escape c = Some c" "c \<noteq> CHR ''u''"
      using True by (auto simp: simple_escape_def quote_char_def backslash_def)
    ultimately show ?thesis by (simp add: quote_ascii_def string_body_escape)
  next
    case plain: False
    with False have "quote_ascii c = [c]" by (auto simp: quote_ascii_def)
    with plain False assms show ?thesis by (simp add: string_body_plain)
  qed
qed

lemma string_body_invalid:
  "string_body (backslash # ''ufffd'' @ s) = app_fst rune_error (string_body s)"
proof -
  have "string_body (backslash # CHR ''u'' # CHR ''f'' # CHR ''f'' # CHR ''f'' # CHR ''d'' # s) =
      app_fst (encode_rune 0xFFFD) (string_body s)"
    by (rule string_body_unicode [of _ _ _ _ 15 15 15 13]) (simp_all add: hex_val_literals is_surrogate_def)
  then show ?thesis by (simp add: rune_error_def)
qed

lemma string_body_rune:
  assumes "0x80 \<le> byte c" "rune_size (c # cs) \<noteq> 0"
  shows "string_body (take (rune_size (c # cs)) (c # cs) @ s) =
     app_fst (take (rune_size (c # cs)) (c # cs)) (string_body s)"
proof -
  let ?n = "rune_size (c # cs)" and ?t = "take (rune_size (c # cs) - 1) cs @ s"
  have same: "rune_size (c # ?t) = ?n"
    using rune_size_take [OF assms(2), of s] take_rune_Cons [OF assms(2)] by simp
  have "c \<noteq> quote_char" "c \<noteq> backslash" using assms(1) control_codes by fastforce+
  then have "string_body (c # ?t) = app_fst (take ?n (c # ?t)) (string_body (drop (?n - 1) ?t))"
    using assms same by (simp add: string_body.simps(2))
  moreover have "take ?n (c # ?t) = take ?n (c # cs)"
    using rune_size_le [of "c # cs"] take_rune_Cons [OF assms(2)] assms(2) by (simp add: take_Cons')
  ultimately show ?thesis
    using take_rune_Cons [OF assms(2)] drop_rune [OF assms(2)] by simp
qed

lemma string_body_line_sep:
  assumes "line_sep (c # cs)"
  shows "string_body (backslash # ''u202'' @ hex_digit (byte (cs ! 1) mod 16) # s) =
     app_fst (take 3 (c # cs)) (string_body s)"
proof -
  have e: "encode_rune 0x2028 = [char_of (0xE2::nat), char_of (0x80::nat), char_of (0xA8::nat)]"
    "encode_rune 0x2029 = [char_of (0xE2::nat), char_of (0x80::nat), char_of (0xA9::nat)]"
    by (simp_all add: encode_rune_def)
  obtain d where d: "d = 8 \<or> d = 9" "take 3 (c # cs) = encode_rune (0x2020 + d)" "byte (cs ! 1) mod 16 = d"
  proof -
    have "cs ! 1 = take 3 (c # cs) ! 2" if "take 3 (c # cs) = [x, y, z]" for x y z
      using that by (cases cs; cases "tl cs") (auto simp: take_Cons')
    then show thesis
      using assms that [of 8] that [of 9] by (auto simp: line_sep_def e)
  qed
  have "string_body (backslash # CHR ''u'' # CHR ''2'' # CHR ''0'' # CHR ''2'' # hex_digit d # s) =
      app_fst (encode_rune (0x2020 + d)) (string_body s)"
    using d(1) by (intro string_body_unicode [of _ _ _ _ 2 0 2 d]) (auto simp: hex_val_literals hex_val_digit is_surrogate_def)
  then show ?thesis unfolding d(2,3) by (simp only: append.simps)
qed

lemma line_sep_size: "line_sep (c # cs) \<Longrightarrow> rune_size (c # cs) = 3"
proof -
  assume a: "line_sep (c # cs)"
  obtain x y t where s: "cs = x # y # t"
    using a by (cases cs; cases "tl cs") (auto simp: line_sep_def encode_rune_def take_Cons')
  with a have "byte c = 0xE2" "byte x = 0x80" "byte y = 0xA8 \<or> byte y = 0xA9"
    by (auto simp: line_sep_def encode_rune_def take_Cons')
  then show ?thesis
    by (auto simp: rune_size_def s lead2_def lead3_def between_def cont_def)
qed

lemma app_fst_Some [simp]: "app_fst p (Some (u, t)) = Some (p @ u, t)"
  by (simp add: app_fst_def)

lemma string_body_quote: "string_body (quote_body s @ quote_char # r) = Some (to_valid s, r)"
proof (induction s rule: quote_body.induct)
  case 1
  show ?case by (simp add: string_body.simps(2))
next
  case (2 c cs)
  consider "byte c < 0x80" | "0x80 \<le> byte c" "rune_size (c # cs) = 0"
    | "0x80 \<le> byte c" "rune_size (c # cs) \<noteq> 0" "line_sep (c # cs)"
    | "0x80 \<le> byte c" "rune_size (c # cs) \<noteq> 0" "\<not> line_sep (c # cs)"
    by linarith
  then show ?case
  proof cases
    case 1
    with 2 show ?thesis by (simp add: quote_body.simps(2) to_valid.simps(2) string_body_quote_ascii)
  next
    case 2
    with "2.IH" show ?thesis
      using string_body_invalid [of "quote_body cs @ quote_char # r"]
      by (simp add: quote_body.simps(2) to_valid.simps(2))
  next
    case 3
    with "2.IH" show ?thesis
      using string_body_line_sep [OF 3(3), of "quote_body (drop 2 cs) @ quote_char # r"] line_sep_size [OF 3(3)]
      by (simp add: quote_body.simps(2) to_valid.simps(2))
  next
    case 4
    with "2.IH" show ?thesis
      by (simp add: quote_body.simps(2) to_valid.simps(2) string_body_rune)
  qed
qed

section \<open>Values\<close>

text \<open>\<open>renders v x\<close>: the text \<open>v\<close> is read as the value \<open>x\<close> where a value of an object ends.\<close>

definition renders :: "string \<Rightarrow> json \<Rightarrow> bool" where
  "renders v x \<longleftrightarrow> (\<forall>n d r. starts_with '','' r \<or> starts_with ''}'' r \<longrightarrow>
     json_value (Suc n) d (v @ r) = Some (x, r))"

lemma json_ws_literals:
  "\<not> json_ws quote_char" "\<not> json_ws CHR '':''" "\<not> json_ws CHR '',''" "\<not> json_ws CHR ''{''"
  "\<not> json_ws CHR ''}''" "\<not> json_ws CHR ''t''" "\<not> json_ws CHR ''f''"
  by (simp_all add: json_ws_def quote_char_def)

lemma skip_ws_Cons [simp]: "\<not> json_ws c \<Longrightarrow> skip_ws (c # s) = c # s"
  by (simp add: skip_ws_def)

lemma quote_char_not: "quote_char \<noteq> CHR ''{''" "quote_char \<noteq> CHR ''[''" "quote_char \<noteq> CHR ''}''"
  "CHR ''}'' \<noteq> quote_char"
  by (simp_all add: quote_char_def)

lemma renders_string: "renders (json_string s) (JStr (to_valid s))"
proof -
  have "json_string s @ r = quote_char # quote_body s @ quote_char # r" for r
    by (simp add: json_string_def)
  then show ?thesis
    by (simp add: renders_def json_ws_literals quote_char_not string_body_quote)
qed

lemma renders_bool: "renders (json_bool b) (JBool b)"
  by (cases b) (simp_all add: renders_def json_bool_def json_ws_literals quote_char_def)

lemma digit_char_digit: "d < 10 \<Longrightarrow> is_digit (digit_char d)"
  by (simp add: is_digit_def digit_char_def between_def)

lemma show_nat_digits: "list_all is_digit (show_nat n)"
  using set_show_radix [of 10 _ n] by (fastforce simp: show_nat_def list_all_iff digit_char_digit)

lemma show_nat_zero: "hd (show_nat n) = CHR ''0'' \<Longrightarrow> show_nat n = ''0''"
proof -
  have d: "d < 10 \<Longrightarrow> digit_char d = CHR ''0'' \<Longrightarrow> d = 0" for d
    using digit_val_char [of d] by (simp add: digit_val_def)
  have "hd (show_nat n) \<noteq> CHR ''0''" if "n \<noteq> 0"
    using that unfolding show_nat_def
  proof (induction n rule: less_induct)
    case (less n)
    show ?case
    proof (cases "n < 10")
      case True
      with less.prems d show ?thesis by (subst show_radix.simps) auto
    next
      case False
      then have "hd (show_radix 10 (n div 10)) \<noteq> CHR ''0''"
        by (intro less.IH) auto
      with False show ?thesis by (subst show_radix.simps) (simp add: show_radix_nonempty)
    qed
  qed
  moreover have "show_nat 0 = ''0''" by code_simp
  ultimately show "hd (show_nat n) = CHR ''0'' \<Longrightarrow> show_nat n = ''0''" by (cases "n = 0") auto
qed

lemma end_not_number: "starts_with '','' r \<or> starts_with ''}'' r \<Longrightarrow>
    r \<noteq> [] \<and> \<not> is_digit (hd r) \<and> frac_part r = Some ([], r) \<and> exp_part r = Some ([], r)"
  by (cases r) (auto simp: is_digit_def between_def frac_part_def exp_part_def)

lemma json_number_show:
  assumes "starts_with '','' r \<or> starts_with ''}'' r"
  shows "json_number (show_nat n @ r) = Some (show_nat n, r)"
proof -
  note r = end_not_number [OF assms]
  obtain c cs where s: "show_nat n = c # cs" using show_nat_nonempty by (meson list.exhaust)
  then have c: "is_digit c" using show_nat_digits [of n] by simp
  have "takeWhile is_digit (show_nat n @ r) = show_nat n" "dropWhile is_digit (show_nat n @ r) = r"
    using show_nat_digits [of n] r by (cases r; auto simp: list_all_iff takeWhile_append2 dropWhile_append2)+
  then have "digits_part (show_nat n @ r) = Some (show_nat n, r)"
    using show_nat_nonempty by (simp add: digits_part_def)
  then have "int_part (show_nat n @ r) = Some (show_nat n, r)"
    using show_nat_zero [of n] by (auto simp: int_part_def s)
  moreover have "c \<noteq> CHR ''-''" using c by (auto simp: is_digit_def between_def)
  ultimately show ?thesis
    using r by (simp add: json_number_def s then_part_def)
qed

lemma renders_nat: "renders (show_nat n) (JNum (show_nat n))"
proof -
  obtain c cs where s: "show_nat n = c # cs" using show_nat_nonempty by (meson list.exhaust)
  then have "is_digit c" using show_nat_digits [of n] by simp
  then have c: "\<not> json_ws c" "c \<noteq> CHR ''{''" "c \<noteq> CHR ''[''" "c \<noteq> quote_char"
    "CHR ''t'' \<noteq> c" "CHR ''f'' \<noteq> c" "CHR ''n'' \<noteq> c"
    by (auto simp: is_digit_def between_def json_ws_def quote_char_def)
  then have "json_value (Suc m) d (show_nat n @ r) =
      map_option (\<lambda>(u, t). (JNum u, t)) (json_number (show_nat n @ r))" for m d r
    by (simp add: s)
  then show ?thesis by (simp add: renders_def json_number_show)
qed

text \<open>The members of an object, read in their order.\<close>

definition members_render :: "(string \<times> string) list \<Rightarrow> (string \<times> json) list \<Rightarrow> bool" where
  "members_render ms xs \<longleftrightarrow> list_all2 (\<lambda>(k, v) (l, x). l = to_valid k \<and> renders v x) ms xs"

lemma json_pairs_member:
  assumes "renders v x" "starts_with '','' r \<or> starts_with ''}'' r"
  shows "json_pairs (Suc (Suc n)) d (json_string k @ CHR '':'' # v @ r) =
     (if starts_with ''}'' r then Some ([(to_valid k, x)], tl r)
      else map_option (\<lambda>(ms, t). ((to_valid k, x) # ms, t)) (json_pairs (Suc n) d (tl r)))"
proof -
  obtain c t where r: "r = c # t" "c = CHR '','' \<or> c = CHR ''}''" using assms(2) by (cases r) auto
  have "string_body (quote_body k @ quote_char # CHR '':'' # v @ r) = Some (to_valid k, CHR '':'' # v @ r)"
    by (rule string_body_quote)
  moreover have "json_value (Suc n) d (v @ r) = Some (x, r)"
    using assms unfolding renders_def by blast
  ultimately show ?thesis
    using r(2) by (auto simp: json_string_def json_ws_literals r(1))
qed

lemma json_pairs_members:
  "members_render ms xs \<Longrightarrow> ms \<noteq> [] \<Longrightarrow> length ms \<le> n \<Longrightarrow>
   json_pairs (Suc n) d (json_members ms @ CHR ''}'' # r) = Some (xs, r)"
proof (induction ms arbitrary: xs n rule: json_members.induct)
  case (2 k v)
  then obtain x where "xs = [(to_valid k, x)]" "renders v x"
    by (auto simp: members_render_def list_all2_Cons1)
  with 2 json_pairs_member [of v x "CHR ''}'' # r" "n - 1" d k] show ?case by (cases n) auto
next
  case (3 k v m ms)
  then obtain x ys where xs: "xs = (to_valid k, x) # ys" "renders v x" "members_render (m # ms) ys"
    by (fastforce simp: members_render_def list_all2_Cons1)
  obtain n' where n: "n = Suc n'" "length (m # ms) \<le> n'" using 3(4) by (cases n) auto
  then have "json_pairs (Suc n') d (json_members (m # ms) @ CHR ''}'' # r) = Some (ys, r)"
    using 3 xs by blast
  with json_pairs_member [OF xs(2), of "CHR '','' # json_members (m # ms) @ CHR ''}'' # r" n' d k]
  show ?case by (simp add: n(1) xs(1))
qed simp

lemma length_json_members: "length ms \<le> length (json_members ms)"
  by (induction ms rule: json_members.induct) (auto simp: json_string_def)

lemma json_document_object:
  assumes "members_render ms xs" "ms \<noteq> []"
  shows "json_document (json_object ms) = Some (JObj xs)"
proof -
  have "\<exists>t. json_members ms = quote_char # t" using assms(2)
    by (cases ms rule: json_members.cases) (auto simp: json_string_def)
  then have ne: "\<not> starts_with ''}'' (skip_ws (json_members ms @ ''}''))"
    by (auto simp: json_ws_literals quote_char_not)
  have fuel: "2 * length (json_object ms) = Suc (2 * length (json_members ms) + 3)"
    by (simp add: json_object_def)
  have "json_pairs (2 * length (json_object ms)) (max_nesting - 1) (json_members ms @ ''}'') = Some (xs, [])"
    unfolding fuel using assms length_json_members [of ms] by (intro json_pairs_members) auto
  moreover have "max_nesting \<noteq> 0" by (simp add: max_nesting_def)
  ultimately have "json_value (Suc (2 * length (json_object ms))) max_nesting (json_object ms) = Some (JObj xs, [])"
    using ne by (simp add: json_object_def json_ws_literals)
  then show ?thesis by (simp add: json_document_def skip_ws_def)
qed

lemma unmarshal_object:
  "members_render ms xs \<Longrightarrow> ms \<noteq> [] \<Longrightarrow> unmarshal fs (json_object ms) r = assign_members fs xs r"
  by (simp add: unmarshal_def json_document_object)

lemma to_valid_Cons_ascii [simp]: "byte c < 0x80 \<Longrightarrow> to_valid (c # cs) = c # to_valid cs"
  by (simp add: to_valid.simps(2))

lemma to_valid_ascii: "list_all (\<lambda>c. byte c < 0x80) s \<Longrightarrow> to_valid s = s"
  by (induction s) simp_all

lemma parse_uint_show: "parse_uint (show_nat n) = Some n"
  by (simp add: parse_uint_def show_nat_nonempty) (simp add: show_nat_def digits_acc_show_radix)

lemma uint_field_show:
  "uint_field f (JNum (show_nat (unat w))) r = Some (f w r)"
  using unat_lt2p_word [of w] by (simp add: uint_field_def parse_uint_show)

section \<open>The bound on the recursion is never reached\<close>

lemma app_fst_eq_Some: "app_fst p r = Some (u, t) \<longleftrightarrow> (\<exists>v. r = Some (v, t) \<and> u = p @ v)"
  by (auto simp: app_fst_def)

lemma string_body_shorter: "string_body s = Some (u, t) \<Longrightarrow> length t < length s"
proof (induction s arbitrary: u t rule: string_body.induct)
  case (2 c cs)
  note eq = "2.prems" [unfolded string_body.simps(2)]
  have "c = quote_char \<or> c = backslash \<or> 0x20 \<le> byte c"
    using eq by (cases "byte c < 0x20") (auto split: if_splits)
  then consider "c = quote_char" | "c \<noteq> quote_char" "c = backslash"
    | "c \<noteq> quote_char" "c \<noteq> backslash" "0x20 \<le> byte c" "byte c < 0x80"
    | "c \<noteq> quote_char" "c \<noteq> backslash" "0x80 \<le> byte c" "rune_size (c # cs) = 0"
    | "c \<noteq> quote_char" "c \<noteq> backslash" "0x80 \<le> byte c" "rune_size (c # cs) \<noteq> 0"
    by (meson not_le)
  then show ?case
  proof cases
    case 1
    with eq show ?thesis by simp
  next
    case 2
    with eq obtain e ds where cs: "cs = e # ds" by (cases cs) auto
    show ?thesis
    proof (cases "e = CHR ''u''")
      case True
      with 2 eq obtain r es where h: "hex4 ds = Some (r, es)" by (auto simp: cs split: option.splits)
      with 2 True eq obtain v where "string_body (snd (unicode_escape r es)) = Some (v, t)"
        by (auto simp: cs app_fst_eq_Some)
      then have "length t < length (snd (unicode_escape r es))"
        using "2.IH"(1) 2 cs True h by blast
      then show ?thesis
        using unicode_escape_length [of r es] hex4_length [OF h] by (simp add: cs)
    next
      case False
      with 2 eq obtain x where x: "simple_escape e = Some x" by (auto simp: cs split: option.splits)
      with 2 False eq obtain v where "string_body ds = Some (v, t)" by (auto simp: cs app_fst_eq_Some)
      then have "length t < length ds" using "2.IH"(2) 2 cs False x by blast
      then show ?thesis by (simp add: cs)
    qed
  next
    case 3
    with eq obtain v where "string_body cs = Some (v, t)" by (auto simp: app_fst_eq_Some)
    moreover have "\<not> byte c < 0x20" using 3(3) by linarith
    ultimately have "length t < length cs" using "2.IH"(3) 3(1,2,4) by blast
    then show ?thesis by simp
  next
    case 4
    with eq obtain v where "string_body cs = Some (v, t)" by (auto simp: app_fst_eq_Some)
    moreover have "\<not> byte c < 0x20" "\<not> byte c < 0x80" using 4(3) by linarith+
    ultimately have "length t < length cs" using "2.IH"(4) 4(1,2,4) by blast
    then show ?thesis by simp
  next
    case 5
    with eq obtain v where "string_body (drop (rune_size (c # cs) - 1) cs) = Some (v, t)"
      by (auto simp: app_fst_eq_Some)
    moreover have "\<not> byte c < 0x20" "\<not> byte c < 0x80" using 5(3) by linarith+
    ultimately have "length t < length (drop (rune_size (c # cs) - 1) cs)" using "2.IH"(5) 5(1,2,4) by blast
    then show ?thesis by simp
  qed
qed simp

lemma skip_ws_le: "length (skip_ws s) \<le> length s"
  by (simp add: skip_ws_def length_dropWhile_le)

lemma tl_skip_ws: "starts_with [c] (skip_ws s) \<Longrightarrow> length (tl (skip_ws s)) < length s"
  using skip_ws_le [of s] by (cases "skip_ws s") auto

lemma digits_part_shorter: "digits_part s = Some (u, t) \<Longrightarrow> length t < length s"
proof -
  assume p: "digits_part s = Some (u, t)"
  have "length s = length (takeWhile is_digit s) + length (dropWhile is_digit s)"
    by (metis length_append takeWhile_dropWhile_id)
  with p show ?thesis by (auto simp: digits_part_def split: if_splits)
qed

lemma number_parts_shorter:
  "int_part s = Some (u, t) \<Longrightarrow> length t < length s"
  "frac_part s = Some (u, t) \<Longrightarrow> length t \<le> length s"
  "exp_part s = Some (u, t) \<Longrightarrow> length t \<le> length s"
  by (auto simp: int_part_def frac_part_def exp_part_def app_fst_eq_Some
      split: list.splits if_splits dest!: digits_part_shorter)

lemma json_number_shorter:
  assumes "json_number s = Some (u, t)"
  shows "length t < length s"
proof -
  obtain c cs where s: "s = c # cs" using assms by (cases s) (simp_all add: json_number_def)
  then obtain x v y w where "(if c = CHR ''-'' then app_fst [c] (int_part cs) else int_part s) = Some (x, v)"
      and f: "frac_part v = Some (y, w)" "\<exists>z. exp_part w = Some (z, t)"
    using assms by (auto simp: json_number_def then_part_def app_fst_eq_Some split: option.splits)
  then have "length v < length s"
    by (auto simp: s app_fst_eq_Some split: if_splits dest!: number_parts_shorter(1))
  with f show ?thesis using number_parts_shorter(2,3) by fastforce
qed

lemma json_shorter:
  "json_value n d s = Some (v, t) \<Longrightarrow> length t < length s"
  "json_pairs n d s = Some (ms, t) \<Longrightarrow> length t < length s"
  "json_items n d s = Some (vs, t) \<Longrightarrow> length t < length s"
proof (induction n arbitrary: d s v t ms vs)
  case (Suc n)
  {
    case 1
    then obtain c cs where c: "skip_ws s = c # cs" by (cases "skip_ws s") auto
    then have len: "length cs < length s" using skip_ws_le [of s] by simp
    from 1 c have "(\<exists>q. t = tl (skip_ws cs) \<and> starts_with [q] (skip_ws cs)) \<or>
        (\<exists>ms. json_pairs n (d - 1) cs = Some (ms, t)) \<or> (\<exists>vs. json_items n (d - 1) cs = Some (vs, t)) \<or>
        (\<exists>u. string_body cs = Some (u, t)) \<or> (\<exists>u. json_number (c # cs) = Some (u, t)) \<or>
        t = drop 4 (c # cs) \<or> t = drop 5 (c # cs)"
      by (auto split: if_splits)
    then have "length t < length s"
      using len Suc.IH(2,3) tl_skip_ws string_body_shorter json_number_shorter [of "c # cs"] skip_ws_le [of s] c
      by (fastforce dest: less_trans)
    then show ?case .
  next
    case 2
    then obtain cs k u v w where c: "skip_ws s = quote_char # cs" "string_body cs = Some (k, u)"
      "starts_with '':'' (skip_ws u)" "json_value n d (tl (skip_ws u)) = Some (v, w)"
      and t: "starts_with ''}'' (skip_ws w) \<and> t = tl (skip_ws w) \<or>
        starts_with '','' (skip_ws w) \<and> (\<exists>ms. json_pairs n d (tl (skip_ws w)) = Some (ms, t))"
      by (auto split: list.splits if_splits option.splits)
    have "length w < length s"
      using c(1) skip_ws_le [of s] string_body_shorter [OF c(2)] tl_skip_ws [OF c(3)] Suc.IH(1) [OF c(4)] by simp
    with t tl_skip_ws [of _ w] Suc.IH(2) show ?case by (metis less_trans)
  next
    case 3
    then obtain v w where c: "json_value n d s = Some (v, w)"
      and t: "starts_with '']'' (skip_ws w) \<and> t = tl (skip_ws w) \<or>
        starts_with '','' (skip_ws w) \<and> (\<exists>ms. json_items n d (tl (skip_ws w)) = Some (ms, t))"
      by (auto split: list.splits if_splits option.splits)
    from c have "length w < length s" by (rule Suc.IH(1))
    with t tl_skip_ws [of _ w] Suc.IH(3) show ?case by (metis less_trans)
  }
qed simp_all

text \<open>More fuel than the length demands changes nothing.\<close>

lemma json_fuel_step:
  "2 * length s + 1 \<le> n \<Longrightarrow> json_value (Suc n) d s = json_value n d s"
  "2 * length s + 1 \<le> n \<Longrightarrow> json_pairs (Suc n) d s = json_pairs n d s"
  "2 * length s + 2 \<le> n \<Longrightarrow> json_items (Suc n) d s = json_items n d s"
proof (induction n arbitrary: d s)
  case (Suc n)
  {
    case 1
    show ?case
    proof (cases "skip_ws s")
      case (Cons c cs)
      then have "length cs < length s" using skip_ws_le [of s] by simp
      with 1 have "json_pairs (Suc n) (d - 1) cs = json_pairs n (d - 1) cs"
        "json_items (Suc n) (d - 1) cs = json_items n (d - 1) cs"
        by (intro Suc.IH; simp)+
      then show ?thesis unfolding json_value.simps(2) Cons by (simp only: list.case)
    qed simp
  next
    case 2
    show ?case
    proof (cases "skip_ws s")
      case (Cons c cs)
      then have cs: "length cs < length s" using skip_ws_le [of s] by simp
      show ?thesis
      proof (cases "string_body cs")
        case (Some p)
        obtain k u where p: "p = (k, u)" by fastforce
        with Some cs have u: "length u + 1 < length s" using string_body_shorter by fastforce
        have tl: "length (tl (skip_ws u)) \<le> length u" using skip_ws_le [of u] by simp
        with 2 u have v: "json_value (Suc n) d (tl (skip_ws u)) = json_value n d (tl (skip_ws u))"
          by (intro Suc.IH) simp
        show ?thesis
        proof (cases "json_value n d (tl (skip_ws u))")
          case None
          with v Cons Some p show ?thesis by (simp only: json_pairs.simps(2)) simp
        next
          case (Some q)
          obtain x w where q: "q = (x, w)" by fastforce
          with Some have "length w < length (tl (skip_ws u))" using json_shorter(1) by blast
          moreover have "length (tl (skip_ws w)) \<le> length w" using skip_ws_le [of w] by simp
          ultimately have "json_pairs (Suc n) d (tl (skip_ws w)) = json_pairs n d (tl (skip_ws w))"
            using 2 u tl by (intro Suc.IH) simp
          with v Some q p Cons \<open>string_body cs = Some p\<close> show ?thesis
            unfolding json_pairs.simps(2) by (simp only: list.case option.case prod.case)
        qed
      next
        case None
        with Cons show ?thesis by simp
      qed
    qed simp
  next
    case 3
    then have v: "json_value (Suc n) d s = json_value n d s" by (intro Suc.IH) simp
    show ?case
    proof (cases "json_value n d s")
      case None
      with v show ?thesis by (simp only: json_items.simps(2)) simp
    next
      case (Some q)
      obtain x w where q: "q = (x, w)" by fastforce
      with Some have "length w < length s" using json_shorter(1) by blast
      moreover have "length (tl (skip_ws w)) \<le> length w" using skip_ws_le [of w] by simp
      ultimately have "json_items (Suc n) d (tl (skip_ws w)) = json_items n d (tl (skip_ws w))"
        using 3 by (intro Suc.IH) simp
      with v Some q show ?thesis
        unfolding json_items.simps(2) by (simp only: list.case option.case prod.case)
    qed
  }
qed simp_all

lemma json_value_fuel: "json_value (2 * length s + 1 + k) d s = json_value (2 * length s + 1) d s"
  by (induction k) (simp_all add: json_fuel_step(1) del: json_value.simps)

end
