(* ===== verification/Wire.thy ===== *)
theory Wire
  imports GoBytes JsonRoundtrip
begin

text \<open>
  The wire protocol of \<open>wraith-go/pkg/transport/protocol.go\<close>: frames, the control messages in
  JSON, data blocks, and the connection they travel on. A connection is what its end sees: the
  bytes that arrive and how the stream ends, the bytes that have been accepted for sending, and
  what happens to the calls of \<open>Write\<close> to come. Deadlines are left out; a deadline that expires
  is one of the errors.
\<close>

section \<open>Connections\<close>

datatype io_error =
    EOF
  | UnexpectedEOF
  | NetError nat

text \<open>A fault of a \<open>Write\<close>: so many bytes went out before the error.\<close>

record conn =
  c_in :: "u8 list"
  c_end :: io_error
  c_out :: "u8 list"
  c_faults :: "(nat \<times> io_error) option list"

definition conn_write :: "u8 list \<Rightarrow> (conn, io_error, unit) act" where
  "conn_write bs c = (case c_faults c of
       [] \<Rightarrow> (Inr (), c\<lparr>c_out := c_out c @ bs\<rparr>)
     | None # fs \<Rightarrow> (Inr (), c\<lparr>c_out := c_out c @ bs, c_faults := fs\<rparr>)
     | Some (k, e) # fs \<Rightarrow> (Inl e, c\<lparr>c_out := c_out c @ take k bs, c_faults := fs\<rparr>))"

text \<open>\<open>io.ReadFull\<close>, which \<open>binary.Read\<close> uses as well: an end of the stream inside the bytes asked
  for is \<open>ErrUnexpectedEOF\<close>.\<close>

definition read_full :: "nat \<Rightarrow> (conn, io_error, u8 list) act" where
  "read_full n c =
     (if n \<le> length (c_in c) then (Inr (take n (c_in c)), c\<lparr>c_in := drop n (c_in c)\<rparr>)
      else (Inl (if c_end c = EOF \<and> c_in c \<noteq> [] then UnexpectedEOF else c_end c), c\<lparr>c_in := []\<rparr>))"

section \<open>Frames\<close>

definition MsgHandshake :: u32 where "MsgHandshake = 1"
definition MsgReadyAck :: u32 where "MsgReadyAck = 2"
definition MsgDataBlock :: u32 where "MsgDataBlock = 3"
definition MsgComplete :: u32 where "MsgComplete = 4"
definition MsgError :: u32 where "MsgError = 255"

definition PageSize :: nat where "PageSize = 4096"

record frame =
  fr_type :: u32
  fr_payload :: "u8 list"

text \<open>Errors as \<open>fmt.Errorf\<close> wraps them; \<open>Bare\<close> is an error of the connection that is not wrapped.\<close>

datatype frame_error =
    Bare io_error
  | WriteFrameType io_error
  | WriteFrameLength io_error
  | WriteFramePayload io_error
  | ReadFrameType io_error
  | ReadFrameLength io_error
  | ReadFramePayload u32 io_error
  | BlockTooShort nat
  | BlockTruncated u32 nat
  | BlockPanic

definition frame_write_to :: "frame \<Rightarrow> (conn, frame_error, unit) act" where
  "frame_write_to f =
     try_act (conn_write (be32 (fr_type f))) WriteFrameType (\<lambda>_.
     try_act (conn_write (be32 (of_nat (length (fr_payload f))))) WriteFrameLength (\<lambda>_.
     if length (fr_payload f) > 0
     then try_act (conn_write (fr_payload f)) WriteFramePayload ok_act
     else ok_act ()))"

definition read_frame :: "(conn, frame_error, frame) act" where
  "read_frame =
     try_act (read_full 4) ReadFrameType (\<lambda>typ.
     try_act (read_full 4) ReadFrameLength (\<lambda>len.
     if read_be32 len > 0
     then try_act (read_full (unat (read_be32 len))) (ReadFramePayload (read_be32 len)) (\<lambda>payload.
       ok_act \<lparr>fr_type = read_be32 typ, fr_payload = payload\<rparr>)
     else ok_act \<lparr>fr_type = read_be32 typ, fr_payload = []\<rparr>))"

section \<open>Control messages\<close>

record handshake =
  hs_hostname :: string
  hs_pid :: u32
  hs_arch :: string
  hs_total :: u64
  hs_pages :: u32
  hs_version :: string

record ready_ack =
  ra_accepted :: bool
  ra_reason :: string

record error_msg =
  em_message :: string

definition handshake_json :: "handshake \<Rightarrow> string" where
  "handshake_json h = json_object [
     (''source_hostname'', json_string (hs_hostname h)), (''source_pid'', show_nat (unat (hs_pid h))),
     (''arch'', json_string (hs_arch h)), (''total_bytes'', show_nat (unat (hs_total h))),
     (''page_count'', show_nat (unat (hs_pages h))), (''snapshot_version'', json_string (hs_version h))]"

text \<open>\<open>omitempty\<close>: an empty reason is not written.\<close>

definition ready_ack_json :: "ready_ack \<Rightarrow> string" where
  "ready_ack_json a = json_object ((''accepted'', json_bool (ra_accepted a)) #
     (if ra_reason a = [] then [] else [(''reason'', json_string (ra_reason a))]))"

definition handshake_fields :: "(string \<times> handshake setter) list" where
  "handshake_fields = [
     (''source_hostname'', string_field (\<lambda>s h. h\<lparr>hs_hostname := s\<rparr>)),
     (''source_pid'', uint_field (\<lambda>w h. h\<lparr>hs_pid := w\<rparr>)),
     (''arch'', string_field (\<lambda>s h. h\<lparr>hs_arch := s\<rparr>)),
     (''total_bytes'', uint_field (\<lambda>w h. h\<lparr>hs_total := w\<rparr>)),
     (''page_count'', uint_field (\<lambda>w h. h\<lparr>hs_pages := w\<rparr>)),
     (''snapshot_version'', string_field (\<lambda>s h. h\<lparr>hs_version := s\<rparr>))]"

definition ready_ack_fields :: "(string \<times> ready_ack setter) list" where
  "ready_ack_fields = [
     (''accepted'', bool_field (\<lambda>b a. a\<lparr>ra_accepted := b\<rparr>)),
     (''reason'', string_field (\<lambda>s a. a\<lparr>ra_reason := s\<rparr>))]"

definition error_msg_fields :: "(string \<times> error_msg setter) list" where
  "error_msg_fields = [(''message'', string_field (\<lambda>s m. m\<lparr>em_message := s\<rparr>))]"

definition empty_handshake :: handshake where
  "empty_handshake = \<lparr>hs_hostname = [], hs_pid = 0, hs_arch = [], hs_total = 0, hs_pages = 0, hs_version = []\<rparr>"

text \<open>\<open>decodeJSON\<close> into a variable that is zero: the struct, and whether there was no error.\<close>

definition decode_handshake :: "u8 list \<Rightarrow> handshake \<times> bool" where
  "decode_handshake bs = unmarshal handshake_fields (of_bytes bs) empty_handshake"

definition decode_ready_ack :: "u8 list \<Rightarrow> ready_ack \<times> bool" where
  "decode_ready_ack bs = unmarshal ready_ack_fields (of_bytes bs) \<lparr>ra_accepted = False, ra_reason = []\<rparr>"

definition decode_error_msg :: "u8 list \<Rightarrow> error_msg \<times> bool" where
  "decode_error_msg bs = unmarshal error_msg_fields (of_bytes bs) \<lparr>em_message = []\<rparr>"

definition write_json :: "u32 \<Rightarrow> string \<Rightarrow> (conn, frame_error, unit) act" where
  "write_json typ json = frame_write_to \<lparr>fr_type = typ, fr_payload = to_bytes json\<rparr>"

section \<open>Data blocks\<close>

record data_block =
  db_offset :: u64
  db_checksum :: u64
  db_data :: "u8 list"

definition block_payload :: "data_block \<Rightarrow> u8 list" where
  "block_payload b = be64 (db_offset b) @ be64 (db_checksum b) @ be32 (of_nat (length (db_data b))) @ db_data b"

definition write_block :: "data_block \<Rightarrow> (conn, frame_error, unit) act" where
  "write_block b = frame_write_to \<lparr>fr_type = MsgDataBlock, fr_payload = block_payload b\<rparr>"

text \<open>The upper bound \<open>20 + dataLen\<close> of the slice is a sum of \<open>uint32\<close>; a bound below 20 panics.\<close>

definition read_block :: "u8 list \<Rightarrow> frame_error + data_block" where
  "read_block payload =
     (if length payload < 20 then Inl (BlockTooShort (length payload))
      else let n = read_be32 (drop 16 payload) in
        if unat n > length payload - 20 then Inl (BlockTruncated n (length payload - 20))
        else if 20 + n < 20 then Inl BlockPanic
        else Inr \<lparr>db_offset = read_be64 payload, db_checksum = read_be64 (drop 8 payload),
               db_data = slice_of 20 (unat (20 + n)) payload\<rparr>)"

section \<open>What is written is read back\<close>

definition frame_bytes :: "frame \<Rightarrow> u8 list" where
  "frame_bytes f = be32 (fr_type f) @ be32 (of_nat (length (fr_payload f))) @ fr_payload f"

lemma write_frame_ok:
  "c_faults c = [] \<Longrightarrow> frame_write_to f c = (Inr (), c\<lparr>c_out := c_out c @ frame_bytes f\<rparr>)"
  by (simp add: frame_write_to_def frame_bytes_def try_act_def conn_write_def ok_act_def)

lemma keeps_conn_write [keeps_intros]: "keeps c_in (conn_write bs)" "keeps c_end (conn_write bs)"
  by (simp_all add: keeps_def conn_write_def split: list.splits option.splits)

lemma keeps_write_frame [keeps_intros]: "keeps c_in (frame_write_to f)" "keeps c_end (frame_write_to f)"
  by (simp_all add: frame_write_to_def keeps_intros)

lemma keeps_read_full [keeps_intros]: "keeps c_out (read_full n)" "keeps c_faults (read_full n)"
  by (simp_all add: keeps_def read_full_def)

lemma keeps_read_frame [keeps_intros]: "keeps c_out read_frame" "keeps c_faults read_frame"
  by (simp_all add: read_frame_def keeps_intros)

lemma read_frame_bytes:
  assumes "c_in c = frame_bytes f @ r" "length (fr_payload f) < 2 ^ 32"
  shows "read_frame c = (Inr f, c\<lparr>c_in := r\<rparr>)"
proof -
  have n: "unat (of_nat (length (fr_payload f)) :: u32) = length (fr_payload f)"
    using assms(2) by (simp add: unat_of_nat)
  then have z: "(of_nat (length (fr_payload f)) :: u32) > 0 \<longleftrightarrow> fr_payload f \<noteq> []"
    by (metis length_greater_0_conv unat_gt_0 word_neq_0_conv)
  show ?thesis
    using assms(1) z by (simp add: read_frame_def try_act_def read_full_def frame_bytes_def ok_act_def n)
qed

lemma read_full_shorter:
  "read_full n c = (Inr bs, d) \<Longrightarrow> d = c\<lparr>c_in := drop n (c_in c)\<rparr> \<and> n \<le> length (c_in c) \<and> length bs = n"
  by (auto simp: read_full_def split: if_splits)

lemma read_frame_shorter:
  assumes "read_frame c = (Inr f, d)"
  shows "\<exists>r. d = c\<lparr>c_in := r\<rparr> \<and> length r + 8 + length (fr_payload f) = length (c_in c)"
proof -
  from assms obtain t c1 l c2 where 1: "read_full 4 c = (Inr t, c1)" and 2: "read_full 4 c1 = (Inr l, c2)"
    and f: "(if read_be32 l > 0
      then try_act (read_full (unat (read_be32 l))) (ReadFramePayload (read_be32 l)) (\<lambda>payload.
        ok_act \<lparr>fr_type = read_be32 t, fr_payload = payload\<rparr>)
      else ok_act \<lparr>fr_type = read_be32 t, fr_payload = []\<rparr>) c2 = (Inr f, d)"
    unfolding read_frame_def by (elim try_actE) blast
  have c2: "c2 = c\<lparr>c_in := drop 8 (c_in c)\<rparr>" "8 \<le> length (c_in c)"
    using read_full_shorter [OF 1] read_full_shorter [OF 2] by auto
  show ?thesis
  proof (cases "read_be32 l > 0")
    case True
    with f obtain p where p: "read_full (unat (read_be32 l)) c2 = (Inr p, d)" "fr_payload f = p"
      by auto
    with c2 read_full_shorter [OF p(1)] show ?thesis by (intro exI [of _ "c_in d"]) auto
  next
    case False
    with f c2 show ?thesis by (intro exI [of _ "c_in d"]) auto
  qed
qed

lemma read_frame_not_bare: "read_frame c = (Inl e, d) \<Longrightarrow> e \<noteq> Bare x"
proof
  assume "read_frame c = (Inl e, d)" "e = Bare x"
  then show False
    by (simp add: read_frame_def try_act_def read_full_def ok_act_def split: if_splits)
qed

lemma read_block_payload:
  assumes "length (db_data b) < 2 ^ 32 - 20"
  shows "read_block (block_payload b) = Inr b"
proof -
  have n: "unat (of_nat (length (db_data b)) :: u32) = length (db_data b)"
    using assms by (simp add: unat_of_nat)
  then have s: "unat (20 + of_nat (length (db_data b)) :: u32) = 20 + length (db_data b)"
    using assms word_le_add_unat [of "20 :: u32" "of_nat (length (db_data b))"] by simp
  then have "\<not> (20 + of_nat (length (db_data b)) :: u32) < 20" by (simp add: word_less_nat_alt)
  moreover have "length (block_payload b) = 20 + length (db_data b)" by (simp add: block_payload_def)
  ultimately show ?thesis
    using n s by (simp add: read_block_def Let_def slice_of_def) (simp add: block_payload_def)
qed

lemma handshake_decoded:
  "decode_handshake (to_bytes (handshake_json h)) =
     (h\<lparr>hs_hostname := to_valid (hs_hostname h), hs_arch := to_valid (hs_arch h),
        hs_version := to_valid (hs_version h)\<rparr>, True)"
proof -
  let ?xs = "[(''source_hostname'', JStr (to_valid (hs_hostname h))), (''source_pid'', JNum (show_nat (unat (hs_pid h)))),
     (''arch'', JStr (to_valid (hs_arch h))), (''total_bytes'', JNum (show_nat (unat (hs_total h)))),
     (''page_count'', JNum (show_nat (unat (hs_pages h)))), (''snapshot_version'', JStr (to_valid (hs_version h)))]"
  have "members_render [(''source_hostname'', json_string (hs_hostname h)), (''source_pid'', show_nat (unat (hs_pid h))),
     (''arch'', json_string (hs_arch h)), (''total_bytes'', show_nat (unat (hs_total h))),
     (''page_count'', show_nat (unat (hs_pages h))), (''snapshot_version'', json_string (hs_version h))] ?xs"
    by (simp add: members_render_def renders_string renders_nat)
  then have "decode_handshake (to_bytes (handshake_json h)) = assign_members handshake_fields ?xs empty_handshake"
    by (simp add: decode_handshake_def handshake_json_def unmarshal_object)
  then show ?thesis
    by (simp add: handshake_fields_def find_field_def or_else_def uint_field_show string_field_def empty_handshake_def)
qed

lemma ready_ack_decoded:
  "decode_ready_ack (to_bytes (ready_ack_json a)) = (a\<lparr>ra_reason := to_valid (ra_reason a)\<rparr>, True)"
proof -
  let ?ms = "(''accepted'', json_bool (ra_accepted a)) #
     (if ra_reason a = [] then [] else [(''reason'', json_string (ra_reason a))])"
  let ?xs = "(''accepted'', JBool (ra_accepted a)) #
     (if ra_reason a = [] then [] else [(''reason'', JStr (to_valid (ra_reason a)))])"
  have "members_render ?ms ?xs"
    by (simp add: members_render_def renders_string renders_bool)
  then have "decode_ready_ack (to_bytes (ready_ack_json a)) =
      assign_members ready_ack_fields ?xs \<lparr>ra_accepted = False, ra_reason = []\<rparr>"
    unfolding decode_ready_ack_def ready_ack_json_def of_to_bytes by (rule unmarshal_object) simp
  then show ?thesis
    by (simp add: ready_ack_fields_def find_field_def or_else_def bool_field_def string_field_def)
qed

section \<open>The link, as its two ends rely on it\<close>

text \<open>Messages put on a connection that works are appended to the stream in their encoding, and
  the encoding of a message at the head of the stream is taken off as that message.\<close>

fun put_all :: "('m \<Rightarrow> (conn, 'e, unit) act) \<Rightarrow> 'm list \<Rightarrow> (conn, 'e, unit) act" where
  "put_all put [] = ok_act ()"
| "put_all put (m # ms) = bind_act (put m) (\<lambda>_. put_all put ms)"

fun get_all :: "(conn, 'e, 'm) act \<Rightarrow> nat \<Rightarrow> (conn, 'e, 'm list) act" where
  "get_all get 0 = ok_act []"
| "get_all get (Suc n) = bind_act get (\<lambda>m. bind_act (get_all get n) (\<lambda>ms. ok_act (m # ms)))"

locale link =
  fixes put :: "'m \<Rightarrow> (conn, 'e, unit) act"
    and get :: "(conn, 'e, 'm) act"
    and enc :: "'m \<Rightarrow> u8 list"
    and fits :: "'m \<Rightarrow> bool"
  assumes put_ok: "c_faults c = [] \<Longrightarrow> put m c = (Inr (), c\<lparr>c_out := c_out c @ enc m\<rparr>)"
    and get_ok: "fits m \<Longrightarrow> c_in c = enc m @ r \<Longrightarrow> get c = (Inr m, c\<lparr>c_in := r\<rparr>)"
begin

lemma put_all_ok:
  "c_faults c = [] \<Longrightarrow> put_all put ms c = (Inr (), c\<lparr>c_out := c_out c @ concat (map enc ms)\<rparr>)"
  by (induction ms arbitrary: c) (simp_all add: act_simps put_ok)

lemma get_all_ok:
  "list_all fits ms \<Longrightarrow> c_in c = concat (map enc ms) @ r \<Longrightarrow>
   get_all get (length ms) c = (Inr ms, c\<lparr>c_in := r\<rparr>)"
proof (induction ms arbitrary: c)
  case (Cons m ms)
  then have g: "get c = (Inr m, c\<lparr>c_in := concat (map enc ms) @ r\<rparr>)" by (intro get_ok) auto
  moreover have "get_all get (length ms) (c\<lparr>c_in := concat (map enc ms) @ r\<rparr>) = (Inr ms, c\<lparr>c_in := r\<rparr>)"
    using Cons.IH [of "c\<lparr>c_in := concat (map enc ms) @ r\<rparr>"] Cons.prems by simp
  ultimately show ?case by (simp add: act_simps)
qed (simp add: act_simps)

text \<open>What one end puts, the other end gets.\<close>

lemma get_put_all:
  assumes "c_faults c = []" "c_out c = []" "list_all fits ms"
    and "put_all put ms c = (r, c')" "c_in d = c_out c'"
  shows "get_all get (length ms) d = (Inr ms, d\<lparr>c_in := []\<rparr>)"
  using assms get_all_ok [of ms d "[]"] put_all_ok [of c ms] by auto

end

definition frame_fits :: "frame \<Rightarrow> bool" where
  "frame_fits f \<longleftrightarrow> length (fr_payload f) < 2 ^ 32"

interpretation frames: link frame_write_to read_frame frame_bytes frame_fits
  by unfold_locales (simp_all add: write_frame_ok read_frame_bytes frame_fits_def)

text \<open>Data blocks travel in frames.\<close>

definition block_frame :: "data_block \<Rightarrow> frame" where
  "block_frame b = \<lparr>fr_type = MsgDataBlock, fr_payload = block_payload b\<rparr>"

definition next_block :: "(conn, frame_error, data_block) act" where
  "next_block = bind_act read_frame (\<lambda>f. look (\<lambda>_. read_block (fr_payload f)))"

definition block_fits :: "data_block \<Rightarrow> bool" where
  "block_fits b \<longleftrightarrow> length (db_data b) < 2 ^ 32 - 20"

lemma block_frame_fits: "block_fits b \<Longrightarrow> frame_fits (block_frame b)"
  by (simp add: block_fits_def frame_fits_def block_frame_def block_payload_def)

interpretation blocks: link write_block next_block "\<lambda>b. frame_bytes (block_frame b)" block_fits
proof
  fix c :: conn and m r
  show "c_faults c = [] \<Longrightarrow> write_block m c = (Inr (), c\<lparr>c_out := c_out c @ frame_bytes (block_frame m)\<rparr>)"
    by (simp add: write_block_def block_frame_def frames.put_ok)
  assume m: "block_fits m" "c_in c = frame_bytes (block_frame m) @ r"
  then have "read_frame c = (Inr (block_frame m), c\<lparr>c_in := r\<rparr>)" by (intro frames.get_ok block_frame_fits)
  with m(1) show "next_block c = (Inr m, c\<lparr>c_in := r\<rparr>)"
    by (simp add: next_block_def act_simps block_frame_def block_fits_def read_block_payload)
qed

end
