(* ===== verification/Delta.thy ===== *)
theory Delta
  imports GoBytes
begin

text \<open>
  The dirty-page detection of \<open>wraith-go/pkg/delta/delta.go\<close>. The hash of the package
  \<open>xxhash\<close> is a parameter, and so is the arithmetic on \<open>float64\<close>. A panic of the runtime is
  \<open>None\<close>. Sizes and offsets are natural numbers: a slice is shorter than \<open>2 ^ 63\<close> bytes.
\<close>

section \<open>Manifests\<close>

record page_hash =
  ph_offset :: u64
  ph_hash :: u64

type_synonym manifest = "page_hash list"

record detector =
  det_prev :: "manifest option"

definition new_detector :: detector where
  "new_detector = \<lparr>det_prev = None\<rparr>"

definition hash_page :: "(u8 list \<Rightarrow> u64) \<Rightarrow> u8 list \<Rightarrow> u64" where
  "hash_page xxh bs = xxh bs"

function pages_from :: "(u8 list \<Rightarrow> u64) \<Rightarrow> u8 list \<Rightarrow> nat \<Rightarrow> nat \<Rightarrow> manifest" where
  "pages_from xxh bs page_size pos =
     (if page_size = 0 \<or> length bs \<le> pos then []
      else \<lparr>ph_offset = of_nat pos, ph_hash = xxh (slice_of pos (min (pos + page_size) (length bs)) bs)\<rparr> #
        pages_from xxh bs page_size (pos + page_size))"
  by pat_completeness auto
termination by (relation "measure (\<lambda>(xxh, bs, page_size, pos). length bs - pos)") auto

declare pages_from.simps [simp del]

text \<open>A page size of zero is a division by zero in the number of pages.\<close>

definition build_manifest :: "(u8 list \<Rightarrow> u64) \<Rightarrow> u8 list \<Rightarrow> nat \<Rightarrow> manifest option" where
  "build_manifest xxh bs page_size = (if page_size = 0 then None else Some (pages_from xxh bs page_size 0))"

section \<open>The detector\<close>

definition page_changed :: "manifest \<Rightarrow> nat \<Rightarrow> page_hash \<Rightarrow> bool" where
  "page_changed prev i p \<longleftrightarrow> i \<ge> length prev \<or> ph_hash p \<noteq> ph_hash (prev ! i)"

definition dirty_offsets ::
    "(u8 list \<Rightarrow> u64) \<Rightarrow> detector \<Rightarrow> u8 list \<Rightarrow> nat \<Rightarrow> (nat list \<times> detector) option" where
  "dirty_offsets xxh d bs page_size = (case build_manifest xxh bs page_size of
     None \<Rightarrow> None
   | Some cur \<Rightarrow>
       let dirty = filter (\<lambda>(i, p). case det_prev d of None \<Rightarrow> True | Some prev \<Rightarrow> page_changed prev i p)
             (enumerate 0 cur)
       in Some (map (\<lambda>(i, p). unat (ph_offset p)) dirty, d\<lparr>det_prev := Some cur\<rparr>))"

section \<open>Statistics\<close>

text \<open>The operations on \<open>float64\<close>: zero, \<open>1.0 - float64(a)/float64(b)\<close>, and printing a fraction as a
  percentage with one decimal.\<close>

record 'f floats =
  fl_zero :: 'f
  fl_saved :: "nat \<Rightarrow> nat \<Rightarrow> 'f"
  fl_percent :: "'f \<Rightarrow> string"

record 'f change_stats =
  cs_total :: nat
  cs_dirty :: nat
  cs_clean :: nat
  cs_reduction :: 'f

definition analyze ::
    "'f floats \<Rightarrow> (u8 list \<Rightarrow> u64) \<Rightarrow> u8 list \<Rightarrow> u8 list \<Rightarrow> nat \<Rightarrow> 'f change_stats option" where
  "analyze F xxh prev cur page_size =
     (case (build_manifest xxh prev page_size, build_manifest xxh cur page_size) of
        (Some pm, Some cm) \<Rightarrow>
          let dirty = length (filter (\<lambda>(i, p). page_changed pm i p) (enumerate 0 cm)); total = length cm
          in Some \<lparr>cs_total = total, cs_dirty = dirty, cs_clean = total - dirty,
               cs_reduction = (if total > 0 then fl_saved F dirty total else fl_zero F)\<rparr>
      | _ \<Rightarrow> None)"

section \<open>The pages of a manifest\<close>

definition page :: "nat \<Rightarrow> nat \<Rightarrow> u8 list \<Rightarrow> u8 list" where
  "page page_size i bs = slice_of (i * page_size) (min (Suc i * page_size) (length bs)) bs"

definition page_count :: "nat \<Rightarrow> u8 list \<Rightarrow> nat" where
  "page_count page_size bs = (length bs + page_size - 1) div page_size"

lemma page_count_less:
  assumes "0 < ps"
  shows "i < page_count ps bs \<longleftrightarrow> i * ps < length bs"
proof -
  have "i < page_count ps bs \<longleftrightarrow> Suc i * ps \<le> length bs + ps - 1"
    using assms by (simp add: page_count_def less_eq_div_iff_mult_less_eq Suc_le_eq [symmetric])
  then show ?thesis using assms by auto
qed

lemma pages_from_map:
  assumes "0 < ps" "k \<le> page_count ps bs"
  shows "pages_from xxh bs ps (k * ps) =
     map (\<lambda>i. \<lparr>ph_offset = of_nat (i * ps), ph_hash = xxh (page ps i bs)\<rparr>) [k..<page_count ps bs]"
  using assms(2)
proof (induction "page_count ps bs - k" arbitrary: k)
  case 0
  then have "\<not> k < page_count ps bs" by simp
  then have "length bs \<le> k * ps" using assms(1) by (simp add: page_count_less)
  with 0 show ?case by (simp add: pages_from.simps)
next
  case (Suc n)
  then have k: "k < page_count ps bs" by simp
  then have "k * ps < length bs" using assms(1) by (simp add: page_count_less)
  moreover have "pages_from xxh bs ps (Suc k * ps) =
      map (\<lambda>i. \<lparr>ph_offset = of_nat (i * ps), ph_hash = xxh (page ps i bs)\<rparr>) [Suc k..<page_count ps bs]"
    using Suc k by (intro Suc.hyps(1)) auto
  ultimately show ?case
    using k assms(1) by (subst pages_from.simps) (simp add: upt_conv_Cons page_def add.commute)
qed

lemma build_manifest_map:
  "0 < ps \<Longrightarrow> build_manifest xxh bs ps = Some (map (\<lambda>i. \<lparr>ph_offset = of_nat (i * ps),
     ph_hash = xxh (page ps i bs)\<rparr>) [0..<page_count ps bs])"
  using pages_from_map [of ps 0 bs xxh] by (simp add: build_manifest_def)

text \<open>A page has changed if it is new or its hash differs.\<close>

definition changed :: "(u8 list \<Rightarrow> u64) \<Rightarrow> nat \<Rightarrow> u8 list option \<Rightarrow> u8 list \<Rightarrow> nat \<Rightarrow> bool" where
  "changed xxh ps old bs i = (case old of None \<Rightarrow> True
     | Some prev \<Rightarrow> page_count ps prev \<le> i \<or> xxh (page ps i bs) \<noteq> xxh (page ps i prev))"

definition detector_of :: "(u8 list \<Rightarrow> u64) \<Rightarrow> nat \<Rightarrow> u8 list option \<Rightarrow> detector" where
  "detector_of xxh ps old = \<lparr>det_prev = (case old of None \<Rightarrow> None | Some prev \<Rightarrow> build_manifest xxh prev ps)\<rparr>"

lemma filter_enumerate_map:
  "map (\<lambda>(i, p). g p) (filter (\<lambda>(i, p). P i p) (enumerate 0 (map f [0..<n]))) =
   map (\<lambda>i. g (f i)) (filter (\<lambda>i. P i (f i)) [0..<n])"
proof -
  have "enumerate 0 (map f [0..<n]) = map (\<lambda>i. (i, f i)) [0..<n]"
    by (rule nth_equalityI) (simp_all add: nth_enumerate_eq)
  then show ?thesis by (simp add: filter_map comp_def case_prod_unfold)
qed

lemma page_changed_map:
  "page_changed (map (\<lambda>i. \<lparr>ph_offset = g i, ph_hash = xxh (page ps i prev)\<rparr>) [0..<page_count ps prev]) i
     \<lparr>ph_offset = n, ph_hash = xxh (page ps i bs)\<rparr> = changed xxh ps (Some prev) bs i"
  by (cases "i < page_count ps prev") (simp_all add: page_changed_def changed_def)

lemma dirty_offsets_eq:
  assumes "0 < ps" "length bs < 2 ^ 64"
  shows "dirty_offsets xxh (detector_of xxh ps old) bs ps =
     Some (map (\<lambda>i. i * ps) (filter (changed xxh ps old bs) [0..<page_count ps bs]), detector_of xxh ps (Some bs))"
proof -
  have off: "unat (of_nat (i * ps) :: u64) = i * ps" if "i < page_count ps bs" for i
    using that assms page_count_less [OF assms(1), of i bs]
    by (simp add: unat_of_nat del: of_nat_mult)
  have old: "(case det_prev (detector_of xxh ps old) of None \<Rightarrow> True | Some m \<Rightarrow>
      page_changed m i \<lparr>ph_offset = of_nat (i * ps), ph_hash = xxh (page ps i bs)\<rparr>) = changed xxh ps old bs i" for i
    using assms(1)
    by (cases old) (simp_all add: detector_of_def build_manifest_map page_changed_map [where xxh = xxh], simp add: changed_def)
  show ?thesis
    using assms(1)
    by (simp add: dirty_offsets_def build_manifest_map filter_enumerate_map old off del: of_nat_mult cong: map_cong)
      (simp add: detector_of_def build_manifest_map)
qed

lemma new_detector_of: "new_detector = detector_of xxh ps None"
  by (simp add: new_detector_def detector_of_def)

lemma first_call_all:
  "0 < ps \<Longrightarrow> length bs < 2 ^ 64 \<Longrightarrow>
   dirty_offsets xxh new_detector bs ps = Some (map (\<lambda>i. i * ps) [0..<page_count ps bs], detector_of xxh ps (Some bs))"
  using dirty_offsets_eq [of ps bs xxh None] by (simp add: new_detector_of [of xxh ps] changed_def)

lemma analyze_eq:
  assumes "0 < ps"
  shows "analyze F xxh prev cur ps =
     (let n = length (filter (changed xxh ps (Some prev) cur) [0..<page_count ps cur])
      in Some \<lparr>cs_total = page_count ps cur, cs_dirty = n, cs_clean = page_count ps cur - n,
           cs_reduction = (if page_count ps cur > 0 then fl_saved F n (page_count ps cur) else fl_zero F)\<rparr>)"
proof -
  let ?f = "\<lambda>i. \<lparr>ph_offset = of_nat (i * ps), ph_hash = xxh (page ps i cur)\<rparr>"
  have "length (filter (\<lambda>(i, p). P i p) (enumerate 0 (map ?f [0..<n]))) =
      length (filter (\<lambda>i. P i (?f i)) [0..<n])" for P n
    using arg_cong [OF filter_enumerate_map [of id P ?f n], of length] by simp
  then show ?thesis
    using assms by (simp add: analyze_def build_manifest_map Let_def page_changed_map [where xxh = xxh])
qed

section \<open>Writing pages into a buffer\<close>

text \<open>\<open>put_pages\<close> copies the pages at the given indices of one snapshot into a buffer.\<close>

definition put_pages :: "nat \<Rightarrow> u8 list \<Rightarrow> nat list \<Rightarrow> u8 list \<Rightarrow> u8 list" where
  "put_pages ps bs is buf = fold (\<lambda>i. copy_at (i * ps) (page ps i bs)) is buf"

lemma page_bounds:
  assumes "0 < ps" "i < page_count ps bs"
  shows "length (page ps i bs) = min (Suc i * ps) (length bs) - i * ps" "i * ps + length (page ps i bs) \<le> length bs"
  using assms page_count_less [OF assms(1), of i bs] by (auto simp: page_def length_slice_of)

lemma nth_page:
  "i * ps \<le> j \<Longrightarrow> j < i * ps + length (page ps i bs) \<Longrightarrow> page ps i bs ! (j - i * ps) = bs ! j"
  by (simp add: page_def slice_of_def)

lemma page_index:
  assumes "0 < ps" "i < page_count ps bs" "j < length bs"
  shows "i * ps \<le> j \<and> j < i * ps + length (page ps i bs) \<longleftrightarrow> j div ps = i"
proof -
  have "i * ps \<le> j \<and> j < i * ps + length (page ps i bs) \<longleftrightarrow> i * ps \<le> j \<and> j < Suc i * ps"
    using page_bounds(1) [OF assms(1,2)] assms(2,3) page_count_less [OF assms(1), of i bs] by auto
  also have "\<dots> \<longleftrightarrow> j div ps = i"
    using assms(1) dividend_less_times_div [of ps j] div_times_less_eq_dividend [of j ps]
    by (auto simp: mult.commute intro: div_nat_eqI)
  finally show ?thesis .
qed

lemma put_pages_nth:
  assumes "0 < ps" "\<forall>i \<in> set is. i < page_count ps bs" "length buf = length bs"
  shows "length (put_pages ps bs is buf) = length bs \<and>
    (\<forall>j < length bs. put_pages ps bs is buf ! j = (if j div ps \<in> set is then bs ! j else buf ! j))"
  using assms(2,3)
proof (induction "is" arbitrary: buf)
  case (Cons i "is")
  let ?buf = "copy_at (i * ps) (page ps i bs) buf"
  have i: "i < page_count ps bs" using Cons.prems by simp
  have b: "i * ps + length (page ps i bs) \<le> length buf"
    using page_bounds(2) [OF assms(1) i] Cons.prems by simp
  then have len: "length ?buf = length bs" using Cons.prems by (simp add: length_copy_at)
  have "?buf ! j = (if j div ps = i then bs ! j else buf ! j)" if "j < length bs" for j
    using that b Cons.prems page_index [OF assms(1) i that] nth_page [of i ps j bs] by (auto simp: nth_copy_at)
  with Cons.IH [OF _ len] Cons.prems show ?case by (simp add: put_pages_def)
qed (simp add: put_pages_def)

text \<open>All pages of a snapshot, written into a buffer of its size, are the snapshot.\<close>

lemma put_all_pages:
  assumes "0 < ps" "length buf = length bs"
  shows "put_pages ps bs [0..<page_count ps bs] buf = bs"
proof (rule nth_equalityI)
  note p = put_pages_nth [of ps "[0..<page_count ps bs]" bs buf]
  show "length (put_pages ps bs [0..<page_count ps bs] buf) = length bs" using p assms by simp
  fix j assume "j < length (put_pages ps bs [0..<page_count ps bs] buf)"
  then have j: "j < length bs" using p assms by simp
  moreover have "j div ps < page_count ps bs"
    using assms(1) j page_count_less [OF assms(1), of "j div ps" bs] div_times_less_eq_dividend order_le_less_trans by blast
  ultimately show "put_pages ps bs [0..<page_count ps bs] buf ! j = bs ! j" using p assms by simp
qed

text \<open>The pages the detector reports are enough: written into the old snapshot, they give the new
  one, provided the hash tells apart the pages that differ.\<close>

lemma put_changed_pages:
  assumes "0 < ps" "length old = length new"
    and "\<And>i. xxh (page ps i new) = xxh (page ps i old) \<Longrightarrow> page ps i new = page ps i old"
  shows "put_pages ps new (filter (changed xxh ps (Some old) new) [0..<page_count ps new]) old = new"
    (is "put_pages ps new ?is old = new")
proof (rule nth_equalityI)
  have p: "length (put_pages ps new ?is old) = length new \<and> (\<forall>j < length new.
      put_pages ps new ?is old ! j = (if j div ps \<in> set ?is then new ! j else old ! j))"
    using assms by (intro put_pages_nth) auto
  then show "length (put_pages ps new ?is old) = length new" by simp
  fix j assume "j < length (put_pages ps new ?is old)"
  with p have j: "j < length new" by simp
  then have i: "j div ps < page_count ps new" (is "?i < _")
    using page_count_less [OF assms(1), of "j div ps" new] div_times_less_eq_dividend order_le_less_trans by blast
  have "new ! j = old ! j" if "?i \<notin> set ?is"
  proof -
    have "page_count ps old = page_count ps new" using assms(2) by (simp add: page_count_def)
    with that i have "page ps ?i new = page ps ?i old" using assms(3) by (simp add: changed_def)
    moreover have "?i * ps \<le> j \<and> j < ?i * ps + length (page ps ?i new)"
      using page_index [OF assms(1) i j] by simp
    ultimately show ?thesis using nth_page [of ?i ps j new] nth_page [of ?i ps j old] by simp
  qed
  with p j show "put_pages ps new ?is old ! j = new ! j" by simp
qed

end
