(* ===== verification/Transmitter.thy ===== *)
theory Transmitter
  imports Wire Delta Kernel
begin

text \<open>
  The sending side: \<open>wraith-go/pkg/transport/client.go\<close> and \<open>cmd/transmitter/main.go\<close>. An
  error of \<open>SendSnapshot\<close> comes with the statistics gathered so far, as in the code. Logging,
  waiting between retries and deadlines are left out; a panic of the runtime is an error.
\<close>

section \<open>SendSnapshot\<close>

text \<open>Go's \<open>int\<close> has 64 bits on the architecture the programs are for; it is read with \<open>sint\<close>.\<close>

type_synonym i64 = "64 word"

record transfer_options =
  to_hostname :: string
  to_pid :: u32
  to_version :: string
  to_max_retries :: i64

record 'f transfer_stats =
  ts_total_pages :: nat
  ts_total_bytes :: u64
  ts_pages_sent :: nat
  ts_bytes_sent :: u64
  ts_reduction :: 'f

datatype tx_error =
    SendHandshake frame_error
  | ReadReadyAck frame_error
  | DecodeReadyAck
  | RejectedTransfer string
  | SendBlock nat frame_error
  | SendComplete frame_error
  | TxPanic

lemma sint_next:
  fixes a m :: i64
  assumes "sint a < sint m"
  shows "sint (a + 1) = sint a + 1"
proof -
  have "- (2 ^ 63) \<le> sint a" "sint m < 2 ^ 63"
    using sint_ge [of a] sint_lt [of m] by simp_all
  with assms show ?thesis by (simp add: sint_word_ariths signed_take_bit_int_eq_self)
qed

lemma sint_wrap: "sint (m :: i64) = 2 ^ 63 - 1 \<Longrightarrow> sint (m + 1) = - (2 ^ 63)"
proof -
  assume "sint m = 2 ^ 63 - 1"
  then have "m = 2 ^ 63 - 1" by (intro signed_word_eqI) simp
  then show ?thesis by simp
qed

text \<open>The attempts that are left for a bound \<open>m\<close> and a counter \<open>a\<close>: with the largest \<open>int\<close> as bound
  the counter wraps, and there is one more.\<close>

definition attempts_left :: "i64 \<Rightarrow> i64 \<Rightarrow> nat" where
  "attempts_left m a = (if sint m < sint a then 0 else if sint a < 0 then 1
     else nat (sint m - sint a) + (if sint m = 2 ^ 63 - 1 then 2 else 1))"

lemma attempts_left_next:
  assumes "sint a \<le> sint m" "\<not> (sint a < sint m \<and> sint a < 0)"
  shows "attempts_left m (a + 1) < attempts_left m a"
proof (cases "sint a < sint m")
  case True
  with assms sint_next [OF True] show ?thesis by (auto simp: attempts_left_def)
next
  case False
  with assms(1) have a: "a = m" by (intro signed_word_eqI) simp
  show ?thesis
  proof (cases "sint m = 2 ^ 63 - 1")
    case True
    with a show ?thesis by (simp add: attempts_left_def sint_wrap [OF True])
  next
    case False
    then have "sint m < sint (2 ^ 63 - 1 :: i64)" using sint_lt [of m] by simp
    from sint_next [OF this] a show ?thesis by (simp add: attempts_left_def)
  qed
qed

text \<open>The loop of \<open>sendBlockWithRetry\<close>: the counter \<open>attempt\<close>, an \<open>int\<close> of 64 bits that wraps, and
  the error of the last attempt. Before another attempt the code waits for
  \<open>100*(1<<attempt)\<close> milliseconds, and a shift by a negative count is a panic: so the loop ends,
  even where the largest \<open>int\<close> as bound makes its condition always true.\<close>

function retry_block ::
    "i64 \<Rightarrow> i64 \<Rightarrow> frame_error option \<Rightarrow> data_block \<Rightarrow> (conn, frame_error, unit) act" where
  "retry_block max_retries attempt last_err b c =
     (if sint attempt \<le> sint max_retries
      then (case write_block b c of
          (Inr _, d) \<Rightarrow> ok_act () d
        | (Inl e, d) \<Rightarrow>
            if sint attempt < sint max_retries \<and> sint attempt < 0 then fail_act BlockPanic d
            else retry_block max_retries (attempt + 1) (Some e) b d)
      else (case last_err of None \<Rightarrow> ok_act () c | Some e \<Rightarrow> fail_act e c))"
  by pat_completeness auto
termination
proof (relation "measure (\<lambda>(m, a, l, b, c). attempts_left m a)", goal_cases)
  case (2 m a l b c x d e)
  then show ?case by (auto intro: attempts_left_next)
qed simp

declare retry_block.simps [simp del]

definition send_block_with_retry :: "data_block \<Rightarrow> i64 \<Rightarrow> (conn, frame_error, unit) act" where
  "send_block_with_retry b max_retries = retry_block max_retries 0 None b"

definition page_at :: "u8 list \<Rightarrow> nat \<Rightarrow> u8 list" where
  "page_at bs pos = slice_of pos (min (pos + PageSize) (length bs)) bs"

definition block_at :: "(u8 list \<Rightarrow> u64) \<Rightarrow> u8 list \<Rightarrow> nat \<Rightarrow> data_block" where
  "block_at xxh bs pos =
     \<lparr>db_offset = of_nat pos, db_checksum = hash_page xxh (page_at bs pos), db_data = page_at bs pos\<rparr>"

fun send_blocks ::
    "(u8 list \<Rightarrow> u64) \<Rightarrow> u8 list \<Rightarrow> i64 \<Rightarrow> nat list \<Rightarrow> 'f transfer_stats \<Rightarrow>
     (conn, 'f transfer_stats \<times> tx_error, 'f transfer_stats) act" where
  "send_blocks xxh bs max_retries [] stats = ok_act stats"
| "send_blocks xxh bs max_retries (pos # rest) stats =
     try_act (send_block_with_retry (block_at xxh bs pos) max_retries) 
       (\<lambda>e. (stats, if e = BlockPanic then TxPanic else SendBlock pos e)) (\<lambda>_.
     send_blocks xxh bs max_retries rest
       (stats\<lparr>ts_pages_sent := ts_pages_sent stats + 1,
          ts_bytes_sent := ts_bytes_sent stats + of_nat (length (page_at bs pos))\<rparr>))"

definition handshake_of :: "u8 list \<Rightarrow> transfer_options \<Rightarrow> handshake" where
  "handshake_of bs opts =
     \<lparr>hs_hostname = to_hostname opts, hs_pid = to_pid opts, hs_arch = ''x86_64'',
      hs_total = of_nat (length bs), hs_pages = of_nat ((length bs + PageSize - 1) div PageSize),
      hs_version = to_version opts\<rparr>"

definition start_stats :: "'f floats \<Rightarrow> u8 list \<Rightarrow> 'f transfer_stats" where
  "start_stats F bs =
     \<lparr>ts_total_pages = unat (of_nat ((length bs + PageSize - 1) div PageSize) :: u32),
      ts_total_bytes = of_nat (length bs), ts_pages_sent = 0, ts_bytes_sent = 0, ts_reduction = fl_zero F\<rparr>"

definition finish_stats :: "'f floats \<Rightarrow> 'f transfer_stats \<Rightarrow> 'f transfer_stats" where
  "finish_stats F stats =
     (if ts_total_bytes stats > 0
      then stats\<lparr>ts_reduction := fl_saved F (unat (ts_bytes_sent stats)) (unat (ts_total_bytes stats))\<rparr>
      else stats)"

definition send_snapshot ::
    "'f floats \<Rightarrow> (u8 list \<Rightarrow> u64) \<Rightarrow> u8 list \<Rightarrow> transfer_options \<Rightarrow>
     (conn, 'f transfer_stats \<times> tx_error, 'f transfer_stats) act" where
  "send_snapshot F xxh bs opts = (let stats = start_stats F bs in
     try_act (write_json MsgHandshake (handshake_json (handshake_of bs opts))) (\<lambda>e. (stats, SendHandshake e)) (\<lambda>_.
     try_act read_frame (\<lambda>e. (stats, ReadReadyAck e)) (\<lambda>f.
     case decode_ready_ack (fr_payload f) of (ack, ok) \<Rightarrow>
       if \<not> ok then fail_act (stats, DecodeReadyAck)
       else if \<not> ra_accepted ack then fail_act (stats, RejectedTransfer (ra_reason ack))
       else (case dirty_offsets xxh new_detector bs PageSize of
           None \<Rightarrow> fail_act (stats, TxPanic)
         | Some (offsets, _) \<Rightarrow>
             bind_act (send_blocks xxh bs (to_max_retries opts) offsets stats) (\<lambda>stats.
             try_act (frame_write_to \<lparr>fr_type = MsgComplete, fr_payload = []\<rparr>) (\<lambda>e. (stats, SendComplete e)) (\<lambda>_.
             ok_act (finish_stats F stats)))))))"

section \<open>wraith-transmitter\<close>

definition transfer_report :: "'f floats \<Rightarrow> 'f transfer_stats \<Rightarrow> string list" where
  "transfer_report F stats = [
     [], ''Transfer complete:'',
     ''  pages sent  : '' @ show_nat (ts_pages_sent stats) @ '' / '' @ show_nat (ts_total_pages stats),
     ''  bytes sent  : '' @ show_nat (unat (ts_bytes_sent stats div 1024 div 1024)) @ '' MB'',
     ''  reduction   : '' @ fl_percent F (ts_reduction stats) @ ''%'']"

text \<open>The exit status and the printed lines, and the connection if there was one. The flag
  \<open>--snapshot\<close> is required; \<open>dialled\<close> is the outcome of \<open>net.DialTimeout\<close>, \<open>pid\<close> a flag of 64 bits
  of which the handshake takes 32.\<close>

definition transmitter_main ::
    "'k kernel \<Rightarrow> 'f floats \<Rightarrow> (u8 list \<Rightarrow> u64) \<Rightarrow> string \<Rightarrow> string \<Rightarrow> u64 \<Rightarrow> string \<Rightarrow> i64 \<Rightarrow>
     io_error + conn \<Rightarrow> 'k \<Rightarrow> (nat \<times> string list) \<times> conn option" where
  "transmitter_main K F xxh hostname path pid version retries dialled s =
     (if path = [] then ((1, []), None)
      else case k_read_file K path s of
          Inl _ \<Rightarrow> ((1, []), None)
        | Inr bs \<Rightarrow> (case dialled of
            Inl _ \<Rightarrow> ((1, []), None)
          | Inr c \<Rightarrow> (case send_snapshot F xxh bs \<lparr>to_hostname = hostname, to_pid = ucast pid,
                 to_version = version, to_max_retries = retries\<rparr> c of
              (Inl (_, e), d) \<Rightarrow> ((if e = TxPanic then 2 else 1, []), Some d)
            | (Inr stats, d) \<Rightarrow> ((0, transfer_report F stats), Some d))))"

end
