(* ===== verification/Receiver.thy ===== *)
theory Receiver
  imports Wire Delta Kernel
begin

text \<open>
  The receiving side: \<open>wraith-go/pkg/transport/server.go\<close> and \<open>cmd/receiver/main.go\<close>. A slice
  whose bounds are out of order or beyond the capacity of the buffer is the panic \<open>RxPanic\<close>.
\<close>

section \<open>receiveOne\<close>

datatype rx_error =
    AcceptFailed io_error
  | ReadHandshakeFrame frame_error
  | ExpectedHandshake u32
  | DecodeHandshake
  | IncompatibleArch string
  | ZeroByteSnapshot
  | SendReadyAck frame_error
  | SizeExceedsLimit u64 u64
  | ReadDataFrame frame_error
  | DecodeBlock frame_error
  | BlockOverflows u64 nat u64
  | BlockChecksum u64 u64 u64
  | SenderError string
  | RxPanic

definition max_snapshot_bytes :: u64 where
  "max_snapshot_bytes = push_bit 30 128"

text \<open>The loop over the data frames: the buffer, the count of the bytes written, and the
  connection. It ends because every round reads a frame, which takes at least eight bytes.\<close>

function receive_loop ::
    "(u8 list \<Rightarrow> u64) \<Rightarrow> u64 \<Rightarrow> u8 list \<Rightarrow> u64 \<Rightarrow> (conn, rx_error, u8 list \<times> u64) act" where
  "receive_loop xxh expected buf written c = (case read_frame c of
     (Inl e, d) \<Rightarrow> if e = Bare EOF then (Inr (buf, written), d) else (Inl (ReadDataFrame e), d)
   | (Inr f, d) \<Rightarrow>
       if fr_type f = MsgDataBlock then
         (case read_block (fr_payload f) of
            Inl e \<Rightarrow> (Inl (if e = BlockPanic then RxPanic else DecodeBlock e), d)
          | Inr b \<Rightarrow>
              let stop = db_offset b + of_nat (length (db_data b)); computed = hash_page xxh (db_data b)
              in if stop > expected then (Inl (BlockOverflows (db_offset b) (length (db_data b)) expected), d)
                 else if computed \<noteq> db_checksum b
                   then (Inl (BlockChecksum (db_offset b) (db_checksum b) computed), d)
                 else if db_offset b > stop then (Inl RxPanic, d)
                 else receive_loop xxh expected (copy_at (unat (db_offset b)) (db_data b) buf)
                        (written + of_nat (length (db_data b))) d)
       else if fr_type f = MsgComplete then (Inr (buf, written), d)
       else if fr_type f = MsgError
         then (Inl (SenderError (em_message (fst (decode_error_msg (fr_payload f))))), d)
       else receive_loop xxh expected buf written d)"
  by pat_completeness auto
termination
  by (relation "measure (\<lambda>(xxh, expected, buf, written, c). length (c_in c))")
    (auto dest!: read_frame_shorter [OF sym])

declare receive_loop.simps [simp del]

definition accept_json :: string where
  "accept_json = ready_ack_json \<lparr>ra_accepted = True, ra_reason = []\<rparr>"

definition reject_json :: "string \<Rightarrow> string" where
  "reject_json reason = ready_ack_json \<lparr>ra_accepted = False, ra_reason = reason\<rparr>"

text \<open>An error comes with the handshake, once it has been decoded.\<close>

definition receive_one ::
    "(u8 list \<Rightarrow> u64) \<Rightarrow> (conn, rx_error \<times> handshake option, u8 list \<times> handshake) act" where
  "receive_one xxh =
     try_act read_frame (\<lambda>e. (ReadHandshakeFrame e, None)) (\<lambda>f.
     if fr_type f \<noteq> MsgHandshake then fail_act (ExpectedHandshake (fr_type f), None)
     else case decode_handshake (fr_payload f) of (hs, ok) \<Rightarrow>
       if \<not> ok then fail_act (DecodeHandshake, None)
       else if hs_arch hs \<noteq> ''x86_64'' then
         ignore_act (write_json MsgReadyAck (reject_json (''unsupported arch: '' @ hs_arch hs)))
           (fail_act (IncompatibleArch (hs_arch hs), Some hs))
       else if hs_total hs = 0 then
         ignore_act (write_json MsgReadyAck (reject_json ''empty snapshot''))
           (fail_act (ZeroByteSnapshot, Some hs))
       else
         try_act (write_json MsgReadyAck accept_json) (\<lambda>e. (SendReadyAck e, Some hs)) (\<lambda>_.
         if hs_total hs > max_snapshot_bytes
         then fail_act (SizeExceedsLimit (hs_total hs) max_snapshot_bytes, Some hs)
         else
           try_act (receive_loop xxh (hs_total hs) (replicate (unat (hs_total hs)) 0) 0) (\<lambda>e. (e, Some hs))
             (\<lambda>(buf, written).
           if unat written > length buf then fail_act (RxPanic, Some hs)
           else ok_act (take (unat written) buf, hs))))"

section \<open>AcceptSnapshot and wraith-receiver\<close>

text \<open>\<open>incoming\<close> is the outcome of \<open>listener.Accept\<close>; the connection is closed at the end.\<close>

definition accept_snapshot ::
    "(u8 list \<Rightarrow> u64) \<Rightarrow> io_error + conn \<Rightarrow>
     (rx_error \<times> handshake option + u8 list \<times> handshake) \<times> conn option" where
  "accept_snapshot xxh incoming = (case incoming of
     Inl e \<Rightarrow> (Inl (AcceptFailed e, None), None)
   | Inr c \<Rightarrow> (case receive_one xxh c of (r, d) \<Rightarrow> (r, Some d)))"

definition receive_report :: "string \<Rightarrow> u8 list \<Rightarrow> handshake \<Rightarrow> string list" where
  "receive_report path bs hs = [
     [], ''Snapshot received:'',
     ''  source     : '' @ hs_hostname hs @ '' (PID '' @ show_nat (unat (hs_pid hs)) @ '')'',
     ''  arch       : '' @ hs_arch hs,
     ''  size       : '' @ show_nat (length bs) @ '' bytes ('' @ show_nat (length bs div 1024 div 1024) @ '' MB)'',
     ''  version    : '' @ hs_version hs,
     ''  saved to   : '' @ path]"

text \<open>The exit status and the printed lines: a fatal error is 1, a panic 2.\<close>

definition receiver_main ::
    "'k kernel \<Rightarrow> (u8 list \<Rightarrow> u64) \<Rightarrow> string \<Rightarrow> io_error + unit \<Rightarrow> io_error + conn \<Rightarrow> 'k \<Rightarrow>
     ((nat \<times> string list) \<times> conn option) \<times> 'k" where
  "receiver_main K xxh path listening incoming s = (case listening of
     Inl _ \<Rightarrow> (((1, []), None), s)
   | Inr _ \<Rightarrow> (case accept_snapshot xxh incoming of
       (Inl (e, _), d) \<Rightarrow> (((if e = RxPanic then 2 else 1, []), d), s)
     | (Inr (bs, hs), d) \<Rightarrow> (case k_write_file K path bs s of
         (Inl _, t) \<Rightarrow> (((1, []), d), t)
       | (Inr _, t) \<Rightarrow> (((0, receive_report path bs hs), d), t))))"

end
