(* ===== verification/Transport.thy ===== *)
theory Transport
  imports Transmitter Receiver
begin

text \<open>
  The two ends of a transfer together. Each end is a function from the bytes that arrive to its
  result and the bytes it sends; joined by two streams they form a network whose behaviour is
  the limit of the rounds in which the ends answer what the other has sent so far. The streams
  of this protocol are complete after two rounds, and more rounds change nothing.
\<close>

section \<open>Two ends joined by streams\<close>

fun streams :: "nat \<Rightarrow> (u8 list \<Rightarrow> u8 list) \<Rightarrow> (u8 list \<Rightarrow> u8 list) \<Rightarrow> u8 list \<times> u8 list" where
  "streams 0 f g = ([], [])"
| "streams (Suc n) f g = (let a = f (snd (streams n f g)) in (a, g a))"

definition exchange ::
    "nat \<Rightarrow> (u8 list \<Rightarrow> 'x \<times> u8 list) \<Rightarrow> (u8 list \<Rightarrow> 'y \<times> u8 list) \<Rightarrow> 'x \<times> 'y" where
  "exchange n f g = (let (a, b) = streams n (snd \<circ> f) (snd \<circ> g) in (fst (f b), fst (g a)))"

lemma streams_settle:
  assumes "f [] = h" "g h = a" "f a = s" "g s = a"
  shows "streams (Suc (Suc n)) f g = (s, a)"
  using assms by (induction n) (simp_all add: Let_def)

definition wire :: "u8 list \<Rightarrow> (nat \<times> io_error) option list \<Rightarrow> conn" where
  "wire b fs = \<lparr>c_in = b, c_end = EOF, c_out = [], c_faults = fs\<rparr>"

definition sending_end ::
    "'f floats \<Rightarrow> (u8 list \<Rightarrow> u64) \<Rightarrow> u8 list \<Rightarrow> transfer_options \<Rightarrow> (nat \<times> io_error) option list \<Rightarrow>
     u8 list \<Rightarrow> ('f transfer_stats \<times> tx_error + 'f transfer_stats) \<times> u8 list" where
  "sending_end F xxh bs opts fs b = (let (r, c) = send_snapshot F xxh bs opts (wire b fs) in (r, c_out c))"

definition receiving_end ::
    "(u8 list \<Rightarrow> u64) \<Rightarrow> u8 list \<Rightarrow> (rx_error \<times> handshake option + u8 list \<times> handshake) \<times> u8 list" where
  "receiving_end xxh a = (let (r, c) = receive_one xxh (wire a []) in (r, c_out c))"

text \<open>The two programs as ends: what they print and exit with, and the system the receiver leaves.\<close>

definition conn_out :: "conn option \<Rightarrow> u8 list" where
  "conn_out oc = (case oc of None \<Rightarrow> [] | Some c \<Rightarrow> c_out c)"

definition transmitter_end ::
    "'k kernel \<Rightarrow> 'f floats \<Rightarrow> (u8 list \<Rightarrow> u64) \<Rightarrow> string \<Rightarrow> string \<Rightarrow> u64 \<Rightarrow> string \<Rightarrow> i64 \<Rightarrow> 'k \<Rightarrow>
     (nat \<times> io_error) option list \<Rightarrow> u8 list \<Rightarrow> (nat \<times> string list) \<times> u8 list" where
  "transmitter_end K F xxh hostname path pid version retries s fs b =
     (let (r, oc) = transmitter_main K F xxh hostname path pid version retries (Inr (wire b fs)) s
      in (r, conn_out oc))"

definition receiver_end ::
    "'k kernel \<Rightarrow> (u8 list \<Rightarrow> u64) \<Rightarrow> string \<Rightarrow> 'k \<Rightarrow> u8 list \<Rightarrow> ((nat \<times> string list) \<times> 'k) \<times> u8 list" where
  "receiver_end K xxh path d a =
     (let ((r, oc), d') = receiver_main K xxh path (Inr ()) (Inr (wire a [])) d in ((r, d'), conn_out oc))"

lemma streams_cong: "(\<And>b. f b = f' b) \<Longrightarrow> (\<And>a. g a = g' a) \<Longrightarrow> streams n f g = streams n f' g'"
  by (induction n) simp_all

lemma exchange_map:
  assumes "\<And>b. f' b = (\<phi> (fst (f b)), snd (f b))" "\<And>a. g' a = (\<psi> (fst (g a)), snd (g a))"
  shows "exchange n f' g' = (\<phi> (fst (exchange n f g)), \<psi> (snd (exchange n f g)))"
proof -
  have "streams n (snd \<circ> f') (snd \<circ> g') = streams n (snd \<circ> f) (snd \<circ> g)"
    by (rule streams_cong) (simp_all add: assms)
  then show ?thesis by (simp add: exchange_def assms case_prod_unfold Let_def)
qed

lemma wire_simps [simp]:
  "c_in (wire b fs) = b" "c_end (wire b fs) = EOF" "c_out (wire b fs) = []" "c_faults (wire b fs) = fs"
  by (simp_all add: wire_def)

section \<open>The sending end\<close>

definition handshake_bytes :: "handshake \<Rightarrow> u8 list" where
  "handshake_bytes h = frame_bytes \<lparr>fr_type = MsgHandshake, fr_payload = to_bytes (handshake_json h)\<rparr>"

definition accept_bytes :: "u8 list" where
  "accept_bytes = frame_bytes \<lparr>fr_type = MsgReadyAck, fr_payload = to_bytes accept_json\<rparr>"

definition complete_bytes :: "u8 list" where
  "complete_bytes = frame_bytes \<lparr>fr_type = MsgComplete, fr_payload = []\<rparr>"

definition page_bytes :: "(u8 list \<Rightarrow> u64) \<Rightarrow> u8 list \<Rightarrow> nat \<Rightarrow> u8 list" where
  "page_bytes xxh bs i = frame_bytes (block_frame (block_at xxh bs (i * PageSize)))"

definition pages_bytes :: "(u8 list \<Rightarrow> u64) \<Rightarrow> u8 list \<Rightarrow> nat list \<Rightarrow> u8 list" where
  "pages_bytes xxh bs is = concat (map (page_bytes xxh bs) is)"

lemma PageSize_pos: "0 < PageSize"
  by (simp add: PageSize_def)

lemma page_at_page: "page_at bs (i * PageSize) = page PageSize i bs"
  by (simp add: page_at_def page_def add.commute)

lemma page_at_length: "length (page_at bs pos) \<le> PageSize"
  by (simp add: page_at_def slice_of_def)

lemma block_at_fits: "block_fits (block_at xxh bs pos)"
  using page_at_length [of bs pos] by (simp add: block_fits_def block_at_def PageSize_def)

text \<open>Attempts that send nothing are repeated until one goes through.\<close>

lemma retry_block_clean:
  "c_faults c = replicate k (Some (0, e)) \<Longrightarrow> 0 \<le> sint a \<Longrightarrow> sint a + int k \<le> sint m \<Longrightarrow>
   retry_block m a l b c = (Inr (), c\<lparr>c_out := c_out c @ frame_bytes (block_frame b), c_faults := []\<rparr>)"
proof (induction k arbitrary: a l c)
  case 0
  then show ?case by (subst retry_block.simps) (simp add: blocks.put_ok act_simps)
next
  case (Suc k)
  let ?d = "c\<lparr>c_faults := replicate k (Some (0, e))\<rparr>"
  from Suc.prems have "sint a < sint m" by simp
  note next_a = sint_next [OF this]
  have w: "write_block b c = (Inl (WriteFrameType e), ?d)"
    using Suc.prems by (simp add: write_block_def frame_write_to_def try_act_def conn_write_def)
  have "retry_block m (a + 1) (Some (WriteFrameType e)) b ?d =
      (Inr (), ?d\<lparr>c_out := c_out ?d @ frame_bytes (block_frame b), c_faults := []\<rparr>)"
    using Suc.prems next_a by (intro Suc.IH) simp_all
  with Suc.prems w show ?case by (subst retry_block.simps) simp
qed

lemma send_block_clean:
  assumes "c_faults c = replicate k (Some (0, e))" "int k \<le> sint max_retries"
  shows "send_block_with_retry b max_retries c =
     (Inr (), c\<lparr>c_out := c_out c @ frame_bytes (block_frame b), c_faults := []\<rparr>)"
  unfolding send_block_with_retry_def using assms by (intro retry_block_clean) auto

definition sent :: "u8 list \<Rightarrow> nat list \<Rightarrow> 'f transfer_stats \<Rightarrow> 'f transfer_stats" where
  "sent bs ps stats = stats\<lparr>ts_pages_sent := ts_pages_sent stats + length ps,
     ts_bytes_sent := ts_bytes_sent stats + of_nat (sum_list (map (\<lambda>p. length (page_at bs p)) ps))\<rparr>"

lemma send_blocks_clean:
  "c_faults c = replicate k (Some (0, e)) \<Longrightarrow> int k \<le> sint max_retries \<Longrightarrow> ps \<noteq> [] \<or> k = 0 \<Longrightarrow>
   send_blocks xxh bs max_retries ps stats c = (Inr (sent bs ps stats),
     c\<lparr>c_out := c_out c @ concat (map (\<lambda>p. frame_bytes (block_frame (block_at xxh bs p))) ps), c_faults := []\<rparr>)"
proof (induction ps arbitrary: c stats k)
  case (Cons p ps)
  let ?c = "c\<lparr>c_out := c_out c @ frame_bytes (block_frame (block_at xxh bs p)), c_faults := []\<rparr>"
  have "send_block_with_retry (block_at xxh bs p) max_retries c = (Inr (), ?c)"
    using Cons.prems by (intro send_block_clean)
  with Cons.IH [of ?c 0] Cons.prems show ?case by (simp add: act_simps sent_def)
qed (simp add: act_simps sent_def)

lemma write_frame_none:
  "c_faults c = None # None # None # fs \<Longrightarrow> fr_payload f \<noteq> [] \<Longrightarrow>
   frame_write_to f c = (Inr (), c\<lparr>c_out := c_out c @ frame_bytes f, c_faults := fs\<rparr>)"
  by (simp add: frame_write_to_def frame_bytes_def try_act_def conn_write_def ok_act_def)

definition full_stats :: "'f floats \<Rightarrow> u8 list \<Rightarrow> 'f transfer_stats" where
  "full_stats F bs = finish_stats F (sent bs (map (\<lambda>i. i * PageSize) [0..<page_count PageSize bs]) (start_stats F bs))"

text \<open>The reply that lets the transfer begin; the sender looks at its payload only.\<close>

definition accepting :: "frame \<Rightarrow> bool" where
  "accepting f \<longleftrightarrow> snd (decode_ready_ack (fr_payload f)) \<and> ra_accepted (fst (decode_ready_ack (fr_payload f)))"

lemma handshake_json_nonempty: "handshake_json h \<noteq> []"
  by (simp add: handshake_json_def json_object_def)

lemma to_bytes_nonempty: "to_bytes s \<noteq> [] \<longleftrightarrow> s \<noteq> []"
  by (simp add: to_bytes_def)

lemma handshake_sent:
  "write_json MsgHandshake (handshake_json h) (wire b (None # None # None # fs)) =
     (Inr (), (wire b fs)\<lparr>c_out := handshake_bytes h\<rparr>)"
proof -
  let ?f = "\<lparr>fr_type = MsgHandshake, fr_payload = to_bytes (handshake_json h)\<rparr>"
  have "frame_write_to ?f (wire b (None # None # None # fs)) =
      (Inr (), (wire b (None # None # None # fs))\<lparr>c_out := [] @ frame_bytes ?f, c_faults := fs\<rparr>)"
    using write_frame_none [of "wire b (None # None # None # fs)" fs ?f] handshake_json_nonempty [of h]
    by (simp add: to_bytes_nonempty)
  then show ?thesis by (simp add: write_json_def handshake_bytes_def wire_def)
qed

lemma sending_end_silent:
  "snd (sending_end F xxh bs opts (None # None # None # fs) []) = handshake_bytes (handshake_of bs opts)"
  by (simp add: sending_end_def send_snapshot_def Let_def try_act_def handshake_sent read_frame_def read_full_def)

text \<open>The whole stream of an accepted transfer: \<open>pre\<close> is what failed attempts at the first block
  have left in it, whatever the faults \<open>fs\<close> of these attempts are.\<close>

lemma sending_end_first:
  assumes "bs \<noteq> []" "length bs < 2 ^ 64" "accepting f" "frame_fits f" "b = frame_bytes f @ r"
    and first: "\<And>c. c_faults c = fs \<Longrightarrow> send_block_with_retry (block_at xxh bs 0) (to_max_retries opts) c =
      (Inr (), c\<lparr>c_out := c_out c @ pre @ frame_bytes (block_frame (block_at xxh bs 0)), c_faults := []\<rparr>)"
    and "0 \<le> sint (to_max_retries opts)"
  shows "sending_end F xxh bs opts ([None, None, None] @ fs) b = (Inr (full_stats F bs),
     handshake_bytes (handshake_of bs opts) @ pre @ pages_bytes xxh bs [0..<page_count PageSize bs] @ complete_bytes)"
proof -
  let ?n = "page_count PageSize bs" and ?h = "handshake_of bs opts" and ?s = "start_stats F bs"
  let ?ps = "map (\<lambda>i. i * PageSize) [0..<?n]" and ?qs = "map (\<lambda>i. i * PageSize) [1..<?n]"
  let ?c1 = "(wire b fs)\<lparr>c_out := handshake_bytes ?h\<rparr>" and ?c2 = "(wire r fs)\<lparr>c_out := handshake_bytes ?h\<rparr>"
  let ?c3 = "(wire r [])\<lparr>c_out := handshake_bytes ?h @ pre @ frame_bytes (block_frame (block_at xxh bs 0))\<rparr>"
  let ?c4 = "(wire r [])\<lparr>c_out := handshake_bytes ?h @ pre @ pages_bytes xxh bs [0..<?n]\<rparr>"
  have w: "write_json MsgHandshake (handshake_json ?h) (wire b ([None, None, None] @ fs)) = (Inr (), ?c1)"
    by (simp add: handshake_sent)
  have rd: "read_frame ?c1 = (Inr f, ?c2)"
    using frames.get_ok [OF assms(4), of ?c1 r] assms(5) by (simp add: wire_def)
  obtain ack where ack: "decode_ready_ack (fr_payload f) = (ack, True)" "ra_accepted ack"
    using assms(3) by (cases "decode_ready_ack (fr_payload f)") (auto simp: accepting_def)
  have d: "\<exists>det. dirty_offsets xxh new_detector bs PageSize = Some (?ps, det)"
    using first_call_all [OF PageSize_pos assms(2)] by blast
  have "0 < ?n"
    using assms(1) by (simp add: page_count_less [OF PageSize_pos])
  then have ps: "[0..<?n] = 0 # [1..<?n]" by (simp add: upt_conv_Cons)
  have "send_block_with_retry (block_at xxh bs 0) (to_max_retries opts) ?c2 = (Inr (), ?c3)"
    using first [of ?c2] by (simp add: wire_def)
  moreover have "send_blocks xxh bs (to_max_retries opts) ?qs (sent bs [0] ?s) ?c3 =
      (Inr (sent bs ?qs (sent bs [0] ?s)), ?c4)"
    using send_blocks_clean [of ?c3 0 EOF "to_max_retries opts" ?qs xxh bs "sent bs [0] ?s"] assms(7) ps
    by (simp add: wire_def pages_bytes_def page_bytes_def [abs_def] comp_def)
  ultimately have bl: "send_blocks xxh bs (to_max_retries opts) ?ps ?s ?c2 = (Inr (sent bs ?ps ?s), ?c4)"
    by (simp add: ps act_simps sent_def add.assoc)
  have fin: "frame_write_to \<lparr>fr_type = MsgComplete, fr_payload = []\<rparr> ?c4 =
      (Inr (), ?c4\<lparr>c_out := c_out ?c4 @ complete_bytes\<rparr>)"
    by (subst frames.put_ok) (simp_all add: complete_bytes_def)
  have "send_snapshot F xxh bs opts (wire b ([None, None, None] @ fs)) =
      (Inr (full_stats F bs), ?c4\<lparr>c_out := c_out ?c4 @ complete_bytes\<rparr>)"
    using d by (auto simp: send_snapshot_def Let_def act_simps w [simplified] rd ack bl fin full_stats_def)
  then show ?thesis by (simp add: sending_end_def)
qed

lemma sending_end_accepted:
  assumes "bs \<noteq> []" "length bs < 2 ^ 64" "accepting f" "frame_fits f" "b = frame_bytes f @ r"
    and "int k \<le> sint (to_max_retries opts)"
  shows "sending_end F xxh bs opts ([None, None, None] @ replicate k (Some (0, e))) b = (Inr (full_stats F bs),
     handshake_bytes (handshake_of bs opts) @ pages_bytes xxh bs [0..<page_count PageSize bs] @ complete_bytes)"
  using sending_end_first [OF assms(1-5), of "replicate k (Some (0, e))" xxh opts "[]"]
    send_block_clean [of _ k e "to_max_retries opts"] assms(6) by simp

section \<open>The receiving end\<close>

lemma receive_loop_out: "c_out (snd (receive_loop xxh n buf w c)) = c_out c"
proof (induction xxh n buf w c rule: receive_loop.induct)
  case (1 xxh n buf w c)
  obtain x d where rd: "read_frame c = (x, d)" by fastforce
  then have out: "c_out d = c_out c" using keepsD [OF keeps_read_frame(1)] by blast
  show ?case
  proof (cases x)
    case (Inl e)
    with rd out show ?thesis by (subst receive_loop.simps) simp
  next
    case (Inr f)
    with rd have rd: "read_frame c = (Inr f, d)" by simp
    have skip: "c_out (snd (receive_loop xxh n buf w d)) = c_out d"
      if "fr_type f \<noteq> MsgDataBlock" "fr_type f \<noteq> MsgComplete" "fr_type f \<noteq> MsgError"
      using "1.IH"(2) [OF rd [symmetric]] that by simp
    have block: "c_out (snd (receive_loop xxh n (copy_at (unat (db_offset b)) (db_data b) buf)
        (w + of_nat (length (db_data b))) d)) = c_out d"
      if "fr_type f = MsgDataBlock" "read_block (fr_payload f) = Inr b"
        "\<not> db_offset b + of_nat (length (db_data b)) > n" "hash_page xxh (db_data b) = db_checksum b"
        "\<not> db_offset b > db_offset b + of_nat (length (db_data b))" for b
      using "1.IH"(1) [OF rd [symmetric]] that by simp
    show ?thesis
      using out skip block by (subst receive_loop.simps) (simp add: rd Let_def split: sum.splits)
  qed
qed

text \<open>One round with a good block.\<close>

lemma receive_loop_block:
  assumes "block_fits b" "c_in c = frame_bytes (block_frame b) @ r"
    and "unat (db_offset b) + length (db_data b) \<le> unat n" "db_checksum b = xxh (db_data b)"
  shows "receive_loop xxh n buf w c = receive_loop xxh n (copy_at (unat (db_offset b)) (db_data b) buf)
     (w + of_nat (length (db_data b))) (c\<lparr>c_in := r\<rparr>)"
proof -
  have small: "unat (db_offset b) + length (db_data b) < 2 ^ 64"
    using assms(3) unat_lt2p_word [of n] by simp
  then have "unat (of_nat (length (db_data b)) :: u64) = length (db_data b)" by (simp add: unat_of_nat)
  then have "unat (db_offset b + of_nat (length (db_data b))) = unat (db_offset b) + length (db_data b)"
    using small by (subst word_le_add_unat) simp_all
  then have "\<not> db_offset b + of_nat (length (db_data b)) > n"
    "\<not> db_offset b > db_offset b + of_nat (length (db_data b))"
    using assms(3) by (simp_all add: word_less_nat_alt)
  moreover have "read_frame c = (Inr (block_frame b), c\<lparr>c_in := r\<rparr>)"
    using assms(1,2) by (intro frames.get_ok block_frame_fits)
  moreover have "read_block (block_payload b) = Inr b"
    using assms(1) by (simp add: block_fits_def read_block_payload)
  ultimately show ?thesis
    using assms(4) by (subst receive_loop.simps) (simp add: block_frame_def hash_page_def Let_def)
qed

lemma receive_loop_complete:
  "c_in c = complete_bytes @ r \<Longrightarrow> receive_loop xxh n buf w c = (Inr (buf, w), c\<lparr>c_in := r\<rparr>)"
  using frames.get_ok [of "\<lparr>fr_type = MsgComplete, fr_payload = []\<rparr>" c r]
  by (subst receive_loop.simps)
    (simp add: complete_bytes_def frame_fits_def MsgComplete_def MsgDataBlock_def)

definition pages_size :: "u8 list \<Rightarrow> nat list \<Rightarrow> nat" where
  "pages_size bs is = sum_list (map (\<lambda>i. length (page PageSize i bs)) is)"

lemma receive_loop_pages:
  "\<forall>i \<in> set is. i < page_count PageSize bs \<Longrightarrow> length bs < 2 ^ 64 \<Longrightarrow>
   c_in c = pages_bytes xxh bs is @ complete_bytes @ r \<Longrightarrow>
   receive_loop xxh (of_nat (length bs)) buf w c =
     (Inr (put_pages PageSize bs is buf, w + of_nat (pages_size bs is)), c\<lparr>c_in := r\<rparr>)"
proof (induction "is" arbitrary: buf w c)
  case Nil
  then show ?case
    by (simp add: receive_loop_complete pages_bytes_def put_pages_def pages_size_def)
next
  case (Cons i "is")
  let ?b = "block_at xxh bs (i * PageSize)" and ?r = "pages_bytes xxh bs is @ complete_bytes @ r"
  have i: "i < page_count PageSize bs" using Cons.prems by simp
  then have "i * PageSize < length bs" using page_count_less [OF PageSize_pos] by simp
  then have off: "unat (db_offset ?b) = i * PageSize"
    using Cons.prems(2) by (simp add: block_at_def unat_of_nat del: of_nat_mult)
  have dat: "db_data ?b = page PageSize i bs" by (simp add: block_at_def page_at_page)
  have n: "unat (of_nat (length bs) :: u64) = length bs"
    using Cons.prems(2) by (simp add: unat_of_nat)
  have "receive_loop xxh (of_nat (length bs)) buf w c =
      receive_loop xxh (of_nat (length bs)) (copy_at (i * PageSize) (page PageSize i bs) buf)
        (w + of_nat (length (page PageSize i bs))) (c\<lparr>c_in := ?r\<rparr>)"
    using receive_loop_block [OF block_at_fits, of c xxh bs "i * PageSize" ?r "of_nat (length bs)" xxh buf w]
      Cons.prems(3) page_bounds(2) [OF PageSize_pos i] off dat n
    by (simp add: pages_bytes_def page_bytes_def) (simp add: block_at_def hash_page_def)
  with Cons.IH [of "c\<lparr>c_in := ?r\<rparr>"] Cons.prems(1,2) show ?case
    by (simp add: put_pages_def pages_size_def)
qed

definition decoded :: "handshake \<Rightarrow> handshake" where
  "decoded h = h\<lparr>hs_hostname := to_valid (hs_hostname h), hs_arch := to_valid (hs_arch h),
     hs_version := to_valid (hs_version h)\<rparr>"

lemma accept_fits: "frame_fits \<lparr>fr_type = MsgReadyAck, fr_payload = to_bytes accept_json\<rparr>"
proof -
  have "length accept_json = 17" by code_simp
  then show ?thesis by (simp add: frame_fits_def)
qed

text \<open>A handshake that is accepted: the answer goes out, and the rest of the stream is the loop's.\<close>

lemma receive_one_accepts:
  assumes "c_in c = handshake_bytes h @ r" "c_faults c = []" "length (handshake_json h) < 2 ^ 32"
    and "hs_arch h = ''x86_64''" "hs_total h \<noteq> 0" "hs_total h \<le> max_snapshot_bytes"
  shows "receive_one xxh c =
     (case receive_loop xxh (hs_total h) (replicate (unat (hs_total h)) 0) 0
         (c\<lparr>c_in := r, c_out := c_out c @ accept_bytes\<rparr>) of
        (Inl e, d) \<Rightarrow> (Inl (e, Some (decoded h)), d)
      | (Inr (buf, w), d) \<Rightarrow>
          if unat w > length buf then (Inl (RxPanic, Some (decoded h)), d)
          else (Inr (take (unat w) buf, decoded h), d))"
proof -
  let ?f = "\<lparr>fr_type = MsgHandshake, fr_payload = to_bytes (handshake_json h)\<rparr>"
  have rd: "read_frame c = (Inr ?f, c\<lparr>c_in := r\<rparr>)"
    using assms(1,3) by (intro frames.get_ok) (simp_all add: handshake_bytes_def frame_fits_def)
  have dec: "decode_handshake (to_bytes (handshake_json h)) = (decoded h, True)"
    by (simp add: handshake_decoded decoded_def)
  have arch: "hs_arch (decoded h) = ''x86_64''" by (simp add: decoded_def assms(4))
  have tot: "hs_total (decoded h) = hs_total h" by (simp add: decoded_def)
  have wr: "write_json MsgReadyAck accept_json (c\<lparr>c_in := r\<rparr>) =
      (Inr (), c\<lparr>c_in := r, c_out := c_out c @ accept_bytes\<rparr>)"
    using assms(2) by (simp add: write_json_def frames.put_ok accept_bytes_def)
  have "\<not> hs_total h > max_snapshot_bytes" using assms(6) by simp
  then show ?thesis
    by (simp add: receive_one_def try_act_def rd dec arch tot assms(5) wr)
      (simp add: act_simps split: sum.splits prod.splits)
qed

end
