(* ===== verification/Delivery.thy ===== *)
theory Delivery
  imports Transport
begin

text \<open>
  The properties of the transfer: what the receiver ends up with for what the sender was given,
  on a connection that works and on one that fails.
\<close>

section \<open>A transfer that works\<close>

lemma pages_size_upto:
  "n \<le> page_count PageSize bs \<Longrightarrow> pages_size bs [0..<n] = min (n * PageSize) (length bs)"
proof (induction n)
  case (Suc n)
  then have n: "n < page_count PageSize bs" by simp
  then have "n * PageSize < length bs" using page_count_less [OF PageSize_pos] by simp
  then show ?case
    using Suc n page_bounds(1) [OF PageSize_pos n] by (simp add: pages_size_def)
qed (simp add: pages_size_def)

lemma page_count_covers: "length bs \<le> page_count PageSize bs * PageSize"
  using page_count_less [OF PageSize_pos, of "page_count PageSize bs" bs] by simp

lemma pages_size_all: "pages_size bs [0..<page_count PageSize bs] = length bs"
  using pages_size_upto [of "page_count PageSize bs" bs] page_count_covers [of bs] by simp

lemma max_snapshot: "unat max_snapshot_bytes = 2 ^ 37"
  by (simp add: max_snapshot_bytes_def)

definition transferable :: "u8 list \<Rightarrow> transfer_options \<Rightarrow> bool" where
  "transferable bs opts \<longleftrightarrow> bs \<noteq> [] \<and> length bs \<le> 2 ^ 37 \<and> length (handshake_json (handshake_of bs opts)) < 2 ^ 32"

lemma transferable_handshake:
  assumes "transferable bs opts"
  shows "unat (hs_total (handshake_of bs opts)) = length bs" "hs_total (handshake_of bs opts) = of_nat (length bs)"
    "hs_total (handshake_of bs opts) \<noteq> 0" "hs_total (handshake_of bs opts) \<le> max_snapshot_bytes"
    "hs_arch (handshake_of bs opts) = ''x86_64''" "length bs < 2 ^ 64"
proof -
  have len: "length bs \<le> 2 ^ 37" "bs \<noteq> []" using assms by (auto simp: transferable_def)
  then show n: "length bs < 2 ^ 64" by (simp add: power_strict_increasing_iff order_le_less_trans)
  show u: "unat (hs_total (handshake_of bs opts)) = length bs"
    using n by (simp add: handshake_of_def unat_of_nat)
  show "hs_total (handshake_of bs opts) \<noteq> 0" using u len by force
  show "hs_total (handshake_of bs opts) \<le> max_snapshot_bytes"
    using u len max_snapshot by (simp add: word_le_nat_alt)
qed (simp_all add: handshake_of_def)

lemma page_count_bound: "transferable bs opts \<Longrightarrow> page_count PageSize bs < 2 ^ 48"
  unfolding transferable_def page_count_def
  by (rule le_less_trans [OF div_le_dividend]) (simp add: PageSize_def)

text \<open>The receiver on a handshake and any stream after it.\<close>

lemma receiving_end_accepts:
  assumes "transferable bs opts"
  shows "receiving_end xxh (handshake_bytes (handshake_of bs opts) @ r) =
     ((case fst (receive_loop xxh (of_nat (length bs)) (replicate (length bs) 0) 0 ((wire r [])\<lparr>c_out := accept_bytes\<rparr>)) of
        Inl e \<Rightarrow> Inl (e, Some (decoded (handshake_of bs opts)))
      | Inr (buf, w) \<Rightarrow>
          if unat w > length buf then Inl (RxPanic, Some (decoded (handshake_of bs opts)))
          else Inr (take (unat w) buf, decoded (handshake_of bs opts))), accept_bytes)"
proof -
  let ?h = "handshake_of bs opts"
  let ?loop = "receive_loop xxh (hs_total ?h) (replicate (unat (hs_total ?h)) 0) 0 ((wire r [])\<lparr>c_out := accept_bytes\<rparr>)"
  note h = transferable_handshake [OF assms]
  have "receive_one xxh (wire (handshake_bytes ?h @ r) []) = (case ?loop of
        (Inl e, d) \<Rightarrow> (Inl (e, Some (decoded ?h)), d)
      | (Inr (buf, w), d) \<Rightarrow> if unat w > length buf then (Inl (RxPanic, Some (decoded ?h)), d)
          else (Inr (take (unat w) buf, decoded ?h), d))"
    using receive_one_accepts [of "wire (handshake_bytes ?h @ r) []" ?h r xxh] assms h
    by (simp add: transferable_def wire_def)
  moreover have "c_out (snd ?loop) = accept_bytes" by (simp add: receive_loop_out)
  ultimately show ?thesis
    by (cases ?loop) (auto simp: receiving_end_def h(1) h(2) [symmetric] split: sum.splits prod.splits)
qed

text \<open>C34: What the receiver makes of a stream: whichever pages of a snapshot arrive after its handshake,
  in whichever order, they are copied to their places in a buffer of zeros, and of the buffer as
  many bytes are kept as were received. More bytes than announced are a panic.\<close>

theorem received_pages_exact:
  assumes "transferable bs opts" "\<forall>i \<in> set is. i < page_count PageSize bs" "length is < 2 ^ 48"
  shows "fst (receiving_end xxh (handshake_bytes (handshake_of bs opts) @ pages_bytes xxh bs is @ complete_bytes)) =
     (if pages_size bs is > length bs then Inl (RxPanic, Some (decoded (handshake_of bs opts)))
      else Inr (take (pages_size bs is) (put_pages PageSize bs is (replicate (length bs) 0)),
        decoded (handshake_of bs opts)))"
proof -
  have "pages_size bs is \<le> length is * PageSize"
    unfolding pages_size_def using page_at_length [of bs]
    by (induction "is") (simp_all add: page_at_page [symmetric] add_mono)
  also have "\<dots> < 2 ^ 64" using assms(3) by (simp add: PageSize_def)
  finally have w: "unat (of_nat (pages_size bs is) :: u64) = pages_size bs is" by (simp add: unat_of_nat)
  have len: "length (put_pages PageSize bs is (replicate (length bs) 0)) = length bs"
    using put_pages_nth [OF PageSize_pos assms(2)] by simp
  show ?thesis
    using receive_loop_pages [OF assms(2) transferable_handshake(6) [OF assms(1)],
        of "(wire (pages_bytes xxh bs is @ complete_bytes) [])\<lparr>c_out := accept_bytes\<rparr>" xxh "[]"]
    by (simp add: receiving_end_accepts [OF assms(1)] w len)
qed

definition toy_hash :: "u8 list \<Rightarrow> u64" where
  "toy_hash bs = fold (\<lambda>b h. 31 * h + ucast b) bs 7"

definition toy_floats :: "nat floats" where
  "toy_floats = \<lparr>fl_zero = 0, fl_saved = (\<lambda>a b. b - a), fl_percent = show_nat\<rparr>"

definition toy_options :: transfer_options where
  "toy_options = \<lparr>to_hostname = ''src'', to_pid = 7, to_version = ''1.0'', to_max_retries = 3\<rparr>"

lemma toy_transferable: "transferable [1, 2, 3] toy_options"
proof -
  have "length (handshake_json (handshake_of [1, 2, 3] toy_options)) < 200" by code_simp
  then show ?thesis by (simp add: transferable_def)
qed

lemma toy_page_count: "page_count PageSize [a, b, c] = 1"
  by (simp add: page_count_def PageSize_def)

lemma toy_page: "page PageSize 0 [a, b, c] = [a, b, c]"
  by (simp add: page_def PageSize_def slice_of_def)

lemma received_pages_exact_witness:
  "fst (receiving_end toy_hash (handshake_bytes (handshake_of [1, 2, 3] toy_options) @
     pages_bytes toy_hash [1, 2, 3] [0, 0] @ complete_bytes)) =
   Inl (RxPanic, Some (decoded (handshake_of [1, 2, 3] toy_options)))"
  using received_pages_exact [OF toy_transferable, of "[0, 0]" toy_hash]
  by (simp add: toy_page_count toy_page pages_size_def)

lemma accept_frame:
  "accepting \<lparr>fr_type = MsgReadyAck, fr_payload = to_bytes accept_json\<rparr>"
  by (simp add: accepting_def accept_json_def ready_ack_decoded)

lemma first_round:
  assumes "transferable bs opts"
  shows "snd (sending_end F xxh bs opts ([None, None, None] @ fs) []) = handshake_bytes (handshake_of bs opts)"
    "snd (receiving_end xxh (handshake_bytes (handshake_of bs opts))) = accept_bytes"
  using receiving_end_accepts [OF assms, of xxh "[]"] by (simp_all add: sending_end_silent)

text \<open>All of a session in which the sender gets to the end: \<open>pre\<close> as in \<open>sending_end_first\<close>.\<close>

lemma exchange_first:
  assumes "transferable bs opts" "0 \<le> sint (to_max_retries opts)"
    and "\<And>c. c_faults c = fs \<Longrightarrow> send_block_with_retry (block_at xxh bs 0) (to_max_retries opts) c =
      (Inr (), c\<lparr>c_out := c_out c @ pre @ frame_bytes (block_frame (block_at xxh bs 0)), c_faults := []\<rparr>)"
  shows "exchange (Suc (Suc n)) (sending_end F xxh bs opts ([None, None, None] @ fs)) (receiving_end xxh) =
     (Inr (full_stats F bs), fst (receiving_end xxh (handshake_bytes (handshake_of bs opts) @ pre @
        pages_bytes xxh bs [0..<page_count PageSize bs] @ complete_bytes)))"
proof -
  let ?f = "sending_end F xxh bs opts ([None, None, None] @ fs)" and ?g = "receiving_end xxh"
  let ?s = "handshake_bytes (handshake_of bs opts) @ pre @ pages_bytes xxh bs [0..<page_count PageSize bs] @ complete_bytes"
  have bs: "bs \<noteq> []" "length bs < 2 ^ 64"
    using assms(1) transferable_handshake(6) [OF assms(1)] by (auto simp: transferable_def)
  have f: "?f accept_bytes = (Inr (full_stats F bs), ?s)"
    by (rule sending_end_first [OF bs accept_frame accept_fits _ assms(3,2), where r = "[]"])
      (simp_all add: accept_bytes_def)
  have "streams (Suc (Suc n)) (snd \<circ> ?f) (snd \<circ> ?g) = (?s, accept_bytes)"
    using first_round [OF assms(1)] f receiving_end_accepts [OF assms(1), of xxh] by (intro streams_settle [where h = "handshake_bytes (handshake_of bs opts)"]) simp_all
  with f show ?thesis by (simp only: exchange_def Let_def prod.case fst_conv)
qed

lemma exchange_delivers:
  assumes "transferable bs opts" "int k \<le> sint (to_max_retries opts)"
  shows "exchange (Suc (Suc n)) (sending_end F xxh bs opts ([None, None, None] @ replicate k (Some (0, e))))
       (receiving_end xxh) =
     (Inr (full_stats F bs), Inr (bs, decoded (handshake_of bs opts)))"
proof -
  have "length [0..<page_count PageSize bs] < 2 ^ 48"
    using page_count_bound [OF assms(1)] by simp
  then have "fst (receiving_end xxh (handshake_bytes (handshake_of bs opts) @
      pages_bytes xxh bs [0..<page_count PageSize bs] @ complete_bytes)) = Inr (bs, decoded (handshake_of bs opts))"
    by (subst received_pages_exact [OF assms(1)]) (simp_all add: pages_size_all put_all_pages PageSize_pos)
  moreover have "0 \<le> sint (to_max_retries opts)" using assms(2) by simp
  ultimately show ?thesis
    using exchange_first [OF assms(1), of "replicate k (Some (0, e))" xxh "[]" n F]
      send_block_clean [of _ k e "to_max_retries opts"] assms(2) by simp
qed

text \<open>C5: A transfer delivers the snapshot. On a connection that works, and on one where the first
  block fails without a byte sent as often as there are retries, both ends succeed, and the
  receiver has the bytes the sender was given and the metadata of its handshake.\<close>

theorem transfer_delivers:
  assumes "transferable bs opts" "int k \<le> sint (to_max_retries opts)"
  shows "exchange (Suc (Suc n)) (sending_end F xxh bs opts ([None, None, None] @ replicate k (Some (0, e))))
       (receiving_end xxh) =
     (Inr (full_stats F bs), Inr (bs, decoded (handshake_of bs opts)))"
  using assms by (rule exchange_delivers)

lemma transfer_delivers_witness:
  "snd (exchange 2 (sending_end toy_floats toy_hash [1, 2, 3] toy_options
      [None, None, None, Some (0, NetError 110), Some (0, NetError 110)]) (receiving_end toy_hash)) =
   Inr ([1, 2, 3], decoded (handshake_of [1, 2, 3] toy_options))"
  using transfer_delivers [OF toy_transferable, of 2 0 toy_floats toy_hash "NetError 110"]
  by (simp add: toy_options_def numeral_2_eq_2)

text \<open>What the programs do with the results of their ends.\<close>

definition flag_options :: "string \<Rightarrow> u64 \<Rightarrow> string \<Rightarrow> i64 \<Rightarrow> transfer_options" where
  "flag_options hostname pid version retries =
     \<lparr>to_hostname = hostname, to_pid = ucast pid, to_version = version, to_max_retries = retries\<rparr>"

definition transmitter_verdict :: "'f floats \<Rightarrow> 'f transfer_stats \<times> tx_error + 'f transfer_stats \<Rightarrow> nat \<times> string list" where
  "transmitter_verdict F r = (case r of
     Inl (_, e) \<Rightarrow> (if e = TxPanic then 2 else 1, []) | Inr stats \<Rightarrow> (0, transfer_report F stats))"

definition receiver_verdict ::
    "'k kernel \<Rightarrow> string \<Rightarrow> 'k \<Rightarrow> rx_error \<times> handshake option + u8 list \<times> handshake \<Rightarrow> (nat \<times> string list) \<times> 'k" where
  "receiver_verdict K path d r = (case r of
     Inl (e, _) \<Rightarrow> ((if e = RxPanic then 2 else 1, []), d)
   | Inr (bs, hs) \<Rightarrow> (case k_write_file K path bs d of
       (Inl _, t) \<Rightarrow> ((1, []), t) | (Inr _, t) \<Rightarrow> ((0, receive_report path bs hs), t)))"

lemma transmitter_end_eq:
  assumes "path \<noteq> []" "k_read_file K path s = Inr bs"
  shows "transmitter_end K F xxh hostname path pid version retries s fs b =
    (transmitter_verdict F (fst (sending_end F xxh bs (flag_options hostname pid version retries) fs b)),
     snd (sending_end F xxh bs (flag_options hostname pid version retries) fs b))"
  using assms
  by (cases "send_snapshot F xxh bs (flag_options hostname pid version retries) (wire b fs)")
    (auto simp: transmitter_verdict_def transmitter_end_def transmitter_main_def sending_end_def flag_options_def conn_out_def
      split: sum.splits)

lemma receiver_end_eq:
  "receiver_end K xxh path d a =
    (receiver_verdict K path d (fst (receiving_end xxh a)),
     snd (receiving_end xxh a))"
  by (cases "receive_one xxh (wire a [])")
    (auto simp: receiver_verdict_def receiver_end_def receiver_main_def accept_snapshot_def receiving_end_def conn_out_def Let_def
      split: sum.splits prod.splits)

text \<open>Both programs on a transfer that works.\<close>

lemma file_arrives:
  assumes "path \<noteq> []" "k_read_file K path s = Inr bs" "transferable bs (flag_options hostname pid version retries)"
    and "0 \<le> sint retries" "k_write_file K2 output bs d = (Inr (), d')"
  shows "exchange (Suc (Suc n)) (transmitter_end K F xxh hostname path pid version retries s [None, None, None])
       (receiver_end K2 xxh output d) =
     ((0, transfer_report F (full_stats F bs)),
      ((0, receive_report output bs (decoded (handshake_of bs (flag_options hostname pid version retries)))), d'))"
proof -
  let ?opts = "flag_options hostname pid version retries" and ?h = "decoded (handshake_of bs (flag_options hostname pid version retries))"
  have d: "exchange (Suc (Suc n)) (sending_end F xxh bs ?opts [None, None, None]) (receiving_end xxh) =
      (Inr (full_stats F bs), Inr (bs, ?h))"
    using exchange_delivers [OF assms(3), of 0 n F xxh EOF] assms(4) by (simp add: flag_options_def)
  show ?thesis
    by (subst exchange_map [where \<phi> = "transmitter_verdict F" and \<psi> = "receiver_verdict K2 output d",
          OF transmitter_end_eq [OF assms(1,2)] receiver_end_eq])
      (simp add: d assms(5) transmitter_verdict_def receiver_verdict_def)
qed

lemma full_stats_counts:
  assumes "transferable bs opts"
  shows "ts_pages_sent (full_stats F bs) = page_count PageSize bs \<and> unat (ts_bytes_sent (full_stats F bs)) = length bs"
proof -
  have "(\<lambda>i. length (page_at bs (i * PageSize))) = (\<lambda>i. length (page PageSize i bs))"
    by (simp add: page_at_page)
  then have "sum_list (map (\<lambda>p. length (page_at bs p)) (map (\<lambda>i. i * PageSize) [0..<page_count PageSize bs])) = length bs"
    using pages_size_all [of bs] by (simp add: pages_size_def comp_def)
  then have "unat (ts_bytes_sent (full_stats F bs)) = length bs"
    using transferable_handshake(6) [OF assms]
    by (simp add: full_stats_def finish_stats_def sent_def start_stats_def unat_of_nat)
  moreover have "ts_pages_sent (full_stats F bs) = page_count PageSize bs"
    by (simp add: full_stats_def finish_stats_def sent_def start_stats_def)
  ultimately show ?thesis by simp
qed

section \<open>Transfers that go wrong\<close>

text \<open>The receiver accepts an incomplete snapshot. If the sender stops after some pages and says that
  it is done, the receiver reports success and keeps the part it has, although the handshake
  announced more.\<close>

theorem incomplete_snapshot_accepted:
  assumes "transferable bs opts" "n \<le> page_count PageSize bs"
  shows "fst (receiving_end xxh (handshake_bytes (handshake_of bs opts) @ pages_bytes xxh bs [0..<n] @ complete_bytes)) =
     Inr (take (n * PageSize) bs, decoded (handshake_of bs opts))"
proof -
  have c: "\<forall>i \<in> set [0..<n]. i < page_count PageSize bs" using assms(2) by auto
  have "length [0..<n] < 2 ^ 48"
    using assms(2) page_count_bound [OF assms(1)] by simp
  note r = received_pages_exact [OF assms(1) c this, of xxh]
  have s: "pages_size bs [0..<n] = min (n * PageSize) (length bs)" using assms(2) by (rule pages_size_upto)
  note p = put_pages_nth [OF PageSize_pos c, of "replicate (length bs) 0"]
  have "take (min (n * PageSize) (length bs)) (put_pages PageSize bs [0..<n] (replicate (length bs) 0)) =
      take (n * PageSize) bs"
  proof (rule nth_equalityI)
    fix j assume "j < length (take (min (n * PageSize) (length bs)) (put_pages PageSize bs [0..<n] (replicate (length bs) 0)))"
    with p have j: "j < n * PageSize" "j < length bs" by simp_all
    then have "j div PageSize < n" using PageSize_pos by (simp add: div_less_iff_less_mult)
    with p j show "take (min (n * PageSize) (length bs)) (put_pages PageSize bs [0..<n] (replicate (length bs) 0)) ! j =
        take (n * PageSize) bs ! j" by simp
  qed (use p in simp)
  with r s show ?thesis by simp
qed

lemma incomplete_snapshot_accepted_witness:
  "fst (receiving_end toy_hash (handshake_bytes (handshake_of [1, 2, 3] toy_options) @ complete_bytes)) =
   Inr ([], decoded (handshake_of [1, 2, 3] toy_options))"
  using incomplete_snapshot_accepted [OF toy_transferable, of 0 toy_hash] by (simp add: pages_bytes_def)

text \<open>With a negative number of retries nothing is sent. No block is attempted even once, but the
  sender reports that all pages went out, and the receiver reports an empty snapshot as received.\<close>

theorem negative_retries_lose_snapshot:
  assumes "transferable bs opts" "sint (to_max_retries opts) < 0"
  shows "exchange (Suc (Suc n)) (sending_end F xxh bs opts [None, None, None]) (receiving_end xxh) =
     (Inr (full_stats F bs), Inr ([], decoded (handshake_of bs opts)))"
proof -
  let ?h = "handshake_of bs opts" and ?f = "sending_end F xxh bs opts [None, None, None]"
  let ?s = "handshake_bytes ?h @ complete_bytes"
  have skip: "send_blocks xxh bs (to_max_retries opts) ps stats c = (Inr (sent bs ps stats), c)" for ps stats c
    using assms(2)
    by (induction ps arbitrary: stats) (simp_all add: act_simps sent_def send_block_with_retry_def retry_block.simps try_act_def)
  let ?a = "\<lparr>fr_type = MsgReadyAck, fr_payload = to_bytes accept_json\<rparr>"
  let ?c = "(wire [] [])\<lparr>c_out := handshake_bytes ?h\<rparr>"
  obtain ack where ack: "decode_ready_ack (to_bytes accept_json) = (ack, True)" "ra_accepted ack"
    using accept_frame by (cases "decode_ready_ack (to_bytes accept_json)") (auto simp: accepting_def)
  have rd: "read_frame ((wire accept_bytes [])\<lparr>c_out := handshake_bytes ?h\<rparr>) = (Inr ?a, ?c)"
    using frames.get_ok [OF accept_fits, of "(wire accept_bytes [])\<lparr>c_out := handshake_bytes ?h\<rparr>" "[]"]
    by (simp add: accept_bytes_def wire_def)
  have fin: "frame_write_to \<lparr>fr_type = MsgComplete, fr_payload = []\<rparr> ?c = (Inr (), ?c\<lparr>c_out := ?s\<rparr>)"
    by (subst frames.put_ok) (simp_all add: complete_bytes_def)
  have "\<exists>det. dirty_offsets xxh new_detector bs PageSize = Some (map (\<lambda>i. i * PageSize) [0..<page_count PageSize bs], det)"
    using first_call_all [OF PageSize_pos transferable_handshake(6) [OF assms(1)]] by blast
  then have f: "?f accept_bytes = (Inr (full_stats F bs), ?s)"
    by (auto simp: sending_end_def send_snapshot_def Let_def act_simps handshake_sent rd ack skip fin full_stats_def)
  have "streams (Suc (Suc n)) (snd \<circ> ?f) (snd \<circ> receiving_end xxh) = (?s, accept_bytes)"
    using first_round(1) [OF assms(1), of F xxh "[]"] first_round(2) [OF assms(1), of xxh] f receiving_end_accepts [OF assms(1), of xxh]
    by (intro streams_settle [where h = "handshake_bytes (handshake_of bs opts)"]) simp_all
  moreover have "fst (receiving_end xxh ?s) = Inr ([], decoded ?h)"
    using received_pages_exact [OF assms(1), of "[]" xxh] by (simp add: pages_bytes_def pages_size_def)
  ultimately show ?thesis using f by (simp add: exchange_def)
qed

lemma negative_retries_lose_snapshot_witness:
  "snd (exchange 2 (sending_end toy_floats toy_hash [1, 2, 3] (toy_options\<lparr>to_max_retries := -1\<rparr>) [None, None, None])
     (receiving_end toy_hash)) = Inr ([], decoded (handshake_of [1, 2, 3] toy_options))"
proof -
  have h: "handshake_of [1, 2, 3] (toy_options\<lparr>to_max_retries := -1\<rparr>) = handshake_of [1, 2, 3] toy_options"
    by (simp add: handshake_of_def)
  then have "transferable [1, 2, 3] (toy_options\<lparr>to_max_retries := -1\<rparr>)"
    using toy_transferable by (simp add: transferable_def)
  from negative_retries_lose_snapshot [OF this, of 0 toy_floats toy_hash] show ?thesis
    by (simp add: h numeral_2_eq_2)
qed

text \<open>A \<open>Write\<close> that fails before its first byte but after the type of the frame, and one that fails
  although all of its bytes went out: the next attempt goes through.\<close>

lemma two_attempts:
  assumes "1 \<le> sint m" "write_block b c = (Inl e, d)" "c_faults d = []"
  shows "send_block_with_retry b m c = (Inr (), d\<lparr>c_out := c_out d @ frame_bytes (block_frame b)\<rparr>)"
proof -
  have "retry_block m (0 + 1) (Some e) b d =
      (Inr (), d\<lparr>c_out := c_out d @ frame_bytes (block_frame b), c_faults := []\<rparr>)"
    using assms(1,3) by (intro retry_block_clean [where k = 0]) simp_all
  with assms show ?thesis
    unfolding send_block_with_retry_def by (subst retry_block.simps) simp
qed

lemma retry_after_type:
  assumes "c_faults c = [None, Some (0, e)]" "1 \<le> sint max_retries"
  shows "send_block_with_retry b max_retries c =
     (Inr (), c\<lparr>c_out := c_out c @ be32 MsgDataBlock @ frame_bytes (block_frame b), c_faults := []\<rparr>)"
proof -
  have "write_block b c = (Inl (WriteFrameLength e), c\<lparr>c_out := c_out c @ be32 MsgDataBlock, c_faults := []\<rparr>)"
    using assms(1) by (simp add: write_block_def frame_write_to_def try_act_def conn_write_def)
  from two_attempts [OF assms(2) this] show ?thesis by simp
qed

lemma retry_after_all:
  assumes "c_faults c = [None, None, Some (length (block_payload b), e)]" "1 \<le> sint max_retries"
  shows "send_block_with_retry b max_retries c =
     (Inr (), c\<lparr>c_out := c_out c @ frame_bytes (block_frame b) @ frame_bytes (block_frame b), c_faults := []\<rparr>)"
proof -
  have "length (block_payload b) > 0" by (simp add: block_payload_def)
  then have "write_block b c =
      (Inl (WriteFramePayload e), c\<lparr>c_out := c_out c @ frame_bytes (block_frame b), c_faults := []\<rparr>)"
    using assms(1)
    by (simp add: write_block_def frame_write_to_def try_act_def conn_write_def frame_bytes_def block_frame_def)
  from two_attempts [OF assms(2) this] show ?thesis by simp
qed

lemma desynchronised_loop:
  assumes "c_in c = be32 MsgDataBlock @ be32 MsgDataBlock @ r" "3 \<le> length r"
  shows "fst (receive_loop xxh n buf w c) = Inl (DecodeBlock (BlockTooShort 3))"
proof -
  let ?f = "\<lparr>fr_type = MsgDataBlock, fr_payload = take 3 r\<rparr>"
  have "be32 (of_nat (length (take 3 r))) = be32 MsgDataBlock"
    using assms(2) by (simp add: MsgDataBlock_def)
  then have "read_frame c = (Inr ?f, c\<lparr>c_in := drop 3 r\<rparr>)"
    using assms by (intro frames.get_ok) (simp_all add: frame_bytes_def frame_fits_def)
  then show ?thesis
    using assms(2) by (subst receive_loop.simps) (simp add: read_block_def)
qed

text \<open>C21: A retry after a failed write that had sent something destroys the transfer, and the sender
  reports success. If the type of the frame was out, the receiver takes the second type for a
  length and refuses the three bytes it reads as a block; if the whole block was out, the
  receiver counts it twice and crashes when it cuts the buffer.\<close>

theorem retry_after_partial_write:
  assumes "transferable bs opts" "1 \<le> sint (to_max_retries opts)"
  shows "exchange (Suc (Suc n)) (sending_end F xxh bs opts ([None, None, None] @ [None, Some (0, e)])) (receiving_end xxh) =
      (Inr (full_stats F bs), Inl (DecodeBlock (BlockTooShort 3), Some (decoded (handshake_of bs opts)))) \<and>
    exchange (Suc (Suc n)) (sending_end F xxh bs opts ([None, None, None] @
        [None, None, Some (length (block_payload (block_at xxh bs 0)), e)])) (receiving_end xxh) =
      (Inr (full_stats F bs), Inl (RxPanic, Some (decoded (handshake_of bs opts))))"
proof -
  let ?b = "block_at xxh bs 0" and ?n = "page_count PageSize bs" and ?h = "handshake_of bs opts"
  have max: "0 \<le> sint (to_max_retries opts)" using assms(2) by simp
  have bs: "bs \<noteq> []" using assms(1) by (simp add: transferable_def)
  then have "0 < ?n" by (simp add: page_count_less [OF PageSize_pos])
  then have ps: "[0..<?n] = 0 # [1..<?n]" by (simp add: upt_conv_Cons)
  then have pages: "pages_bytes xxh bs [0..<?n] = frame_bytes (block_frame ?b) @ pages_bytes xxh bs [1..<?n]"
    by (simp add: pages_bytes_def page_bytes_def)
  have "frame_bytes (block_frame ?b) = be32 MsgDataBlock @ be32 (of_nat (length (block_payload ?b))) @ block_payload ?b"
    by (simp add: frame_bytes_def block_frame_def)
  then have "fst (receiving_end xxh (handshake_bytes ?h @ be32 MsgDataBlock @ pages_bytes xxh bs [0..<?n] @ complete_bytes)) =
      Inl (DecodeBlock (BlockTooShort 3), Some (decoded ?h))"
    unfolding receiving_end_accepts [OF assms(1)]
    by (subst desynchronised_loop [where r = "be32 (of_nat (length (block_payload ?b))) @ block_payload ?b @
        pages_bytes xxh bs [1..<?n] @ complete_bytes"]) (simp_all add: pages)
  then have desync: "exchange (Suc (Suc n)) (sending_end F xxh bs opts ([None, None, None] @ [None, Some (0, e)])) (receiving_end xxh) =
      (Inr (full_stats F bs), Inl (DecodeBlock (BlockTooShort 3), Some (decoded ?h)))"
    using exchange_first [OF assms(1) max, of "[None, Some (0, e)]" xxh "be32 MsgDataBlock" n F]
      retry_after_type [OF _ assms(2), of _ e ?b] by simp
  have twice: "frame_bytes (block_frame ?b) @ pages_bytes xxh bs [0..<?n] @ complete_bytes =
      pages_bytes xxh bs (0 # [0..<?n]) @ complete_bytes"
    by (simp add: pages_bytes_def page_bytes_def)
  have "0 < length (page PageSize 0 bs)"
    using page_bounds(1) [OF PageSize_pos \<open>0 < ?n\<close>] bs PageSize_pos by simp
  then have "length bs < pages_size bs (0 # [0..<?n])"
    using pages_size_all [of bs] by (simp add: pages_size_def)
  moreover have "length (0 # [0..<?n]) < 2 ^ 48" "\<forall>i \<in> set (0 # [0..<?n]). i < ?n"
    using page_count_bound [OF assms(1)] page_count_less [OF PageSize_pos] \<open>0 < ?n\<close> assms(1)
    by (auto simp: transferable_def page_count_def PageSize_def)
  ultimately have "fst (receiving_end xxh (handshake_bytes ?h @ frame_bytes (block_frame ?b) @
      pages_bytes xxh bs [0..<?n] @ complete_bytes)) = Inl (RxPanic, Some (decoded ?h))"
    unfolding twice using received_pages_exact [OF assms(1)] by simp
  then have "exchange (Suc (Suc n)) (sending_end F xxh bs opts ([None, None, None] @
        [None, None, Some (length (block_payload (block_at xxh bs 0)), e)])) (receiving_end xxh) =
      (Inr (full_stats F bs), Inl (RxPanic, Some (decoded ?h)))"
    using exchange_first [OF assms(1) max, of "[None, None, Some (length (block_payload ?b), e)]" xxh
        "frame_bytes (block_frame ?b)" n F]
      retry_after_all [OF _ assms(2), of _ ?b e] by simp
  with desync show ?thesis by simp
qed

lemma retry_after_partial_write_witness:
  "snd (exchange 2 (sending_end toy_floats toy_hash [1, 2, 3] toy_options
      [None, None, None, None, Some (0, NetError 110)]) (receiving_end toy_hash)) =
   Inl (DecodeBlock (BlockTooShort 3), Some (decoded (handshake_of [1, 2, 3] toy_options)))"
  using retry_after_partial_write [OF toy_transferable, of 0 toy_floats toy_hash "NetError 110"]
  by (simp add: toy_options_def numeral_2_eq_2)

end
