(* ===== verification/Reception.thy ===== *)
theory Reception
  imports Delivery
begin

text \<open>
  What the two ends guarantee whatever the other side does: the receiver on an arbitrary stream,
  the sender on an arbitrary reply; and the properties of the encodings and of the detector of
  dirty pages on their own.
\<close>

section \<open>The receiver on an arbitrary stream\<close>

definition verified :: "(u8 list \<Rightarrow> u64) \<Rightarrow> u64 \<Rightarrow> data_block \<Rightarrow> bool" where
  "verified xxh n b \<longleftrightarrow> db_checksum b = xxh (db_data b) \<and> unat (db_offset b) + length (db_data b) \<le> unat n"

definition put_blocks :: "data_block list \<Rightarrow> u8 list \<Rightarrow> u8 list" where
  "put_blocks bl buf = fold (\<lambda>b. copy_at (unat (db_offset b)) (db_data b)) bl buf"

definition blocks_size :: "data_block list \<Rightarrow> nat" where
  "blocks_size bl = sum_list (map (\<lambda>b. length (db_data b)) bl)"

lemma read_block_length: "read_block p = Inr b \<Longrightarrow> length (db_data b) < 2 ^ 32"
proof -
  assume "read_block p = Inr b"
  then obtain n :: u32 where "db_data b = slice_of 20 (unat (20 + n)) p"
    by (auto simp: read_block_def Let_def split: if_splits)
  then have "length (db_data b) \<le> unat (20 + n)" by (simp add: slice_of_def)
  also have "\<dots> < 2 ^ 32" using unat_lt2p_word [of "20 + n"] by simp
  finally show ?thesis .
qed

lemma checked_bounds:
  fixes x n :: u64
  assumes "k < 2 ^ 32" "\<not> x + of_nat k > n" "\<not> x > x + of_nat k"
  shows "unat x + k \<le> unat n"
proof -
  have k: "unat (of_nat k :: u64) = k" using assms(1) by (simp add: unat_of_nat)
  have "unat (x + of_nat k) = (unat x + k) mod 2 ^ 64" by (simp add: unat_word_ariths k)
  moreover have "unat x \<le> unat (x + of_nat k)" "unat (x + of_nat k) \<le> unat n"
    using assms(2,3) by (simp_all add: word_le_nat_alt not_less)
  moreover have "unat x < 2 ^ 64" using unat_lt2p_word [of x] by simp
  moreover have "(unat x + k) mod 2 ^ 64 = unat x + k - 2 ^ 64" if "2 ^ 64 \<le> unat x + k"
    using that assms(1) \<open>unat x < 2 ^ 64\<close> by (subst le_mod_geq) simp_all
  ultimately show ?thesis
    using assms(1) by (cases "unat x + k < 2 ^ 64") simp_all
qed

lemma receive_loop_verified:
  "receive_loop xxh n buf w c = (Inr (buf', w'), d) \<Longrightarrow>
   \<exists>bl. list_all (verified xxh n) bl \<and> buf' = put_blocks bl buf \<and> w' = w + of_nat (blocks_size bl)"
proof (induction xxh n buf w c arbitrary: buf' w' d rule: receive_loop.induct)
  case (1 xxh n buf w c)
  note res = "1.prems" [unfolded receive_loop.simps [of xxh n buf w c]]
  obtain f c' where rd: "read_frame c = (Inr f, c')"
  proof (cases "read_frame c")
    case (Pair x c')
    show ?thesis
    proof (cases x)
      case (Inl e)
      then have "e \<noteq> Bare EOF" using Pair read_frame_not_bare by blast
      with res Pair Inl show ?thesis by simp
    qed (use that Pair in auto)
  qed
  consider "fr_type f = MsgDataBlock" | "fr_type f \<noteq> MsgDataBlock" "fr_type f = MsgComplete"
    | "fr_type f \<noteq> MsgDataBlock" "fr_type f \<noteq> MsgComplete" "fr_type f \<noteq> MsgError"
    using res rd by (auto split: if_splits)
  then show ?case
  proof cases
    case 1
    with res rd obtain b where b: "read_block (fr_payload f) = Inr b"
      by (cases "read_block (fr_payload f)") auto
    let ?stop = "db_offset b + of_nat (length (db_data b))"
    have ok: "\<not> ?stop > n" "hash_page xxh (db_data b) = db_checksum b" "\<not> db_offset b > ?stop"
      and rest: "receive_loop xxh n (copy_at (unat (db_offset b)) (db_data b) buf) (w + of_nat (length (db_data b))) c' =
        (Inr (buf', w'), d)"
      using res rd 1 b by (auto simp: Let_def split: if_splits)
    obtain bl where "list_all (verified xxh n) bl"
      "buf' = put_blocks bl (copy_at (unat (db_offset b)) (db_data b) buf)"
      "w' = w + of_nat (length (db_data b)) + of_nat (blocks_size bl)"
      using "1.IH"(1) [OF rd [symmetric] refl 1 b refl refl _ _ _ rest] ok by auto
    moreover have "verified xxh n b"
      using ok checked_bounds [OF read_block_length [OF b] ok(1,3)] by (simp add: verified_def hash_page_def)
    ultimately show ?thesis
      by (intro exI [of _ "b # bl"]) (simp add: put_blocks_def blocks_size_def)
  next
    case 2
    with res rd show ?thesis
      by (intro exI [of _ "[]"]) (simp add: put_blocks_def blocks_size_def)
  next
    case 3
    with res rd have "receive_loop xxh n buf w c' = (Inr (buf', w'), d)" by simp
    with "1.IH"(2) [OF rd [symmetric] refl 3] show ?thesis .
  qed
qed

text \<open>What an exchange that ended well went through: an acceptable handshake, and a loop whose buffer
  was cut at the count of the bytes received.\<close>

lemma receive_one_phases:
  assumes "receive_one xxh c = (Inr (bs, hs), d)"
  shows "\<exists>c2 buf w c3. hs_arch hs = ''x86_64'' \<and> hs_total hs \<noteq> 0 \<and> hs_total hs \<le> max_snapshot_bytes \<and>
     receive_loop xxh (hs_total hs) (replicate (unat (hs_total hs)) 0) 0 c2 = (Inr (buf, w), c3) \<and>
     unat w \<le> length buf \<and> bs = take (unat w) buf"
proof -
  obtain f c1 where "read_frame c = (Inr f, c1)"
    and r1: "(if fr_type f \<noteq> MsgHandshake then fail_act (ExpectedHandshake (fr_type f), None)
     else case decode_handshake (fr_payload f) of (hs, ok) \<Rightarrow>
       if \<not> ok then fail_act (DecodeHandshake, None)
       else if hs_arch hs \<noteq> ''x86_64'' then
         ignore_act (write_json MsgReadyAck (reject_json (''unsupported arch: '' @ hs_arch hs)))
           (fail_act (IncompatibleArch (hs_arch hs), Some hs))
       else if hs_total hs = 0 then
         ignore_act (write_json MsgReadyAck (reject_json ''empty snapshot''))
           (fail_act (ZeroByteSnapshot, Some hs))
       else
         try_act (write_json MsgReadyAck accept_json) (\<lambda>e. (SendReadyAck e, Some hs)) (\<lambda>_.
         if hs_total hs > max_snapshot_bytes
         then fail_act (SizeExceedsLimit (hs_total hs) max_snapshot_bytes, Some hs)
         else
           try_act (receive_loop xxh (hs_total hs) (replicate (unat (hs_total hs)) 0) 0) (\<lambda>e. (e, Some hs))
             (\<lambda>(buf, written).
           if unat written > length buf then fail_act (RxPanic, Some hs)
           else ok_act (take (unat written) buf, hs)))) c1 = (Inr (bs, hs), d)"
    using assms unfolding receive_one_def by (elim try_actE) blast
  obtain h where dec: "decode_handshake (fr_payload f) = (h, True)" "hs_arch h = ''x86_64''" "hs_total h \<noteq> 0"
    and r2: "try_act (write_json MsgReadyAck accept_json) (\<lambda>e. (SendReadyAck e, Some h)) (\<lambda>_.
         if hs_total h > max_snapshot_bytes
         then fail_act (SizeExceedsLimit (hs_total h) max_snapshot_bytes, Some h)
         else
           try_act (receive_loop xxh (hs_total h) (replicate (unat (hs_total h)) 0) 0) (\<lambda>e. (e, Some h))
             (\<lambda>(buf, written).
           if unat written > length buf then fail_act (RxPanic, Some h)
           else ok_act (take (unat written) buf, h))) c1 = (Inr (bs, hs), d)"
    using r1 by (cases "decode_handshake (fr_payload f)") (auto simp: ignore_act_def split: if_splits)
  from r2 obtain c2 where r3: "(if hs_total h > max_snapshot_bytes
         then fail_act (SizeExceedsLimit (hs_total h) max_snapshot_bytes, Some h)
         else
           try_act (receive_loop xxh (hs_total h) (replicate (unat (hs_total h)) 0) 0) (\<lambda>e. (e, Some h))
             (\<lambda>(buf, written).
           if unat written > length buf then fail_act (RxPanic, Some h)
           else ok_act (take (unat written) buf, h))) c2 = (Inr (bs, hs), d)"
    by (elim try_actE) blast
  then have lim: "hs_total h \<le> max_snapshot_bytes" by (auto split: if_splits)
  with r3 obtain buf w c3 where loop: "receive_loop xxh (hs_total h) (replicate (unat (hs_total h)) 0) 0 c2 = (Inr (buf, w), c3)"
    and fin: "(if unat w > length buf then fail_act (RxPanic, Some h) else ok_act (take (unat w) buf, h)) c3 = (Inr (bs, hs), d)"
    by (auto split: if_splits)
  from fin have "unat w \<le> length buf" "bs = take (unat w) buf" "hs = h" by (auto split: if_splits)
  with dec lim loop show ?thesis by blast
qed

text \<open>C13: Whatever stream the receiver is given, a snapshot it returns is made of verified blocks: each
  hashes to the checksum sent with it and lies inside the announced size, they are copied in
  order into a buffer of zeros, and as many bytes are returned as the blocks held (modulo the
  width of the counter). The handshake names the right architecture and a size within the limit.\<close>

theorem receiver_verifies_blocks:
  assumes "receive_one xxh c = (Inr (bs, hs), d)"
  shows "hs_arch hs = ''x86_64'' \<and> 0 < unat (hs_total hs) \<and> unat (hs_total hs) \<le> 2 ^ 37 \<and>
    (\<exists>bl. list_all (verified xxh (hs_total hs)) bl \<and>
       (let n = unat (of_nat (blocks_size bl) :: u64) in n \<le> unat (hs_total hs) \<and>
          bs = take n (put_blocks bl (replicate (unat (hs_total hs)) 0))))"
proof -
  let ?zeros = "replicate (unat (hs_total hs)) 0"
  obtain c2 buf w c3 where hs: "hs_arch hs = ''x86_64''" "hs_total hs \<noteq> 0" "hs_total hs \<le> max_snapshot_bytes"
    and loop: "receive_loop xxh (hs_total hs) ?zeros 0 c2 = (Inr (buf, w), c3)"
    and cut: "unat w \<le> length buf" "bs = take (unat w) buf"
    using receive_one_phases [OF assms] by blast
  obtain bl where bl: "list_all (verified xxh (hs_total hs)) bl" "buf = put_blocks bl ?zeros" "w = of_nat (blocks_size bl)"
    using receive_loop_verified [OF loop] by auto
  have "length (put_blocks bl buf0) = length buf0" if "length buf0 = unat (hs_total hs)" for buf0
    using bl(1) that
    by (induction bl arbitrary: buf0) (simp_all add: put_blocks_def verified_def length_copy_at)
  then have "length buf = unat (hs_total hs)" by (simp add: bl(2))
  moreover have "unat (hs_total hs) \<le> 2 ^ 37" using hs(3) max_snapshot by (simp add: word_le_nat_alt)
  moreover have "0 < unat (hs_total hs)" using hs(2) by (simp add: unat_gt_0)
  ultimately show ?thesis using hs(1) bl cut by (auto simp: Let_def)
qed

lemma toy_take: "take PageSize [a, b, c] = [a, b, c]"
  by (simp add: PageSize_def)

lemma receiver_verifies_blocks_witness:
  "\<exists>bl. list_all (verified toy_hash 3) bl \<and> [1, 2, 3] = take (unat (of_nat (blocks_size bl) :: u64)) (put_blocks bl [0, 0, 0])"
proof -
  let ?h = "handshake_of [1, 2, 3] toy_options"
  let ?s = "handshake_bytes ?h @ pages_bytes toy_hash [1, 2, 3] [0..<1] @ complete_bytes"
  obtain d where r: "receive_one toy_hash (wire ?s []) = (Inr ([1, 2, 3], decoded ?h), d)"
    using incomplete_snapshot_accepted [OF toy_transferable, of 1 toy_hash]
    by (cases "receive_one toy_hash (wire ?s [])") (simp add: receiving_end_def toy_page_count toy_take)
  have n: "hs_total (decoded ?h) = 3" by (simp add: decoded_def handshake_of_def)
  have "unat (3 :: u64) = Suc (Suc (Suc 0))" by simp
  then have "replicate (unat (3 :: u64)) (0 :: u8) = [0, 0, 0]" by (simp only: replicate.simps)
  with receiver_verifies_blocks [OF r] show ?thesis unfolding n by (auto simp: Let_def)
qed

text \<open>C38: A block whose end wraps around crashes the receiver: an offset just below \<open>2 ^ 64\<close> passes the
  check against the announced size, because the sum of offset and length is small again, and the
  copy then slices the buffer from a large to a small index.\<close>

theorem offset_overflow_panics:
  assumes "transferable bs opts" "block_fits b" "db_checksum b = xxh (db_data b)"
    and "2 ^ 64 \<le> unat (db_offset b) + length (db_data b)"
    and "unat (db_offset b) + length (db_data b) \<le> 2 ^ 64 + length bs"
  shows "fst (receiving_end xxh (handshake_bytes (handshake_of bs opts) @ frame_bytes (block_frame b) @ r)) =
    Inl (RxPanic, Some (decoded (handshake_of bs opts)))"
proof -
  let ?k = "length (db_data b)" and ?c = "(wire (frame_bytes (block_frame b) @ r) [])\<lparr>c_out := accept_bytes\<rparr>"
  have k: "?k < 2 ^ 32" using assms(2) by (simp add: block_fits_def)
  then have "unat (of_nat ?k :: u64) = ?k" by (simp add: unat_of_nat)
  then have "unat (db_offset b + of_nat ?k) = (unat (db_offset b) + ?k) mod 2 ^ 64"
    by (simp add: unat_word_ariths)
  also have "\<dots> = unat (db_offset b) + ?k - 2 ^ 64"
    using assms(4) k unat_lt2p_word [of "db_offset b"] by (subst le_mod_geq) simp_all
  finally have stop: "unat (db_offset b + of_nat ?k) = unat (db_offset b) + ?k - 2 ^ 64" .
  have "unat (of_nat (length bs) :: u64) = length bs"
    using transferable_handshake(6) [OF assms(1)] by (simp add: unat_of_nat)
  then have "\<not> db_offset b + of_nat ?k > of_nat (length bs)" "db_offset b > db_offset b + of_nat ?k"
    using stop assms(4,5) k by (simp_all add: word_less_nat_alt)
  moreover have "read_frame ?c = (Inr (block_frame b), ?c\<lparr>c_in := r\<rparr>)"
    using assms(2) by (intro frames.get_ok block_frame_fits) simp_all
  moreover have "read_block (block_payload b) = Inr b"
    using assms(2) by (simp add: block_fits_def read_block_payload)
  ultimately have "fst (receive_loop xxh (of_nat (length bs)) (replicate (length bs) 0) 0 ?c) = Inl RxPanic"
    using assms(3) by (subst receive_loop.simps) (simp add: block_frame_def hash_page_def Let_def)
  then show ?thesis by (simp add: receiving_end_accepts [OF assms(1)])
qed

lemma offset_overflow_panics_witness:
  "fst (receiving_end toy_hash (handshake_bytes (handshake_of [1, 2, 3] toy_options) @
     frame_bytes (block_frame \<lparr>db_offset = - 1, db_checksum = toy_hash [9, 9], db_data = [9, 9]\<rparr>))) =
   Inl (RxPanic, Some (decoded (handshake_of [1, 2, 3] toy_options)))"
proof -
  let ?b = "\<lparr>db_offset = - 1, db_checksum = toy_hash [9, 9], db_data = [9, 9]\<rparr>"
  have "unat (- 1 :: u64) = 2 ^ 64 - 1" by (simp add: unsigned_minus_1_eq_mask mask_eq_exp_minus_1)
  then show ?thesis
    using offset_overflow_panics [OF toy_transferable, of ?b toy_hash "[]"] by (simp add: block_fits_def)
qed

section \<open>What the ends learn of each other\<close>

lemma write_frame_out: "\<exists>n. c_out (snd (frame_write_to f c)) = c_out c @ take n (frame_bytes f)"
proof -
  have w: "\<exists>n. c_out (snd (conn_write bs c)) = c_out c @ take n bs \<and> (is_ok (fst (conn_write bs c)) \<longrightarrow> length bs \<le> n)" for bs c
    by (auto simp: conn_write_def intro: exI [of _ "length bs"] split: list.splits option.splits)
  have t: "\<exists>n. c_out (snd (try_act (conn_write bs) g h c)) = c_out c @ take n (bs @ rest)"
    if "\<And>d. \<exists>n. c_out (snd (h () d)) = c_out d @ take n rest"
    for bs rest g c and h :: "unit \<Rightarrow> (conn, frame_error, unit) act"
  proof (cases "conn_write bs c")
    case (Pair x d)
    from w [of bs c] obtain n where n: "c_out d = c_out c @ take n bs" "is_ok x \<Longrightarrow> length bs \<le> n"
      unfolding Pair by auto
    show ?thesis
    proof (cases x)
      case (Inl e)
      with Pair n show ?thesis by (intro exI [of _ "min n (length bs)"]) (simp add: try_act_def take_Cons' min_def)
    next
      case (Inr u)
      from that obtain k where "c_out (snd (h () d)) = c_out d @ take k rest" by blast
      with Pair Inr n show ?thesis by (intro exI [of _ "length bs + k"]) (simp add: try_act_def)
    qed
  qed
  have last: "\<exists>n. c_out (snd ((if 0 < length (fr_payload f) then try_act (conn_write (fr_payload f)) WriteFramePayload ok_act
      else ok_act ()) d)) = c_out d @ take n (fr_payload f)" for d
    using t [of ok_act "[]" "fr_payload f" WriteFramePayload d] by (auto simp: act_simps)
  show ?thesis
    unfolding frame_write_to_def frame_bytes_def by (intro t last)
qed

lemma receive_one_reply:
  assumes "c_out c = []"
  shows "\<exists>p n. c_out (snd (receive_one xxh c)) = take n (frame_bytes \<lparr>fr_type = MsgReadyAck, fr_payload = p\<rparr>)"
proof -
  obtain x c1 where rd: "read_frame c = (x, c1)" by fastforce
  then have c1: "c_out c1 = []" using keepsD [OF keeps_read_frame(1) rd] assms by simp
  have none: "\<exists>p n. [] = take n (frame_bytes \<lparr>fr_type = MsgReadyAck, fr_payload = p\<rparr>)" by (metis take0)
  show ?thesis
  proof (cases x)
    case (Inl e)
    with rd c1 none show ?thesis by (simp add: receive_one_def try_act_def)
  next
    case (Inr f)
    obtain h ok where dec: "decode_handshake (fr_payload f) = (h, ok)" by fastforce
    have reply: "\<exists>p n. c_out (snd (write_json MsgReadyAck j c1)) = take n (frame_bytes \<lparr>fr_type = MsgReadyAck, fr_payload = p\<rparr>)" for j
      using write_frame_out [of "\<lparr>fr_type = MsgReadyAck, fr_payload = to_bytes j\<rparr>" c1] c1 by (auto simp: write_json_def)
    have loop: "c_out (snd (receive_loop xxh (hs_total h) (replicate (unat (hs_total h)) 0) 0 c2)) = c_out c2" for c2
      by (rule receive_loop_out)
    obtain y2 c2 where w2: "write_json MsgReadyAck accept_json c1 = (y2, c2)" by fastforce
    obtain y3 c3 where l3: "receive_loop xxh (hs_total h) (replicate (unat (hs_total h)) 0) 0 c2 = (y3, c3)" by fastforce
    have "c_out c3 = c_out c2" using loop [of c2] l3 by simp
    with rd Inr c1 dec none w2 l3 reply [of accept_json] show ?thesis
      by (cases "fr_type f = MsgHandshake"; cases ok; cases "hs_arch h = ''x86_64''"; cases "hs_total h = 0";
          cases "hs_total h > max_snapshot_bytes"; cases y2; cases y3)
        (use reply in \<open>simp_all add: receive_one_def try_act_def ignore_act_def act_simps split: prod.split\<close>)
  qed
qed

text \<open>An action that looks at nothing that is still to be read: the rest of the stream and how it
  ends make no difference to it, and stay as they are.\<close>

definition reads_nothing :: "(conn, 'e, 'a) act \<Rightarrow> bool" where
  "reads_nothing m \<longleftrightarrow> (\<forall>c x e. m (c\<lparr>c_in := x, c_end := e\<rparr>) =
     (fst (m c), (snd (m c))\<lparr>c_in := x, c_end := e\<rparr>))"

named_theorems quiet_intros

lemma quiet_ok [quiet_intros]: "reads_nothing (ok_act x)"
  and quiet_fail [quiet_intros]: "reads_nothing (fail_act e)"
  by (simp_all add: reads_nothing_def act_simps)

lemma quiet_try [quiet_intros]:
  "reads_nothing m \<Longrightarrow> (\<And>x. reads_nothing (g x)) \<Longrightarrow> reads_nothing (try_act m h g)"
  unfolding reads_nothing_def try_act_def by (auto split: prod.split sum.split)

lemma quiet_bind [quiet_intros]:
  "reads_nothing m \<Longrightarrow> (\<And>x. reads_nothing (g x)) \<Longrightarrow> reads_nothing (bind_act m g)"
  unfolding reads_nothing_def bind_act_def by (auto split: prod.split sum.split)

lemma quiet_write [quiet_intros]: "reads_nothing (conn_write bs)"
  by (simp add: reads_nothing_def conn_write_def split: list.split option.split)

lemma quiet_frame [quiet_intros]: "reads_nothing (frame_write_to f)"
  by (simp add: frame_write_to_def quiet_intros)

lemma quiet_block: "reads_nothing (write_block b)"
  by (simp add: write_block_def quiet_intros)

lemma quiet_retry: "reads_nothing (retry_block m a l b)"
proof -
  have "retry_block m a l b (c\<lparr>c_in := x, c_end := e\<rparr>) =
      (fst (retry_block m a l b c), (snd (retry_block m a l b c))\<lparr>c_in := x, c_end := e\<rparr>)" for c x e
  proof (induction m a l b c rule: retry_block.induct)
    case (1 m a l b c)
    have w: "write_block b (c\<lparr>c_in := x, c_end := e\<rparr>) = (fst (write_block b c), (snd (write_block b c))\<lparr>c_in := x, c_end := e\<rparr>)"
      using quiet_block [of b] unfolding reads_nothing_def by blast
    obtain r d where r: "write_block b c = (r, d)" by fastforce
    show ?case
    proof (cases r)
      case (Inl err)
      with r w 1 [of r d err] show ?thesis
        by (subst (1 2 3) retry_block.simps) (auto simp: act_simps split: option.split)
    qed (use r w in \<open>subst (1 2 3) retry_block.simps, simp add: act_simps split: option.split\<close>)
  qed
  then show ?thesis by (simp add: reads_nothing_def)
qed

lemma quiet_blocks: "reads_nothing (send_blocks xxh bs n ps stats)"
  by (induction ps arbitrary: stats) (auto simp: send_block_with_retry_def intro!: quiet_intros quiet_retry)

lemma quiet_after_answer:
  assumes "frame_fits f"
  shows "\<exists>r u out gs. \<forall>rest e.
     send_snapshot F xxh bs opts \<lparr>c_in = frame_bytes f @ rest, c_end = e, c_out = [], c_faults = fs\<rparr> =
       (r, \<lparr>c_in = u @ rest, c_end = e, c_out = out, c_faults = gs\<rparr>)"
proof -
  let ?c = "\<lambda>x e. \<lparr>c_in = x, c_end = e, c_out = [], c_faults = fs\<rparr>" and ?h = "handshake_json (handshake_of bs opts)"
  define rest_of where "rest_of = (\<lambda>f :: frame. case decode_ready_ack (fr_payload f) of (ack, ok) \<Rightarrow>
      if \<not> ok then fail_act (start_stats F bs, DecodeReadyAck)
      else if \<not> ra_accepted ack then fail_act (start_stats F bs, RejectedTransfer (ra_reason ack))
      else (case dirty_offsets xxh new_detector bs PageSize of
          None \<Rightarrow> fail_act (start_stats F bs, TxPanic)
        | Some (offsets, _) \<Rightarrow>
            bind_act (send_blocks xxh bs (to_max_retries opts) offsets (start_stats F bs)) (\<lambda>stats.
            try_act (frame_write_to \<lparr>fr_type = MsgComplete, fr_payload = []\<rparr>) (\<lambda>e. (stats, SendComplete e)) (\<lambda>_.
            ok_act (finish_stats F stats)))))"
  have q: "reads_nothing (rest_of f)"
    unfolding rest_of_def by (auto intro!: quiet_intros quiet_blocks split: prod.split option.split)
  have send: "send_snapshot F xxh bs opts = try_act (write_json MsgHandshake ?h) (\<lambda>e. (start_stats F bs, SendHandshake e))
      (\<lambda>_. try_act read_frame (\<lambda>e. (start_stats F bs, ReadReadyAck e)) rest_of)"
    by (simp add: send_snapshot_def Let_def rest_of_def)
  obtain x d where w: "write_json MsgHandshake ?h (?c [] EOF) = (x, d)" by fastforce
  have w2: "write_json MsgHandshake ?h (?c y e) = (x, d\<lparr>c_in := y, c_end := e\<rparr>)" for y e
    using quiet_frame [of "\<lparr>fr_type = MsgHandshake, fr_payload = to_bytes ?h\<rparr>"] w
    unfolding reads_nothing_def write_json_def by (metis conn.update_convs(1,2) fst_conv snd_conv)
  obtain r d2 where z: "rest_of f d = (r, d2)" by fastforce
  have rd: "read_frame (d\<lparr>c_in := frame_bytes f @ y, c_end := e\<rparr>) = (Inr f, d\<lparr>c_in := y, c_end := e\<rparr>)" for y e
    using frames.get_ok [OF assms, of "d\<lparr>c_in := frame_bytes f @ y, c_end := e\<rparr>" y] by simp
  have "rest_of f (d\<lparr>c_in := y, c_end := e\<rparr>) = (r, d2\<lparr>c_in := y, c_end := e\<rparr>)" for y e
    using q z unfolding reads_nothing_def by simp
  then have all: "send_snapshot F xxh bs opts (?c (frame_bytes f @ y) e) = (case x of
      Inl err \<Rightarrow> (Inl (start_stats F bs, SendHandshake err), d\<lparr>c_in := frame_bytes f @ y, c_end := e\<rparr>)
    | Inr _ \<Rightarrow> (r, d2\<lparr>c_in := y, c_end := e\<rparr>))" for y e
    by (cases x) (simp_all add: send try_act_def w2 rd)
  show ?thesis
  proof (cases x)
    case (Inl err)
    with all show ?thesis
      by (intro exI [of _ "Inl (start_stats F bs, SendHandshake err)"] exI [of _ "frame_bytes f"]
          exI [of _ "c_out d"] exI [of _ "c_faults d"]) (cases d; simp)
  next
    case (Inr v)
    with all show ?thesis
      by (intro exI [of _ r] exI [of _ "[]"] exI [of _ "c_out d2"] exI [of _ "c_faults d2"]) (cases d2; simp)
  qed
qed

text \<open>C33: The receiver does not tell the sender what became of the snapshot. Whatever it is sent, the
  receiver writes nothing but one answer to the handshake, or a part of it if its own \<open>Write\<close>
  fails: no error is reported back, and no acknowledgement. And the sender reads nothing after that
  answer: what it returns and what it writes are the same whatever follows on the connection and
  however that ends. All it can notice of a receiver that has given up is a failure of its own writes;
  where none fails, it reports success.\<close>

theorem sender_is_not_told:
  assumes "frame_fits f"
  shows "(\<exists>p n. c_out (snd (receive_one xxh (c\<lparr>c_out := []\<rparr>))) =
       take n (frame_bytes \<lparr>fr_type = MsgReadyAck, fr_payload = p\<rparr>)) \<and>
    (\<exists>r u out gs. \<forall>rest e.
       send_snapshot F xxh bs opts \<lparr>c_in = frame_bytes f @ rest, c_end = e, c_out = [], c_faults = fs\<rparr> =
         (r, \<lparr>c_in = u @ rest, c_end = e, c_out = out, c_faults = gs\<rparr>)) \<and>
    (accepting f \<and> bs \<noteq> [] \<and> length bs < 2 ^ 64 \<and> 0 \<le> sint (to_max_retries opts) \<longrightarrow>
       fst (send_snapshot F xxh bs opts \<lparr>c_in = frame_bytes f @ rest, c_end = e, c_out = [], c_faults = []\<rparr>) =
         Inr (full_stats F bs))"
proof (intro conjI impI)
  show "\<exists>p n. c_out (snd (receive_one xxh (c\<lparr>c_out := []\<rparr>))) =
      take n (frame_bytes \<lparr>fr_type = MsgReadyAck, fr_payload = p\<rparr>)"
    by (rule receive_one_reply) simp
  show "\<exists>r u out gs. \<forall>rest e.
      send_snapshot F xxh bs opts \<lparr>c_in = frame_bytes f @ rest, c_end = e, c_out = [], c_faults = fs\<rparr> =
        (r, \<lparr>c_in = u @ rest, c_end = e, c_out = out, c_faults = gs\<rparr>)"
    using quiet_after_answer [OF assms] .
  assume h: "accepting f \<and> bs \<noteq> [] \<and> length bs < 2 ^ 64 \<and> 0 \<le> sint (to_max_retries opts)"
  let ?send = "\<lambda>e fs. send_snapshot F xxh bs opts \<lparr>c_in = frame_bytes f @ rest, c_end = e, c_out = [], c_faults = fs\<rparr>"
  have ends: "fst (?send e []) = fst (?send EOF [])"
    using quiet_after_answer [OF assms, of F xxh bs opts "[]"] by (metis fst_conv)
  have none: "write_json MsgHandshake j \<lparr>c_in = y, c_end = EOF, c_out = [], c_faults = [None, None, None]\<rparr> =
      write_json MsgHandshake j \<lparr>c_in = y, c_end = EOF, c_out = [], c_faults = []\<rparr>" if "j \<noteq> []" for j y
    using that by (simp add: write_json_def frame_write_to_def try_act_def conn_write_def to_bytes_def act_simps)
  have "?send EOF [] = ?send EOF [None, None, None]"
    by (simp add: send_snapshot_def Let_def try_act_def none [OF handshake_json_nonempty])
  moreover have "fst (sending_end F xxh bs opts ([None, None, None] @ replicate 0 (Some (0, EOF))) (frame_bytes f @ rest)) =
      Inr (full_stats F bs)"
    using h assms by (subst sending_end_accepted [where f = f and r = rest]) simp_all
  then have "fst (?send EOF [None, None, None]) = Inr (full_stats F bs)"
    by (simp add: sending_end_def wire_def case_prod_unfold Let_def)
  ultimately show "fst (?send e []) = Inr (full_stats F bs)" using ends by simp
qed

lemma sender_is_not_told_witness:
  "fst (send_snapshot toy_floats toy_hash [1, 2, 3] toy_options
     \<lparr>c_in = accept_bytes @ [255, 0, 255], c_end = NetError 104, c_out = [], c_faults = []\<rparr>) =
   Inr (full_stats toy_floats [1, 2, 3])"
  using sender_is_not_told [OF accept_fits, of toy_hash "wire [] []" toy_floats "[1, 2, 3]" toy_options "[]" "[255, 0, 255]"
      "NetError 104"] accept_frame
  by (simp add: toy_options_def accept_bytes_def)

section \<open>The retries\<close>

lemma write_block_calls: "\<exists>n \<le> 3. c_faults (snd (write_block b c)) = drop n (c_faults c)"
proof -
  have w: "c_faults (snd (conn_write bs c)) = drop 1 (c_faults c)" for bs c
    by (simp add: conn_write_def split: list.splits option.splits)
  have t: "\<exists>n \<le> Suc k. c_faults (snd (try_act (conn_write bs) g f c)) = drop n (c_faults c)"
    if "\<And>d. \<exists>n \<le> k. c_faults (snd (f () d)) = drop n (c_faults d)" for k bs g c and f :: "unit \<Rightarrow> (conn, frame_error, unit) act"
  proof (cases "conn_write bs c")
    case (Pair x d)
    then have d: "c_faults d = drop 1 (c_faults c)" using w [of bs c] by simp
    from that obtain n where "n \<le> k" "c_faults (snd (f () d)) = drop n (c_faults d)" by blast
    with d have "c_faults (snd (f () d)) = drop (Suc n) (c_faults c)" by simp
    with Pair d \<open>n \<le> k\<close> show ?thesis
      by (cases x) (auto simp: try_act_def intro: exI [of _ 1] exI [of _ "Suc n"])
  qed
  show ?thesis
    unfolding write_block_def frame_write_to_def numeral_3_eq_3
    by (intro t) (auto simp: act_simps intro: exI [of _ 0] t [where k = 0])
qed

lemma write_block_error: "write_block b c = (Inl e, d) \<Longrightarrow> e \<noteq> BlockPanic"
  by (auto simp: write_block_def frame_write_to_def try_act_def act_simps split: prod.splits sum.splits if_splits)

lemma retry_block_calls:
  "\<exists>n \<le> 3 * attempts_left m a. c_faults (snd (retry_block m a l b c)) = drop n (c_faults c)"
proof (induction m a l b c rule: retry_block.induct)
  case (1 m a l b c)
  obtain x d where w: "write_block b c = (x, d)" by fastforce
  then obtain n where n: "n \<le> 3" "c_faults d = drop n (c_faults c)" using write_block_calls [of b c] by auto
  show ?case
  proof (cases "sint a \<le> sint m")
    case le: True
    then have pos: "1 \<le> attempts_left m a" by (simp add: attempts_left_def)
    show ?thesis
    proof (cases "\<exists>e. x = Inl e \<and> \<not> (sint a < sint m \<and> sint a < 0)")
      case True
      then obtain e where e: "x = Inl e" "\<not> (sint a < sint m \<and> sint a < 0)" by blast
      from 1 [OF le w [symmetric] e(1,2)] obtain k where k: "k \<le> 3 * attempts_left m (a + 1)"
        "c_faults (snd (retry_block m (a + 1) (Some e) b d)) = drop k (c_faults d)" by blast
      have "retry_block m a l b c = retry_block m (a + 1) (Some e) b d"
        using le w e by (subst retry_block.simps) auto
      with k n attempts_left_next [OF le e(2)] show ?thesis by (intro exI [of _ "k + n"]) simp
    next
      case False
      then have "snd (retry_block m a l b c) = d"
        using le w by (subst retry_block.simps) (auto simp: act_simps split: sum.split)
      with n pos show ?thesis by (intro exI [of _ n]) simp
    qed
  next
    case False
    then show ?thesis
      by (subst retry_block.simps) (auto simp: act_simps intro: exI [of _ 0] split: option.split)
  qed
qed

lemma retry_block_outcome:
  assumes "0 \<le> sint a \<or> sint m = 2 ^ 63 - 1" "l \<noteq> Some BlockPanic"
  shows "(fst (retry_block m a l b c) = Inl BlockPanic \<longrightarrow> sint m = 2 ^ 63 - 1) \<and>
    (sint m = 2 ^ 63 - 1 \<longrightarrow> fst (retry_block m a l b c) \<in> {Inr (), Inl BlockPanic})"
  using assms
proof (induction m a l b c rule: retry_block.induct)
  case (1 m a l b c)
  obtain x d where w: "write_block b c = (x, d)" by fastforce
  show ?case
  proof (cases "sint a \<le> sint m")
    case le: True
    show ?thesis
    proof (cases "\<exists>e. x = Inl e \<and> \<not> (sint a < sint m \<and> sint a < 0)")
      case True
      then obtain e where e: "x = Inl e" "\<not> (sint a < sint m \<and> sint a < 0)" by blast
      have "0 \<le> sint (a + 1) \<or> sint m = 2 ^ 63 - 1"
      proof (cases "sint m = 2 ^ 63 - 1")
        case False
        then have "sint m < sint (2 ^ 63 - 1 :: i64)" using sint_lt [of m] by simp
        with le have "sint a < sint (2 ^ 63 - 1 :: i64)" by simp
        from sint_next [OF this] 1(2) False show ?thesis by simp
      qed simp
      moreover have "Some e \<noteq> Some BlockPanic" using write_block_error w e(1) by blast
      moreover have "retry_block m a l b c = retry_block m (a + 1) (Some e) b d"
        using le w e by (subst retry_block.simps) auto
      ultimately show ?thesis using 1(1) [OF le w [symmetric] e(1,2)] by simp
    next
      case False
      then show ?thesis
        using le w 1(2) by (subst (1 2) retry_block.simps) (auto simp: act_simps split: sum.split)
    qed
  next
    case False
    with sint_lt [of a] have "sint m \<noteq> 2 ^ 63 - 1" by auto
    with False 1(3) show ?thesis
      by (subst (1 2) retry_block.simps) (auto simp: act_simps split: option.split)
  qed
qed

text \<open>C40: \<open>sendBlockWithRetry\<close> returns, after at most three calls of \<open>Write\<close> for each attempt, and one
  attempt more than there are retries. The largest \<open>int\<close> as their number is the exception: the
  condition of the loop is then always true, so the error of a failed write is never returned;
  once the counter has wrapped there is one more attempt, and the shift that computes the wait after
  it panics. No other number of retries ends in a panic.\<close>

theorem attempts_bounded:
  assumes "send_block_with_retry b max_retries c = (r, d)"
  shows "(\<exists>n. c_faults d = drop n (c_faults c) \<and>
       n \<le> 3 * (nat (sint max_retries + 1) + (if sint max_retries = 2 ^ 63 - 1 then 1 else 0))) \<and>
     (if sint max_retries = 2 ^ 63 - 1 then r = Inr () \<or> r = Inl BlockPanic else r \<noteq> Inl BlockPanic)"
proof -
  have "attempts_left max_retries 0 \<le> nat (sint max_retries + 1) + (if sint max_retries = 2 ^ 63 - 1 then 1 else 0)"
    by (auto simp: attempts_left_def)
  moreover obtain n where "n \<le> 3 * attempts_left max_retries 0" "c_faults d = drop n (c_faults c)"
    using retry_block_calls [of max_retries 0 None b c] assms by (auto simp: send_block_with_retry_def)
  ultimately show ?thesis
    using retry_block_outcome [of 0 max_retries None b c] assms
    by (auto simp: send_block_with_retry_def intro!: exI [of _ n])
qed

lemma attempts_bounded_witness:
  "fst (send_block_with_retry \<lparr>db_offset = 0, db_checksum = 0, db_data = []\<rparr> 0 (wire [] [Some (0, EOF), Some (0, EOF)])) \<noteq>
     Inl BlockPanic"
proof -
  let ?b = "\<lparr>db_offset = 0, db_checksum = 0, db_data = []\<rparr>" and ?c = "wire [] [Some (0, EOF), Some (0, EOF)]"
  obtain r d where s: "send_block_with_retry ?b 0 ?c = (r, d)" by fastforce
  from attempts_bounded [OF s] s show ?thesis by simp
qed

text \<open>What failing writes do exactly, when none of them sends anything: with as many failures as
  retries the block still goes out, with one more the error of the last write is returned, except
  with the largest \<open>int\<close>.\<close>

lemma retry_block_fails:
  "c_faults c = replicate (j + k) (Some (0, e)) \<Longrightarrow> 0 \<le> sint a \<Longrightarrow> sint a + int j \<le> sint m + 1 \<Longrightarrow> 0 < j \<Longrightarrow>
   retry_block m a l b c = retry_block m (a + of_nat j) (Some (WriteFrameType e)) b (c\<lparr>c_faults := replicate k (Some (0, e))\<rparr>)"
proof (induction j arbitrary: a l c)
  case (Suc j)
  let ?d = "c\<lparr>c_faults := replicate (j + k) (Some (0, e))\<rparr>"
  have "write_block b c = (Inl (WriteFrameType e), ?d)"
    using Suc.prems by (simp add: write_block_def frame_write_to_def try_act_def conn_write_def)
  with Suc.prems have step: "retry_block m a l b c = retry_block m (a + 1) (Some (WriteFrameType e)) b ?d"
    by (subst retry_block.simps) auto
  show ?case
  proof (cases "j = 0")
    case False
    with Suc.prems have "sint a < sint m" by simp
    with sint_next [OF this] Suc.prems False have "retry_block m (a + 1) (Some (WriteFrameType e)) b ?d =
        retry_block m (a + 1 + of_nat j) (Some (WriteFrameType e)) b (?d\<lparr>c_faults := replicate k (Some (0, e))\<rparr>)"
      by (intro Suc.IH) simp_all
    with step show ?thesis by (simp add: add.assoc)
  qed (use step in simp)
qed simp

lemma attempts_exact:
  assumes "c_faults c = replicate k (Some (0, e))" "0 \<le> sint m"
  shows "send_block_with_retry b m c =
     (if int k \<le> sint m \<or> k = 2 ^ 63 \<and> sint m = 2 ^ 63 - 1
      then (Inr (), c\<lparr>c_out := c_out c @ frame_bytes (block_frame b), c_faults := []\<rparr>)
      else if sint m < 2 ^ 63 - 1
      then (Inl (WriteFrameType e), c\<lparr>c_faults := replicate (k - nat (sint m + 1)) (Some (0, e))\<rparr>)
      else (Inl BlockPanic, c\<lparr>c_faults := replicate (k - (2 ^ 63 + 1)) (Some (0, e))\<rparr>))"
proof (cases "int k \<le> sint m")
  case False
  define i where "i = k - nat (sint m + 1)"
  let ?c = "c\<lparr>c_faults := replicate i (Some (0, e))\<rparr>"
  have k: "k = nat (sint m + 1) + i" using False assms(2) by (simp add: i_def)
  have "of_nat (nat (sint m + 1)) = (of_int (sint m + 1) :: i64)" using assms(2) by simp
  then have "of_nat (nat (sint m + 1)) = m + 1" by simp
  then have all: "send_block_with_retry b m c = retry_block m (m + 1) (Some (WriteFrameType e)) b ?c"
    unfolding send_block_with_retry_def
    using retry_block_fails [of c "nat (sint m + 1)" i e 0 m None b] assms k by simp
  show ?thesis
  proof (cases "sint m = 2 ^ 63 - 1")
    case True
    show ?thesis
    proof (cases i)
      case 0
      then show ?thesis using True k
        by (simp add: all, subst retry_block.simps) (simp add: sint_wrap blocks.put_ok act_simps)
    next
      case (Suc j)
      then have "write_block b ?c = (Inl (WriteFrameType e), ?c\<lparr>c_faults := replicate j (Some (0, e))\<rparr>)"
        by (simp add: write_block_def frame_write_to_def try_act_def conn_write_def)
      then show ?thesis using True k Suc
        by (simp add: all, subst retry_block.simps) (simp add: sint_wrap act_simps)
    qed
  next
    case neq: False
    then have "sint m < sint (2 ^ 63 - 1 :: i64)" using sint_lt [of m] by simp
    from sint_next [OF this] neq False sint_lt [of m] show ?thesis
      by (simp add: all, subst retry_block.simps) (simp add: act_simps i_def)
  qed
qed (use send_block_clean [OF assms(1)] in simp)

section \<open>The encodings\<close>

text \<open>C39: A handshake survives the wire: what is read from the bytes that \<open>WriteJSON\<close> put out is
  the handshake with invalid UTF-8 in its texts replaced, and all numbers exact.\<close>

theorem handshake_roundtrip:
  assumes "c_faults c = []" "c_out c = []" "length (handshake_json h) < 2 ^ 32"
    and "write_json MsgHandshake (handshake_json h) c = (r, c')" "c_in d = c_out c'"
  shows "\<exists>f d'. read_frame d = (Inr f, d') \<and> fr_type f = MsgHandshake \<and> c_in d' = [] \<and>
     decode_handshake (fr_payload f) = (decoded h, True)"
proof -
  let ?f = "\<lparr>fr_type = MsgHandshake, fr_payload = to_bytes (handshake_json h)\<rparr>"
  have "c_in d = frame_bytes ?f @ []"
    using assms(1,2,4,5) by (auto simp: write_json_def frames.put_ok)
  then have "read_frame d = (Inr ?f, d\<lparr>c_in := []\<rparr>)"
    using assms(3) by (intro frames.get_ok) (simp_all add: frame_fits_def)
  then show ?thesis by (simp add: handshake_decoded decoded_def)
qed

lemma handshake_roundtrip_witness:
  "\<exists>f d. read_frame (wire (handshake_bytes (handshake_of [1, 2, 3] toy_options)) []) = (Inr f, d) \<and>
     hs_pid (fst (decode_handshake (fr_payload f))) = 7"
proof -
  let ?h = "handshake_of [1, 2, 3] toy_options"
  have w: "write_json MsgHandshake (handshake_json ?h) (wire [] []) = (Inr (), (wire [] [])\<lparr>c_out := handshake_bytes ?h\<rparr>)"
    by (simp add: write_json_def frames.put_ok handshake_bytes_def wire_def)
  have "length (handshake_json ?h) < 2 ^ 32" using toy_transferable by (simp add: transferable_def)
  from handshake_roundtrip [OF _ _ this w, of "wire (handshake_bytes ?h) []"] show ?thesis
    by (auto simp: decoded_def) (simp add: handshake_of_def toy_options_def)
qed

text \<open>Any sequence of data blocks that fit into frames is read back from the stream they were written
  to, in order and with nothing left over.\<close>

theorem blocks_roundtrip:
  assumes "c_faults c = []" "c_out c = []" "list_all block_fits bl"
    and "put_all write_block bl c = (r, c')" "c_in d = c_out c'"
  shows "get_all next_block (length bl) d = (Inr bl, d\<lparr>c_in := []\<rparr>)"
  using assms by (rule blocks.get_put_all)

lemma blocks_roundtrip_witness:
  "fst (get_all next_block 2 (wire (c_out (snd (put_all write_block
     [\<lparr>db_offset = 4096, db_checksum = 5, db_data = [1, 2]\<rparr>, \<lparr>db_offset = 0, db_checksum = 6, db_data = []\<rparr>]
     (wire [] [])))) [])) =
   Inr [\<lparr>db_offset = 4096, db_checksum = 5, db_data = [1, 2]\<rparr>, \<lparr>db_offset = 0, db_checksum = 6, db_data = []\<rparr>]"
proof -
  let ?bl = "[\<lparr>db_offset = 4096, db_checksum = 5, db_data = [1, 2]\<rparr>, \<lparr>db_offset = 0, db_checksum = 6, db_data = []\<rparr>]"
  obtain r c' where p: "put_all write_block ?bl (wire [] []) = (r, c')" by fastforce
  have "list_all block_fits ?bl" by (simp add: block_fits_def)
  from blocks_roundtrip [OF _ _ this p, of "wire (c_out c') []"] p show ?thesis by (simp add: numeral_2_eq_2)
qed

text \<open>The reader of JSON comes to an end within its bound: with more fuel than twice the length of the
  input, the result is the same.\<close>

theorem json_reader_terminates:
  assumes "2 * length s + 1 \<le> n"
  shows "json_value n d s = json_value (2 * length s + 1) d s"
  using json_value_fuel [of s "n - (2 * length s + 1)" d] assms by simp

lemma json_reader_terminates_witness:
  "json_value 9 3 ''[1]'' = json_value 7 3 ''[1]''"
  using json_reader_terminates [of "''[1]''" 9 3] by simp

section \<open>The detector of dirty pages\<close>

text \<open>C31: The dirty pages are enough to bring an old snapshot up to date. The first call of the detector
  reports every page; the second one reports pages that, copied from the new snapshot over the
  old one, give the new one, as long as the hash tells changed pages apart.\<close>

theorem dirty_pages_suffice:
  assumes "0 < ps" "length old = length new" "length new < 2 ^ 64"
    and "\<And>i. xxh (page ps i new) = xxh (page ps i old) \<Longrightarrow> page ps i new = page ps i old"
    and "dirty_offsets xxh new_detector old ps = Some (all_offsets, d)" "dirty_offsets xxh d new ps = Some (offsets, d')"
  shows "all_offsets = map (\<lambda>i. i * ps) [0..<page_count ps old] \<and>
    fold (\<lambda>p. copy_at p (slice_of p (min (p + ps) (length new)) new)) offsets old = new"
proof -
  have all: "all_offsets = map (\<lambda>i. i * ps) [0..<page_count ps old]" "d = detector_of xxh ps (Some old)"
    using first_call_all [OF assms(1), of old xxh] assms(2,3,5) by simp_all
  then have off: "offsets = map (\<lambda>i. i * ps) (filter (changed xxh ps (Some old) new) [0..<page_count ps new])"
    using dirty_offsets_eq [OF assms(1,3), of xxh "Some old"] assms(6) by simp
  have p: "slice_of (i * ps) (min (i * ps + ps) (length new)) new = page ps i new" for i
    by (simp add: page_def add.commute)
  have "fold (\<lambda>p. copy_at p (slice_of p (min (p + ps) (length new)) new)) offsets old =
      put_pages ps new (filter (changed xxh ps (Some old) new) [0..<page_count ps new]) old"
    by (simp add: off put_pages_def fold_map comp_def p)
  with put_changed_pages [OF assms(1,2,4)] all show ?thesis by simp
qed

lemma dirty_pages_suffice_witness:
  "fst (the (dirty_offsets toy_hash (detector_of toy_hash 2 (Some [1, 2, 3, 4, 5])) [1, 2, 3, 9, 5] 2)) = [2] \<and>
   copy_at 2 (slice_of 2 4 [1, 2, 3, 9, 5]) [1, 2, 3, 4, 5] = ([1, 2, 3, 9, 5] :: u8 list)"
proof -
  let ?old = "[1, 2, 3, 4, 5] :: u8 list" and ?new = "[1, 2, 3, 9, 5] :: u8 list"
  have n: "page_count 2 ?new = 3" "page_count 2 ?old = 3" by (simp_all add: page_count_def)
  have pages: "page 2 0 ?new = [1, 2]" "page 2 1 ?new = [3, 9]" "page 2 2 ?new = [5]"
    "page 2 0 ?old = [1, 2]" "page 2 1 ?old = [3, 4]" "page 2 2 ?old = [5]"
    by (simp_all add: page_def slice_of_def numeral_eq_Suc)
  have three: "[0..<3] = [0, 1, 2 :: nat]" by code_simp
  have h: "toy_hash [3, 9] \<noteq> toy_hash [3, 4]" by (simp add: toy_hash_def)
  have sep: "page 2 i ?new = page 2 i ?old" if "toy_hash (page 2 i ?new) = toy_hash (page 2 i ?old)" for i
  proof -
    consider "i = 0" | "i = 1" | "i = 2" | "3 \<le> i" by linarith
    then show ?thesis
    proof cases
      case 4
      then show ?thesis by (simp add: page_def slice_of_def)
    qed (use that pages h in simp_all)
  qed
  have one: "dirty_offsets toy_hash new_detector ?old 2 = Some ([0, 2, 4], detector_of toy_hash 2 (Some ?old))"
    using first_call_all [of 2 ?old toy_hash] n by (simp add: three)
  have two: "dirty_offsets toy_hash (detector_of toy_hash 2 (Some ?old)) ?new 2 = Some ([2], detector_of toy_hash 2 (Some ?new))"
    using dirty_offsets_eq [of 2 ?new toy_hash "Some ?old"] n pages h
    by (simp add: three changed_def)
  have "fold (\<lambda>p. copy_at p (slice_of p (min (p + 2) (length ?new)) ?new)) [2] ?old = ?new"
    by (rule dirty_pages_suffice [OF _ _ _ sep one two, THEN conjunct2]) simp_all
  moreover have "min (2 + 2) (length ?new) = 4" by simp
  ultimately have "copy_at 2 (slice_of 2 4 ?new) ?old = ?new" by (simp only: fold_simps)
  with two show ?thesis by simp
qed

text \<open>\<open>Analyze\<close> counts what the detector reports: the dirty pages of two snapshots are as many as the
  offsets of the detector's second call, and clean and dirty pages add up.\<close>

theorem analyze_agrees_with_detector:
  assumes "0 < ps" "length cur < 2 ^ 64"
    and "dirty_offsets xxh (detector_of xxh ps (Some prev)) cur ps = Some (offsets, d)"
    and "analyze F xxh prev cur ps = Some st"
  shows "cs_dirty st = length offsets \<and> cs_dirty st + cs_clean st = cs_total st"
  using assms(3,4) dirty_offsets_eq [OF assms(1,2), of xxh "Some prev"]
    length_filter_le [of "changed xxh ps (Some prev) cur" "[0..<page_count ps cur]"]
  by (auto simp: analyze_eq [OF assms(1)] Let_def)

lemma analyze_agrees_with_detector_witness:
  "cs_dirty (the (analyze toy_floats toy_hash [1, 2] [1, 2, 3] 2)) =
   length (fst (the (dirty_offsets toy_hash (detector_of toy_hash 2 (Some [1, 2])) [1, 2, 3] 2)))"
proof -
  obtain o1 d1 where d: "dirty_offsets toy_hash (detector_of toy_hash 2 (Some [1, 2])) [1, 2, 3] 2 = Some (o1, d1)"
    using dirty_offsets_eq [of 2 "[1, 2, 3]" toy_hash "Some [1, 2]"] by simp
  obtain st where s: "analyze toy_floats toy_hash [1, 2] [1, 2, 3] 2 = Some st"
    using analyze_eq [of 2 toy_floats toy_hash "[1, 2]" "[1, 2, 3]"] by (simp add: Let_def)
  from analyze_agrees_with_detector [OF _ _ d s] d s show ?thesis by simp
qed

end
