(* ===== verification/PyText.thy ===== *)
theory PyText
  imports RustStr
begin

text \<open>
  The operations of Python's \<open>str\<close> and \<open>int\<close> that \<open>wraith-control\<close> uses. A text is a list of
  characters with code points below 256; on these the white space, the line boundaries and the
  decimal digits are those of Python. Code points beyond are outside the model.
\<close>

section \<open>White space and lines\<close>

definition py_space :: "char \<Rightarrow> bool" where
  "py_space c = (of_char c \<in> {9, 10, 11, 12, 13, 28, 29, 30, 31, 32, 133, 160 :: nat})"

text \<open>The line boundaries of \<open>str.splitlines\<close>, and those of a file in text mode (universal newlines).\<close>

definition py_break :: "char \<Rightarrow> bool" where
  "py_break c = (of_char c \<in> {10, 11, 12, 13, 28, 29, 30, 133 :: nat})"

definition file_break :: "char \<Rightarrow> bool" where
  "file_break c \<longleftrightarrow> c = newline \<or> c = carriage_return"

text \<open>A carriage return takes a newline after it along.\<close>

definition after_break :: "char \<Rightarrow> string \<Rightarrow> string" where
  "after_break c s = (case s of [] \<Rightarrow> [] | d # t \<Rightarrow> if c = carriage_return \<and> d = newline then t else s)"

lemma after_break_length: "length (after_break c s) \<le> length s"
  by (auto simp: after_break_def split: list.splits)

function break_lines :: "(char \<Rightarrow> bool) \<Rightarrow> string \<Rightarrow> string \<Rightarrow> string list" where
  "break_lines P acc [] = (if acc = [] then [] else [rev acc])"
| "break_lines P acc (c # cs) =
     (if P c then rev acc # break_lines P [] (after_break c cs) else break_lines P (c # acc) cs)"
  by pat_completeness auto
termination
  by (relation "measure (\<lambda>(P, acc, s). length s)") (auto intro: le_less_trans [OF after_break_length])

definition splitlines :: "string \<Rightarrow> string list" where
  "splitlines s = break_lines py_break [] s"

definition file_lines :: "string \<Rightarrow> string list" where
  "file_lines s = break_lines file_break [] s"

text \<open>\<open>s.strip()\<close>, \<open>s.split()\<close> and \<open>p in s\<close>.\<close>

definition py_strip :: "string \<Rightarrow> string" where
  "py_strip s = rev (dropWhile py_space (rev (dropWhile py_space s)))"

fun py_words :: "string \<Rightarrow> string \<Rightarrow> string list" where
  "py_words acc [] = (if acc = [] then [] else [rev acc])"
| "py_words acc (c # cs) =
     (if py_space c then (if acc = [] then py_words [] cs else rev acc # py_words [] cs)
      else py_words (c # acc) cs)"

definition py_split :: "string \<Rightarrow> string list" where
  "py_split s = py_words [] s"

definition py_contains :: "string \<Rightarrow> string \<Rightarrow> bool" where
  "py_contains p s = list_ex (starts_with p) (suffixes s)"

section \<open>Numbers\<close>

text \<open>\<open>int(s)\<close>: surrounding white space, a sign, digits with single underscores between them.
  \<open>None\<close> is a \<open>ValueError\<close>.\<close>

definition dec_val :: "char \<Rightarrow> nat option" where
  "dec_val c = (let n = of_char c :: nat in if 48 \<le> n \<and> n \<le> 57 then Some (n - 48) else None)"

fun int_digits :: "bool \<Rightarrow> nat \<Rightarrow> string \<Rightarrow> nat option" where
  "int_digits after_digit n [] = (if after_digit then Some n else None)"
| "int_digits after_digit n (c # cs) =
     (if c = CHR ''_'' then (if after_digit then int_digits False n cs else None)
      else case dec_val c of None \<Rightarrow> None | Some d \<Rightarrow> int_digits True (10 * n + d) cs)"

definition py_int :: "string \<Rightarrow> int option" where
  "py_int s = (case py_strip s of
       [] \<Rightarrow> None
     | c # cs \<Rightarrow>
         if c = CHR ''-'' then map_option (\<lambda>n. - int n) (int_digits False 0 cs)
         else if c = CHR ''+'' then map_option int (int_digits False 0 cs)
         else map_option int (int_digits False 0 (c # cs)))"

section \<open>Lines and words of plain text\<close>

text \<open>Lines without a boundary inside, each ended by a newline.\<close>

definition unlines :: "string list \<Rightarrow> string" where
  "unlines ls = concat (map (\<lambda>l. l @ [newline]) ls)"

lemma after_newline [simp]: "after_break newline s = s"
  by (simp add: after_break_def newline_def carriage_return_def split: list.splits)

lemma break_lines_append:
  "\<forall>c \<in> set l. \<not> P c \<Longrightarrow> P newline \<Longrightarrow>
   break_lines P acc (l @ newline # rest) = (rev acc @ l) # break_lines P [] rest"
  by (induction l arbitrary: acc) auto

lemma break_lines_unlines:
  "\<forall>l \<in> set ls. \<forall>c \<in> set l. \<not> P c \<Longrightarrow> P newline \<Longrightarrow> break_lines P [] (unlines ls) = ls"
  by (induction ls) (simp_all add: unlines_def break_lines_append)

lemma py_break_newline [simp]: "py_break newline" "file_break newline"
  by (simp_all add: py_break_def file_break_def newline_def)

lemma splitlines_unlines: "\<forall>l \<in> set ls. \<forall>c \<in> set l. \<not> py_break c \<Longrightarrow> splitlines (unlines ls) = ls"
  by (simp add: splitlines_def break_lines_unlines)

lemma py_break_space: "py_break c \<Longrightarrow> py_space c"
  by (auto simp: py_break_def py_space_def)

lemma py_words_word:
  "\<forall>c \<in> set w. \<not> py_space c \<Longrightarrow> py_words acc (w @ s) = py_words (rev w @ acc) s"
  by (induction w arbitrary: acc) auto

lemma py_split_word:
  "\<forall>c \<in> set w. \<not> py_space c \<Longrightarrow> w \<noteq> [] \<Longrightarrow> py_space d \<Longrightarrow> py_split (w @ d # s) = w # py_split s"
  by (simp add: py_split_def py_words_word)

lemma py_split_end: "\<forall>c \<in> set w. \<not> py_space c \<Longrightarrow> w \<noteq> [] \<Longrightarrow> py_split w = [w]"
  using py_words_word [of w "[]" "[]"] by (simp add: py_split_def)

lemma py_split_skip: "\<forall>c \<in> set w. py_space c \<Longrightarrow> py_split (w @ s) = py_split s"
  by (induction w) (simp_all add: py_split_def)

lemma py_strip_ident:
  assumes "s \<noteq> []" "\<not> py_space (hd s)" "\<not> py_space (last s)"
  shows "py_strip s = s"
proof -
  have "dropWhile py_space s = s" using assms(1,2) by (cases s) auto
  moreover have "dropWhile py_space (rev s) = rev s"
    using assms(1,3) by (cases "rev s") (auto simp: hd_rev [symmetric])
  ultimately show ?thesis by (simp add: py_strip_def)
qed

text \<open>Decimal numbers are read back.\<close>

lemma dec_digit: "d < 10 \<Longrightarrow> dec_val (digit_char d) = Some d"
  by (simp add: dec_val_def digit_char_def Let_def)

lemma digit_not_space: "d < 10 \<Longrightarrow> \<not> py_space (digit_char d)"
  by (auto simp: py_space_def digit_char_def)

lemma digit_char_neq: "d < 10 \<Longrightarrow> digit_char d \<notin> {CHR ''-'', CHR ''+'', CHR ''_''}"
proof
  assume d: "d < 10" "digit_char d \<in> {CHR ''-'', CHR ''+'', CHR ''_''}"
  then have "dec_val (digit_char d) = None" by (auto simp: dec_val_def)
  with dec_digit [OF d(1)] show False by simp
qed

lemma int_digits_map:
  "\<forall>d \<in> set ds. d < 10 \<Longrightarrow> ds \<noteq> [] \<or> b \<Longrightarrow>
   int_digits b n (map digit_char ds) = Some (foldl (\<lambda>n d. 10 * n + d) n ds)"
  using digit_char_neq by (induction ds arbitrary: b n) (fastforce simp: dec_digit)+

fun dec_digits :: "nat \<Rightarrow> nat list" where
  "dec_digits n = (if n < 10 then [n] else dec_digits (n div 10) @ [n mod 10])"

declare dec_digits.simps [simp del]

lemma show_nat_dec: "show_nat n = map digit_char (dec_digits n)"
proof (induction n rule: dec_digits.induct)
  case (1 n)
  then show ?case
    by (subst dec_digits.simps) (simp add: show_nat_def show_radix.simps [of 10 n])
qed

lemma dec_digits_bound: "d \<in> set (dec_digits n) \<Longrightarrow> d < 10"
proof (induction n rule: dec_digits.induct)
  case (1 n)
  then show ?case by (subst (asm) (2) dec_digits.simps) (auto split: if_splits)
qed

lemma dec_digits_nonempty: "dec_digits n \<noteq> []"
  by (subst dec_digits.simps) simp

lemma dec_digits_value: "foldl (\<lambda>n d. 10 * n + d) 0 (dec_digits n) = n"
proof (induction n rule: dec_digits.induct)
  case (1 n)
  then show ?case by (subst dec_digits.simps) simp
qed

lemma int_digits_show: "int_digits False 0 (show_nat n) = Some n"
  using dec_digits_bound dec_digits_nonempty
  by (simp add: show_nat_dec int_digits_map dec_digits_value)

lemma show_nat_chars:
  assumes "c \<in> set (show_nat n)"
  shows "\<not> py_space c" "c \<notin> {CHR ''-'', CHR ''+'', CHR ''_''}" "dec_val c \<noteq> None"
proof -
  obtain d where d: "d < 10" "c = digit_char d"
    using assms dec_digits_bound by (auto simp: show_nat_dec)
  then show "\<not> py_space c" "c \<notin> {CHR ''-'', CHR ''+'', CHR ''_''}" "dec_val c \<noteq> None"
    using digit_not_space digit_char_neq dec_digit by auto
qed

lemma show_int_nonspace: "c \<in> set (show_int i) \<Longrightarrow> \<not> py_space c"
  using show_nat_chars(1) by (auto simp: show_int_def py_space_def split: if_splits)

lemma show_int_nonempty: "show_int i \<noteq> []"
  by (simp add: show_int_def show_nat_nonempty)

lemma py_int_show: "py_int (show_int i) = Some i"
proof -
  have strip: "py_strip (show_int i) = show_int i"
    using show_int_nonempty [of i] show_int_nonspace [of _ i] by (intro py_strip_ident) simp_all
  show ?thesis
  proof (cases "i < 0")
    case True
    with strip show ?thesis by (simp add: py_int_def show_int_def int_digits_show)
  next
    case False
    obtain c cs where c: "show_nat (nat i) = c # cs" using show_nat_nonempty by (cases "show_nat (nat i)") auto
    then have "c \<in> set (show_nat (nat i))" by simp
    then have "c \<noteq> CHR ''-''" "c \<noteq> CHR ''+''" using show_nat_chars(2) by auto
    with False strip c int_digits_show [of "nat i"] show ?thesis by (simp add: py_int_def show_int_def)
  qed
qed

end
