(* ===== verification/PyEnv.thy ===== *)
theory PyEnv
  imports PyText
begin

text \<open>
  The ground of \<open>wraith-control\<close>: its exceptions (\<open>exceptions.py\<close>), its configuration
  (\<open>config.py\<close>), and what it asks of the operating system, of \<open>subprocess\<close> and of \<open>paramiko\<close> as a
  record of calls. A method is an action on the state of its object and of the system that
  returns or raises; the text of an exception is a constructor that carries what the message
  interpolates. Hints and log lines are left out, but for the one that records a transition.
\<close>

section \<open>Exceptions\<close>

text \<open>Exceptions of Python and of the packages; \<open>Interrupt\<close> is one outside \<open>Exception\<close>
  (\<open>KeyboardInterrupt\<close>, \<open>SystemExit\<close>).\<close>

datatype builtin_exn =
    TimeoutExpired
  | FileNotFoundError
  | PermissionError
  | ProcessLookupError
  | OSError string
  | ValueError string
  | KeyError string
  | IndexError
  | AssertionError
  | OtherException string
  | Interrupt

text \<open>The classes of \<open>exceptions.py\<close> that are raised, with \<open>CommandError\<close> of \<open>remote.py\<close>; the last
  group are plain \<open>WraithError\<close>s. The names and the messages of the checks of \<open>checks.py\<close> are part of
  them, because a failed check is raised with both.\<close>

datatype rollback_cause =
    ResumeStderr string
  | ResumeTimedOut
  | ResumeRaised builtin_exn

datatype check_name =
    SourceProcessExists | SourceProcessPermissions | SourceProcessSize | SourceArch
  | DestinationReachable | ArchitectureMatch | DestinationResources | BinariesPresent | RemoteChecks

text \<open>A message shows what a check has caught, an exception of type \<open>'e\<close>.\<close>

datatype 'e check_message =
    ProcessFound int
  | NoProcess int
  | PtraceConfirmed int
  | CannotReadMem string
  | DisappearedMidCheck int
  | RssWithin int
  | RssExceeds int
  | CannotReadUsage builtin_exn
  | SourceArchIs string bool
  | Reachable string
  | UnexpectedResponse string
  | CannotReach string 'e
  | ArchPair string string
  | CannotCheckArch 'e
  | Available int int
  | CannotDetermine 'e
  | BinariesFound
  | MissingBinaries "string list"
  | RemoteSkipped

datatype wraith_exn =
    PreflightError check_name "exn check_message"
  | CaptureTimedOut int
  | CapturerNotFound string
  | CapturerExited int string
  | TransferTimedOut int
  | TransmitterNotFound string
  | TransmitterExited int string
  | ReceiverStartError string exn
  | RestorerInvocation exn
  | RestorerStrictFds
  | RestorerExited int string
  | RollbackError wraith_exn rollback_cause
  | CommandError string int string
  | ParamikoMissing
  | SshAuthFailed string string
  | CannotConnect string string
  | NotConnected
and exn =
    Wraith wraith_exn
  | Builtin builtin_exn

fun is_preflight :: "wraith_exn \<Rightarrow> bool" where
  "is_preflight (PreflightError _ _) = True"
| "is_preflight _ = False"

fun is_capture_error :: "wraith_exn \<Rightarrow> bool" where
  "is_capture_error (CaptureTimedOut _) = True"
| "is_capture_error (CapturerNotFound _) = True"
| "is_capture_error (CapturerExited _ _) = True"
| "is_capture_error _ = False"

fun is_transfer_error :: "wraith_exn \<Rightarrow> bool" where
  "is_transfer_error (TransferTimedOut _) = True"
| "is_transfer_error (TransmitterNotFound _) = True"
| "is_transfer_error (TransmitterExited _ _) = True"
| "is_transfer_error (ReceiverStartError _ _) = True"
| "is_transfer_error _ = False"

fun is_restore_error :: "wraith_exn \<Rightarrow> bool" where
  "is_restore_error (RestorerInvocation _) = True"
| "is_restore_error RestorerStrictFds = True"
| "is_restore_error (RestorerExited _ _) = True"
| "is_restore_error _ = False"

fun is_rollback :: "wraith_exn \<Rightarrow> bool" where
  "is_rollback (RollbackError _ _) = True"
| "is_rollback _ = False"

text \<open>\<open>except Exception\<close>, and \<open>except OSError\<close>.\<close>

definition is_exception :: "exn \<Rightarrow> bool" where
  "is_exception e \<longleftrightarrow> e \<noteq> Builtin Interrupt"

fun is_os_error :: "builtin_exn \<Rightarrow> bool" where
  "is_os_error FileNotFoundError = True"
| "is_os_error PermissionError = True"
| "is_os_error ProcessLookupError = True"
| "is_os_error (OSError _) = True"
| "is_os_error _ = False"

section \<open>Actions that catch\<close>

text \<open>\<open>catch_act m h\<close> is \<open>try: m except \<dots>: h\<close>, where \<open>h\<close> raises again what it does not handle;
  \<open>finally_act m f\<close> runs \<open>f\<close> at the end of \<open>m\<close>, whatever the outcome; what \<open>f\<close> raises takes over.\<close>

definition catch_act :: "('s, 'e, 'a) act \<Rightarrow> ('e \<Rightarrow> ('s, 'd, 'a) act) \<Rightarrow> ('s, 'd, 'a) act" where
  "catch_act m h = (\<lambda>s. case m s of (Inl e, t) \<Rightarrow> h e t | (Inr x, t) \<Rightarrow> (Inr x, t))"

definition finally_act :: "('s, 'e, 'a) act \<Rightarrow> ('s, 'e, unit) act \<Rightarrow> ('s, 'e, 'a) act" where
  "finally_act m f = (\<lambda>s. case m s of (r, t) \<Rightarrow> (case f t of (Inl e, u) \<Rightarrow> (Inl e, u) | (Inr _, u) \<Rightarrow> (r, u)))"

definition effect_act :: "('s \<Rightarrow> 's) \<Rightarrow> ('s, 'e, unit) act" where
  "effect_act f = (\<lambda>s. (Inr (), f s))"

lemma catch_act_step [act_simps]:
  "m s = (Inr x, t) \<Longrightarrow> catch_act m h s = (Inr x, t)"
  "m s = (Inl e, t) \<Longrightarrow> catch_act m h s = h e t"
  by (simp_all add: catch_act_def)

lemma finally_act_step [act_simps]:
  "m s = (r, t) \<Longrightarrow> f t = (Inr u, v) \<Longrightarrow> finally_act m f s = (r, v)"
  "m s = (r, t) \<Longrightarrow> f t = (Inl e, v) \<Longrightarrow> finally_act m f s = (Inl e, v)"
  by (simp_all add: finally_act_def)

lemma effect_act_app [act_simps]: "effect_act f s = (Inr (), f s)"
  by (simp add: effect_act_def)

section \<open>Configuration\<close>

record destination =
  d_hostname :: string
  d_port :: int
  d_username :: string
  d_ssh_key :: "string option"
  d_ssh_timeout_s :: int
  d_transfer_port :: int
  d_capturer_path :: string
  d_restorer_path :: string
  d_receiver_path :: string
  d_transmitter_path :: string
  d_snapshot_dir :: string

text \<open>\<open>__post_init__\<close>: the \<open>ValueError\<close> of each class, by what it is about; \<open>exists\<close> is
  \<open>os.path.exists\<close>.\<close>

definition destination_check :: "(string \<Rightarrow> bool) \<Rightarrow> destination \<Rightarrow> builtin_exn + unit" where
  "destination_check exists d =
     (if d_hostname d = [] then Inl (ValueError ''hostname'')
      else if \<not> (1 \<le> d_port d \<and> d_port d \<le> 65535) then Inl (ValueError ''port'')
      else (case d_ssh_key d of
          Some key \<Rightarrow> if key \<noteq> [] \<and> \<not> exists key then Inl (ValueError ''ssh_key'') else Inr ()
        | None \<Rightarrow> Inr ()))"

definition transfer_addr :: "destination \<Rightarrow> string" where
  "transfer_addr d = d_hostname d @ '':'' @ show_int (d_transfer_port d)"

definition ssh_addr :: "destination \<Rightarrow> string" where
  "ssh_addr d = d_username d @ ''@'' @ d_hostname d @ '':'' @ show_int (d_port d)"

text \<open>The type of \<open>float\<close>s is a parameter, and so are the operations on them: \<open>x <= 0\<close>, the test
  \<open>rss_kb / (1024 * 1024) <= limit\<close>, and \<open>int(rss_kb * 1.5)\<close>.\<close>

record 'f pyfloat =
  pf_nonpositive :: "'f \<Rightarrow> bool"
  pf_within :: "int \<Rightarrow> 'f \<Rightarrow> bool"
  pf_half_more :: "int \<Rightarrow> int"

record 'f capture_config =
  cc_freeze_timeout_s :: int
  cc_max_memory_gb :: 'f
  cc_skip_validation :: bool

definition capture_config_check :: "'f pyfloat \<Rightarrow> 'f capture_config \<Rightarrow> builtin_exn + unit" where
  "capture_config_check F c =
     (if cc_freeze_timeout_s c \<le> 0 then Inl (ValueError ''freeze_timeout_s'')
      else if pf_nonpositive F (cc_max_memory_gb c) then Inl (ValueError ''max_memory_gb'')
      else Inr ())"

record transfer_config =
  tc_timeout_s :: int
  tc_retry_count :: int
  tc_receiver_start_timeout_s :: int

definition transfer_config_check :: "transfer_config \<Rightarrow> builtin_exn + unit" where
  "transfer_config_check c =
     (if tc_timeout_s c \<le> 0 then Inl (ValueError ''timeout_s'')
      else if tc_retry_count c < 0 then Inl (ValueError ''retry_count'')
      else Inr ())"

record restore_config =
  rc_startup_timeout_s :: int
  rc_strict_fds :: bool
  rc_keep_snapshot :: bool

record 'f migration_config =
  cfg_destination :: destination
  cfg_capture :: "'f capture_config"
  cfg_transfer :: transfer_config
  cfg_restore :: restore_config

text \<open>The defaults of the fields.\<close>

definition default_destination :: "string \<Rightarrow> destination" where
  "default_destination host = \<lparr>d_hostname = host, d_port = 22, d_username = ''root'', d_ssh_key = None,
     d_ssh_timeout_s = 10, d_transfer_port = 9999, d_capturer_path = ''wraith-capturer'',
     d_restorer_path = ''wraith-restorer'', d_receiver_path = ''wraith-receiver'',
     d_transmitter_path = ''wraith-transmitter'', d_snapshot_dir = ''/tmp''\<rparr>"

definition default_capture :: "'f \<Rightarrow> 'f capture_config" where
  "default_capture gb64 = \<lparr>cc_freeze_timeout_s = 30, cc_max_memory_gb = gb64, cc_skip_validation = False\<rparr>"

definition default_transfer :: transfer_config where
  "default_transfer = \<lparr>tc_timeout_s = 300, tc_retry_count = 3, tc_receiver_start_timeout_s = 15\<rparr>"

definition default_restore :: restore_config where
  "default_restore = \<lparr>rc_startup_timeout_s = 60, rc_strict_fds = False, rc_keep_snapshot = False\<rparr>"

section \<open>The system as the orchestrator sees it\<close>

text \<open>The states of a migration.\<close>

datatype mstate =
    INIT | PREFLIGHT | CAPTURING | TRANSFERRING | RESTORING | COMPLETE | ROLLING_BACK | ROLLED_BACK | FAILED

datatype ssh_error =
    SshNoParamiko
  | SshAuth string
  | SshUnreachable string
  | SshOther builtin_exn

text \<open>A field per call: \<open>os.path.isdir\<close>; \<open>os.open\<close> for reading with \<open>os.close\<close>; reading a text file;
  \<open>platform.machine\<close>; \<open>SSHClient.connect\<close>, a command over the connection with its output, error
  output and exit status, a command in a session of its own that is not waited for, and closing;
  \<open>mkstemp\<close> with \<open>os.close\<close>; \<open>os.path.getsize\<close>, \<open>os.path.exists\<close>, \<open>os.unlink\<close>; \<open>subprocess.run\<close> with
  a timeout in seconds; \<open>os.kill\<close>; \<open>time.sleep\<close> in milliseconds; the log line of a transition.\<close>

record 'y pysys =
  y_isdir :: "string \<Rightarrow> 'y \<Rightarrow> bool"
  y_open_rdonly :: "string \<Rightarrow> ('y, builtin_exn, unit) act"
  y_read_text :: "string \<Rightarrow> 'y \<Rightarrow> builtin_exn + string"
  y_machine :: "'y \<Rightarrow> string"
  y_ssh_connect :: "destination \<Rightarrow> ('y, ssh_error, unit) act"
  y_ssh_exec :: "string \<Rightarrow> int \<Rightarrow> ('y, builtin_exn, string \<times> string \<times> int) act"
  y_ssh_background :: "string \<Rightarrow> ('y, builtin_exn, unit) act"
  y_ssh_close :: "'y \<Rightarrow> 'y"
  y_mkstemp :: "string \<Rightarrow> string \<Rightarrow> ('y, builtin_exn, string) act"
  y_getsize :: "string \<Rightarrow> 'y \<Rightarrow> builtin_exn + nat"
  y_exists :: "string \<Rightarrow> 'y \<Rightarrow> bool"
  y_unlink :: "string \<Rightarrow> ('y, builtin_exn, unit) act"
  y_run :: "string list \<Rightarrow> int \<Rightarrow> ('y, builtin_exn, int \<times> string \<times> string) act"
  y_kill :: "int \<Rightarrow> int \<Rightarrow> ('y, builtin_exn, unit) act"
  y_sleep :: "nat \<Rightarrow> 'y \<Rightarrow> 'y"
  y_log_state :: "mstate \<Rightarrow> mstate \<Rightarrow> 'y \<Rightarrow> 'y"

text \<open>What the objects of a migration hold: of the \<open>Teleporter\<close> its state, the two paths and the
  process it started; of the \<open>RemoteSession\<close> whether it has a client.\<close>

record 'y tele =
  t_state :: mstate
  t_snapshot :: "string option"
  t_remote :: "string option"
  t_dest_pid :: "int option"
  t_client :: bool
  t_sys :: 'y

definition sys_act :: "('y, builtin_exn, 'a) act \<Rightarrow> ('y tele, exn, 'a) act" where
  "sys_act m = (\<lambda>t. case m (t_sys t) of
     (Inl e, y) \<Rightarrow> (Inl (Builtin e), t\<lparr>t_sys := y\<rparr>) | (Inr x, y) \<Rightarrow> (Inr x, t\<lparr>t_sys := y\<rparr>))"

definition sys_effect :: "('y \<Rightarrow> 'y) \<Rightarrow> 'y tele \<Rightarrow> 'y tele" where
  "sys_effect f t = t\<lparr>t_sys := f (t_sys t)\<rparr>"

definition sys_look :: "('y \<Rightarrow> builtin_exn + 'a) \<Rightarrow> ('y tele, exn, 'a) act" where
  "sys_look m = (\<lambda>t. (map_err Builtin (m (t_sys t)), t))"

section \<open>RemoteSession\<close>

definition session_connect :: "'y pysys \<Rightarrow> destination \<Rightarrow> ('y tele, exn, unit) act" where
  "session_connect Y d = (\<lambda>t. if t_client t then (Inr (), t)
     else (case y_ssh_connect Y d (t_sys t) of
         (Inr _, y) \<Rightarrow> (Inr (), t\<lparr>t_client := True, t_sys := y\<rparr>)
       | (Inl e, y) \<Rightarrow> (Inl (case e of
             SshNoParamiko \<Rightarrow> Wraith ParamikoMissing
           | SshAuth m \<Rightarrow> Wraith (SshAuthFailed (ssh_addr d) m)
           | SshUnreachable m \<Rightarrow> Wraith (CannotConnect (ssh_addr d) m)
           | SshOther b \<Rightarrow> Builtin b), t\<lparr>t_sys := y\<rparr>)))"

definition session_close :: "'y pysys \<Rightarrow> 'y tele \<Rightarrow> 'y tele" where
  "session_close Y t = (if t_client t then t\<lparr>t_client := False, t_sys := y_ssh_close Y (t_sys t)\<rparr> else t)"

definition ensure_connected :: "('y tele, exn, unit) act" where
  "ensure_connected = (\<lambda>t. if t_client t then (Inr (), t) else (Inl (Wraith NotConnected), t))"

text \<open>\<open>timeout or self._dest.ssh_timeout_s\<close>: no timeout and a timeout of zero are the default.\<close>

definition effective_timeout :: "destination \<Rightarrow> int option \<Rightarrow> int" where
  "effective_timeout d timeout = (case timeout of None \<Rightarrow> d_ssh_timeout_s d
     | Some n \<Rightarrow> if n = 0 then d_ssh_timeout_s d else n)"

definition session_exec ::
    "'y pysys \<Rightarrow> destination \<Rightarrow> string \<Rightarrow> int option \<Rightarrow> bool \<Rightarrow> ('y tele, exn, string \<times> string \<times> int) act" where
  "session_exec Y d cmd timeout check =
     bind_act ensure_connected (\<lambda>_.
     bind_act (sys_act (y_ssh_exec Y cmd (effective_timeout d timeout))) (\<lambda>(out, err, code).
     if check \<and> code \<noteq> 0 then fail_act (Wraith (CommandError cmd code err))
     else ok_act (out, err, code)))"

definition session_exec_background :: "'y pysys \<Rightarrow> string \<Rightarrow> ('y tele, exn, unit) act" where
  "session_exec_background Y cmd =
     bind_act ensure_connected (\<lambda>_.
     sys_act (y_ssh_background Y (''nohup '' @ cmd @ '' </dev/null >/tmp/wraith_receiver.log 2>&1 &'')))"

lemma sys_act_Inl [act_simps]:
  "m (t_sys t) = (Inl e, y) \<Longrightarrow> sys_act m t = (Inl (Builtin e), t\<lparr>t_sys := y\<rparr>)"
  "m (t_sys t) = (Inr x, y) \<Longrightarrow> sys_act m t = (Inr x, t\<lparr>t_sys := y\<rparr>)"
  by (simp_all add: sys_act_def)

end
