(* ===== verification/Checks.thy ===== *)
theory Checks
  imports PyEnv
begin

text \<open>
  The checks before a migration: \<open>wraith-control/wraith/checks.py\<close>. A check records its result and
  catches what it expects to be raised; anything else leaves \<open>run_all\<close>. The message of a result is
  a constructor with the values it shows.
\<close>

section \<open>Helpers\<close>

definition proc_status :: "int \<Rightarrow> string" where
  "proc_status pid = ''/proc/'' @ show_int pid @ ''/status''"

text \<open>\<open>_read_proc_status_kb\<close>: the second word of the first line that starts with the field.\<close>

definition status_field_kb :: "string \<Rightarrow> string \<Rightarrow> builtin_exn + int" where
  "status_field_kb field content =
     (case find (starts_with (field @ '':'')) (file_lines content) of
        None \<Rightarrow> Inl (KeyError field)
      | Some line \<Rightarrow>
          if length (py_split line) < 2 then Inl IndexError
          else ok_or (ValueError (py_split line ! 1)) (py_int (py_split line ! 1)))"

definition read_proc_status_kb :: "'y pysys \<Rightarrow> int \<Rightarrow> string \<Rightarrow> 'y \<Rightarrow> builtin_exn + int" where
  "read_proc_status_kb Y pid field y =
     bind_res (y_read_text Y (proc_status pid) y) (status_field_kb field)"

text \<open>\<open>_parse_free_available\<close>: the first line of \<open>Mem:\<close> that has enough columns.\<close>

fun free_lines :: "string \<Rightarrow> string list \<Rightarrow> builtin_exn + int" where
  "free_lines out [] = Inl (ValueError out)"
| "free_lines out (line # rest) =
     (if starts_with ''Mem:'' line
      then (let parts = py_split line in
        if length parts \<ge> 7 then ok_or (ValueError (parts ! 6)) (py_int (parts ! 6))
        else if length parts \<ge> 4 then ok_or (ValueError (parts ! 3)) (py_int (parts ! 3))
        else free_lines out rest)
      else free_lines out rest)"

definition parse_free_available :: "string \<Rightarrow> builtin_exn + int" where
  "parse_free_available out = free_lines out (splitlines out)"

section \<open>Results\<close>

fun show_check_name :: "check_name \<Rightarrow> string" where
  "show_check_name SourceProcessExists = ''source_process_exists''"
| "show_check_name SourceProcessPermissions = ''source_process_permissions''"
| "show_check_name SourceProcessSize = ''source_process_size''"
| "show_check_name SourceArch = ''source_arch''"
| "show_check_name DestinationReachable = ''destination_reachable''"
| "show_check_name ArchitectureMatch = ''architecture_match''"
| "show_check_name DestinationResources = ''destination_resources''"
| "show_check_name BinariesPresent = ''binaries_present''"
| "show_check_name RemoteChecks = ''remote_checks''"

record check_result =
  cr_name :: check_name
  cr_passed :: bool
  cr_message :: "exn check_message"
  cr_blocking :: bool

section \<open>Local checks\<close>

definition check_source_process_exists :: "'y pysys \<Rightarrow> int \<Rightarrow> 'y \<Rightarrow> check_result" where
  "check_source_process_exists Y pid y = (let found = y_isdir Y (''/proc/'' @ show_int pid) y in
     \<lparr>cr_name = SourceProcessExists, cr_passed = found,
      cr_message = (if found then ProcessFound pid else NoProcess pid), cr_blocking = True\<rparr>)"

definition check_source_process_permissions ::
    "'y pysys \<Rightarrow> int \<Rightarrow> ('y tele, exn, check_result) act" where
  "check_source_process_permissions Y pid = (let mem_path = ''/proc/'' @ show_int pid @ ''/mem'';
       result = (\<lambda>ok m. \<lparr>cr_name = SourceProcessPermissions, cr_passed = ok, cr_message = m, cr_blocking = True\<rparr>)
     in catch_act
       (bind_act (sys_act (y_open_rdonly Y mem_path)) (\<lambda>_. ok_act (result True (PtraceConfirmed pid))))
       (\<lambda>e. if e = Builtin PermissionError then ok_act (result False (CannotReadMem mem_path))
          else if e = Builtin FileNotFoundError then ok_act (result False (DisappearedMidCheck pid))
          else fail_act e))"

text \<open>The only check whose failure decides whether it is blocking; \<open>except Exception\<close> lets an
  interrupt through.\<close>

definition check_source_process_size ::
    "'y pysys \<Rightarrow> 'f pyfloat \<Rightarrow> 'f migration_config \<Rightarrow> int \<Rightarrow> ('y tele, exn, check_result) act" where
  "check_source_process_size Y F cfg pid = (let limit = cc_max_memory_gb (cfg_capture cfg);
       result = (\<lambda>ok m. \<lparr>cr_name = SourceProcessSize, cr_passed = ok, cr_message = m, cr_blocking = \<not> ok\<rparr>)
     in (\<lambda>t. case read_proc_status_kb Y pid ''VmRSS'' (t_sys t) of
         Inr kb \<Rightarrow> (Inr (if pf_within F kb limit then result True (RssWithin kb) else result False (RssExceeds kb)), t)
       | Inl e \<Rightarrow> if e = Interrupt then (Inl (Builtin e), t) else (Inr (result False (CannotReadUsage e)), t)))"

definition check_source_arch :: "'y pysys \<Rightarrow> 'y \<Rightarrow> check_result" where
  "check_source_arch Y y = (let arch = y_machine Y y; ok = arch = ''x86_64'' in
     \<lparr>cr_name = SourceArch, cr_passed = ok, cr_message = SourceArchIs arch ok, cr_blocking = True\<rparr>)"

section \<open>Remote checks\<close>

text \<open>\<open>guarded name m fail\<close>: a check whose body is in \<open>try \<dots> except Exception\<close>.\<close>

definition guarded :: "('y tele, exn, bool \<times> exn check_message) act \<Rightarrow> (exn \<Rightarrow> exn check_message) \<Rightarrow>
    check_name \<Rightarrow> ('y tele, exn, check_result) act" where
  "guarded m failed name =
     catch_act
       (bind_act m (\<lambda>(ok, msg). ok_act \<lparr>cr_name = name, cr_passed = ok, cr_message = msg, cr_blocking = True\<rparr>))
       (\<lambda>e. if is_exception e
          then ok_act \<lparr>cr_name = name, cr_passed = False, cr_message = failed e, cr_blocking = True\<rparr>
          else fail_act e)"

definition check_destination_reachable ::
    "'y pysys \<Rightarrow> destination \<Rightarrow> ('y tele, exn, check_result) act" where
  "check_destination_reachable Y d = guarded
     (bind_act (session_exec Y d ''echo wraith-ping'' (Some 5) True) (\<lambda>(out, err, code).
      let ok = py_contains ''wraith-ping'' out
      in ok_act (ok, if ok then Reachable (ssh_addr d) else UnexpectedResponse (ssh_addr d))))
     (CannotReach (ssh_addr d)) DestinationReachable"

definition check_destination_arch :: "'y pysys \<Rightarrow> destination \<Rightarrow> ('y tele, exn, check_result) act" where
  "check_destination_arch Y d = (\<lambda>t. let src_arch = y_machine Y (t_sys t) in guarded
     (bind_act (session_exec Y d ''uname -m'' (Some 5) True) (\<lambda>(out, err, code).
      let dest_arch = py_strip out in ok_act (src_arch = dest_arch, ArchPair src_arch dest_arch)))
     CannotCheckArch ArchitectureMatch t)"

definition check_destination_resources ::
    "'y pysys \<Rightarrow> 'f pyfloat \<Rightarrow> destination \<Rightarrow> int \<Rightarrow> ('y tele, exn, check_result) act" where
  "check_destination_resources Y F d pid = guarded
     (bind_act (sys_look (read_proc_status_kb Y pid ''VmRSS'')) (\<lambda>rss_kb.
      bind_act (session_exec Y d ''free -k'' (Some 5) True) (\<lambda>(out, err, code).
      bind_act (look (\<lambda>_. map_err Builtin (parse_free_available out))) (\<lambda>avail_kb.
      ok_act (avail_kb \<ge> pf_half_more F rss_kb, Available avail_kb (pf_half_more F rss_kb))))))
     CannotDetermine DestinationResources"

text \<open>One binary: whether it is missing.\<close>

definition binary_missing :: "'y pysys \<Rightarrow> destination \<Rightarrow> string \<Rightarrow> ('y tele, exn, bool) act" where
  "binary_missing Y d path = catch_act
     (bind_act (session_exec Y d (''command -v '' @ path @ '' || test -x '' @ path) None False)
       (\<lambda>(out, err, code). ok_act (code \<noteq> 0)))
     (\<lambda>e. if is_exception e then ok_act True else fail_act e)"

definition check_binaries_present :: "'y pysys \<Rightarrow> destination \<Rightarrow> ('y tele, exn, check_result) act" where
  "check_binaries_present Y d =
     bind_act (binary_missing Y d (d_restorer_path d)) (\<lambda>no_restorer.
     bind_act (binary_missing Y d (d_receiver_path d)) (\<lambda>no_receiver.
     let missing = (if no_restorer then [d_restorer_path d] else []) @ (if no_receiver then [d_receiver_path d] else [])
     in ok_act \<lparr>cr_name = BinariesPresent, cr_passed = (missing = []),
          cr_message = (if missing = [] then BinariesFound else MissingBinaries missing), cr_blocking = True\<rparr>))"

section \<open>The checker\<close>

definition remote_checks_skipped :: check_result where
  "remote_checks_skipped = \<lparr>cr_name = RemoteChecks, cr_passed = False, cr_message = RemoteSkipped, cr_blocking = False\<rparr>"

text \<open>\<open>with_session\<close> says whether the checker was given a session. The results, in order.\<close>

definition run_checks ::
    "'y pysys \<Rightarrow> 'f pyfloat \<Rightarrow> 'f migration_config \<Rightarrow> bool \<Rightarrow> int \<Rightarrow> ('y tele, exn, check_result list) act" where
  "run_checks Y F cfg with_session pid = (let d = cfg_destination cfg in
     bind_act (\<lambda>t. (Inr (check_source_process_exists Y pid (t_sys t)), t)) (\<lambda>r1.
     bind_act (check_source_process_permissions Y pid) (\<lambda>r2.
     bind_act (check_source_process_size Y F cfg pid) (\<lambda>r3.
     bind_act (\<lambda>t. (Inr (check_source_arch Y (t_sys t)), t)) (\<lambda>r4.
     if with_session then
       bind_act (check_destination_reachable Y d) (\<lambda>r5.
       bind_act (check_destination_arch Y d) (\<lambda>r6.
       bind_act (check_destination_resources Y F d pid) (\<lambda>r7.
       bind_act (check_binaries_present Y d) (\<lambda>r8.
       ok_act [r1, r2, r3, r4, r5, r6, r7, r8]))))
     else ok_act [r1, r2, r3, r4, remote_checks_skipped])))))"

definition checks_passed :: "check_result list \<Rightarrow> bool" where
  "checks_passed results = list_all (\<lambda>r. cr_blocking r \<longrightarrow> cr_passed r) results"

definition blocking_failures :: "check_result list \<Rightarrow> check_result list" where
  "blocking_failures results = filter (\<lambda>r. \<not> cr_passed r \<and> cr_blocking r) results"

definition check_warnings :: "check_result list \<Rightarrow> check_result list" where
  "check_warnings results = filter (\<lambda>r. \<not> cr_passed r \<and> \<not> cr_blocking r) results"

lemma checks_passed_iff: "checks_passed results \<longleftrightarrow> blocking_failures results = []"
  by (induction results) (auto simp: checks_passed_def blocking_failures_def)

end
