(* ===== verification/Teleporter.thy ===== *)
theory Teleporter
  imports Checks
begin

text \<open>
  The orchestration of a migration: \<open>wraith-control/wraith/teleporter.py\<close>. The methods of the
  \<open>Teleporter\<close> are actions on what it holds and on the system; the identifier of the migration is
  an argument. The elapsed time of the result and the log lines are left out, except that of a
  transition.
\<close>

record migration_result =
  mg_id :: string
  mg_source_pid :: int
  mg_destination_pid :: int
  mg_destination_host :: string
  mg_snapshot_size :: nat

definition new_tele :: "'y \<Rightarrow> 'y tele" where
  "new_tele y = \<lparr>t_state = INIT, t_snapshot = None, t_remote = None, t_dest_pid = None, t_client = False, t_sys = y\<rparr>"

definition transition_to :: "'y pysys \<Rightarrow> mstate \<Rightarrow> 'y tele \<Rightarrow> 'y tele" where
  "transition_to Y new_state t = t\<lparr>t_state := new_state, t_sys := y_log_state Y (t_state t) new_state (t_sys t)\<rparr>"

abbreviation transition :: "'y pysys \<Rightarrow> mstate \<Rightarrow> ('y tele, exn, unit) act" where
  "transition Y new_state \<equiv> effect_act (transition_to Y new_state)"

section \<open>The phases\<close>

definition run_preflight ::
    "'y pysys \<Rightarrow> 'f pyfloat \<Rightarrow> 'f migration_config \<Rightarrow> int \<Rightarrow> ('y tele, exn, unit) act" where
  "run_preflight Y F cfg pid =
     bind_act (transition Y PREFLIGHT) (\<lambda>_.
     bind_act (run_checks Y F cfg True pid) (\<lambda>results.
     case blocking_failures results of
       [] \<Rightarrow> ok_act ()
     | first # _ \<Rightarrow> fail_act (Wraith (PreflightError (cr_name first) (cr_message first)))))"

definition snapshot_prefix :: "string \<Rightarrow> string" where
  "snapshot_prefix mid = ''wraith_'' @ take 8 mid @ ''_''"

definition capture_cmd :: "destination \<Rightarrow> int \<Rightarrow> string \<Rightarrow> string list" where
  "capture_cmd d pid path = [d_capturer_path d, ''capture'', ''--pid'', show_int pid, ''--output'', path]"

definition run_capture ::
    "'y pysys \<Rightarrow> 'f migration_config \<Rightarrow> string \<Rightarrow> int \<Rightarrow> ('y tele, exn, unit) act" where
  "run_capture Y cfg mid pid = (let d = cfg_destination cfg; timeout = cc_freeze_timeout_s (cfg_capture cfg) in
     bind_act (transition Y CAPTURING) (\<lambda>_.
     bind_act (sys_act (y_mkstemp Y (snapshot_prefix mid) ''.pb'')) (\<lambda>path.
     bind_act (effect_act (\<lambda>t. t\<lparr>t_snapshot := Some path\<rparr>)) (\<lambda>_.
     bind_act (catch_act (sys_act (y_run Y (capture_cmd d pid path) timeout))
       (\<lambda>e. if e = Builtin TimeoutExpired then fail_act (Wraith (CaptureTimedOut timeout))
          else if e = Builtin FileNotFoundError then fail_act (Wraith (CapturerNotFound (d_capturer_path d)))
          else fail_act e)) (\<lambda>(code, out, err).
     if code \<noteq> 0 then fail_act (Wraith (CapturerExited code (py_strip err)))
     else bind_act (sys_look (y_getsize Y path)) (\<lambda>_. ok_act ()))))))"

definition remote_snapshot_path :: "destination \<Rightarrow> string \<Rightarrow> string" where
  "remote_snapshot_path d mid = d_snapshot_dir d @ ''/wraith_'' @ take 8 mid @ ''.pb''"

definition receiver_cmd :: "destination \<Rightarrow> string \<Rightarrow> string" where
  "receiver_cmd d remote_path = d_receiver_path d @ '' --listen 0.0.0.0:'' @ show_int (d_transfer_port d) @
     '' --output '' @ remote_path"

definition transmitter_args :: "'f migration_config \<Rightarrow> int \<Rightarrow> string \<Rightarrow> string list" where
  "transmitter_args cfg pid snapshot = [
     ''--snapshot'', snapshot,
     ''--dest'', transfer_addr (cfg_destination cfg),
     ''--retries'', show_int (tc_retry_count (cfg_transfer cfg)),
     ''--timeout'', show_int (tc_timeout_s (cfg_transfer cfg)),
     ''--pid'', show_int pid]"

definition run_transfer ::
    "'y pysys \<Rightarrow> 'f migration_config \<Rightarrow> string \<Rightarrow> int \<Rightarrow> ('y tele, exn, unit) act" where
  "run_transfer Y cfg mid pid = (let d = cfg_destination cfg; timeout = tc_timeout_s (cfg_transfer cfg);
       remote_path = remote_snapshot_path d mid in
     bind_act (transition Y TRANSFERRING) (\<lambda>_.
     bind_act (\<lambda>t. (ok_or (Builtin AssertionError) (t_snapshot t), t)) (\<lambda>snapshot.
     bind_act (effect_act (\<lambda>t. t\<lparr>t_remote := Some remote_path\<rparr>)) (\<lambda>_.
     bind_act (catch_act (session_exec_background Y (receiver_cmd d remote_path))
       (\<lambda>e. if is_exception e then fail_act (Wraith (ReceiverStartError (d_hostname d) e)) else fail_act e)) (\<lambda>_.
     bind_act (effect_act (sys_effect (y_sleep Y 1500))) (\<lambda>_.
     bind_act (catch_act (sys_act (y_run Y (d_transmitter_path d # transmitter_args cfg pid snapshot) (timeout + 30)))
       (\<lambda>e. if e = Builtin TimeoutExpired then fail_act (Wraith (TransferTimedOut timeout))
          else if e = Builtin FileNotFoundError then fail_act (Wraith (TransmitterNotFound (d_transmitter_path d)))
          else fail_act e)) (\<lambda>(code, out, err).
     if code \<noteq> 0 then fail_act (Wraith (TransmitterExited code (py_strip err)))
     else ok_act ())))))))"

text \<open>\<open>_parse_restored_pid\<close>: the number after the first \<open>Process\<close> at the head of a line, or -1.\<close>

fun restored_pid_in :: "string list \<Rightarrow> int" where
  "restored_pid_in [] = -1"
| "restored_pid_in (line # rest) = (let parts = py_split (py_strip line) in
     if length parts \<ge> 2 \<and> parts ! 0 = ''Process''
     then (case py_int (parts ! 1) of Some p \<Rightarrow> p | None \<Rightarrow> restored_pid_in rest)
     else restored_pid_in rest)"

definition parse_restored_pid :: "string \<Rightarrow> int" where
  "parse_restored_pid output = restored_pid_in (splitlines output)"

definition restorer_cmd :: "'f migration_config \<Rightarrow> string \<Rightarrow> string" where
  "restorer_cmd cfg remote_path = d_restorer_path (cfg_destination cfg) @ '' --snapshot '' @ remote_path @
     (if rc_strict_fds (cfg_restore cfg) then '' --strict-fds'' else [])"

definition run_restore :: "'y pysys \<Rightarrow> 'f migration_config \<Rightarrow> ('y tele, exn, unit) act" where
  "run_restore Y cfg = (let d = cfg_destination cfg; restore = cfg_restore cfg in
     bind_act (transition Y RESTORING) (\<lambda>_.
     bind_act (\<lambda>t. (ok_or (Builtin AssertionError) (t_remote t), t)) (\<lambda>remote_path.
     bind_act (catch_act (session_exec Y d (restorer_cmd cfg remote_path) (Some (rc_startup_timeout_s restore)) False)
       (\<lambda>e. if is_exception e then fail_act (Wraith (RestorerInvocation e)) else fail_act e)) (\<lambda>(out, err, code).
     if code = 2 \<and> rc_strict_fds restore then fail_act (Wraith RestorerStrictFds)
     else if code \<noteq> 0 then fail_act (Wraith (RestorerExited code (py_strip err)))
     else
       bind_act (effect_act (\<lambda>t. t\<lparr>t_dest_pid := Some (parse_restored_pid out)\<rparr>)) (\<lambda>_.
       if rc_keep_snapshot restore then ok_act ()
       else catch_act
         (bind_act (session_exec Y d (''rm -f '' @ remote_path) None True) (\<lambda>_. ok_act ()))
         (\<lambda>e. if is_exception e then ok_act () else fail_act e))))))"

definition sigkill :: int where "sigkill = 9"
definition sigterm :: int where "sigterm = 15"

definition terminate_source :: "'y pysys \<Rightarrow> int \<Rightarrow> ('y tele, exn, unit) act" where
  "terminate_source Y pid = catch_act
     (bind_act (sys_act (y_kill Y pid sigterm)) (\<lambda>_.
      bind_act (effect_act (sys_effect (y_sleep Y 500))) (\<lambda>_.
      catch_act (sys_act (y_kill Y pid sigkill))
        (\<lambda>e. if e = Builtin ProcessLookupError then ok_act () else fail_act e))))
     (\<lambda>e. if e = Builtin ProcessLookupError then ok_act () else fail_act e)"

section \<open>Rollback and cleanup\<close>

definition resume_cmd :: "destination \<Rightarrow> int \<Rightarrow> string list" where
  "resume_cmd d pid = [d_capturer_path d, ''resume'', ''--pid'', show_int pid]"

definition rollback ::
    "'y pysys \<Rightarrow> 'f migration_config \<Rightarrow> int \<Rightarrow> wraith_exn \<Rightarrow> ('y tele, exn, unit) act" where
  "rollback Y cfg pid original =
     (let escalate = (\<lambda>cause. bind_act (transition Y FAILED) (\<lambda>_. fail_act (Wraith (RollbackError original cause)))) in
     bind_act (transition Y ROLLING_BACK) (\<lambda>_.
     catch_act
       (bind_act (sys_act (y_run Y (resume_cmd (cfg_destination cfg) pid) 10)) (\<lambda>(code, out, err).
        if code = 0 then transition Y ROLLED_BACK else escalate (ResumeStderr (py_strip err))))
       (\<lambda>e. case e of
          Builtin b \<Rightarrow>
            if b = TimeoutExpired then escalate ResumeTimedOut
            else if b = Interrupt then fail_act e
            else escalate (ResumeRaised b)
        | Wraith w \<Rightarrow> fail_act e)))"

definition cleanup_snapshot :: "'y pysys \<Rightarrow> ('y tele, exn, unit) act" where
  "cleanup_snapshot Y = (\<lambda>t. case t_snapshot t of
     None \<Rightarrow> (Inr (), t)
   | Some path \<Rightarrow>
       if path \<noteq> [] \<and> y_exists Y path (t_sys t)
       then catch_act (sys_act (y_unlink Y path))
         (\<lambda>e. case e of
            Builtin b \<Rightarrow> if is_os_error b then ok_act () else fail_act e
          | Wraith w \<Rightarrow> fail_act e) t
       else (Inr (), t))"

section \<open>Migration\<close>

definition build_result ::
    "'y pysys \<Rightarrow> 'f migration_config \<Rightarrow> string \<Rightarrow> int \<Rightarrow> ('y tele, exn, migration_result) act" where
  "build_result Y cfg mid pid =
     bind_act (\<lambda>t. (ok_or (Builtin AssertionError) (t_dest_pid t), t)) (\<lambda>dest_pid.
     bind_act (\<lambda>t. case t_snapshot t of
         None \<Rightarrow> (Inr 0, t)
       | Some path \<Rightarrow> if path \<noteq> [] \<and> y_exists Y path (t_sys t) then sys_look (y_getsize Y path) t else (Inr 0, t)) (\<lambda>size.
     ok_act \<lparr>mg_id = mid, mg_source_pid = pid, mg_destination_pid = dest_pid,
       mg_destination_host = d_hostname (cfg_destination cfg), mg_snapshot_size = size\<rparr>))"

definition migrate_phases ::
    "'y pysys \<Rightarrow> 'f pyfloat \<Rightarrow> 'f migration_config \<Rightarrow> string \<Rightarrow> int \<Rightarrow> bool \<Rightarrow> ('y tele, exn, migration_result) act" where
  "migrate_phases Y F cfg mid pid verify_only =
     bind_act (session_connect Y (cfg_destination cfg)) (\<lambda>_.
     bind_act (run_preflight Y F cfg pid) (\<lambda>_.
     bind_act (run_capture Y cfg mid pid) (\<lambda>_.
     bind_act (run_transfer Y cfg mid pid) (\<lambda>_.
     bind_act (run_restore Y cfg) (\<lambda>_.
     bind_act (if verify_only then ok_act () else terminate_source Y pid) (\<lambda>_.
     bind_act (transition Y COMPLETE) (\<lambda>_.
     build_result Y cfg mid pid)))))))"

text \<open>The handlers: an error of a check leaves the source alone, any other \<open>WraithError\<close> rolls back
  and is raised again, and what is not a \<open>WraithError\<close> is not handled.\<close>

definition migrate_handler ::
    "'y pysys \<Rightarrow> 'f migration_config \<Rightarrow> int \<Rightarrow> exn \<Rightarrow> ('y tele, exn, migration_result) act" where
  "migrate_handler Y cfg pid e = (case e of
     Builtin b \<Rightarrow> fail_act e
   | Wraith w \<Rightarrow>
       if is_preflight w then bind_act (transition Y ROLLED_BACK) (\<lambda>_. fail_act e)
       else bind_act (rollback Y cfg pid w) (\<lambda>_. fail_act e))"

definition migrate ::
    "'y pysys \<Rightarrow> 'f pyfloat \<Rightarrow> 'f migration_config \<Rightarrow> string \<Rightarrow> int \<Rightarrow> bool \<Rightarrow> ('y tele, exn, migration_result) act" where
  "migrate Y F cfg mid pid verify_only =
     bind_act (session_connect Y (cfg_destination cfg)) (\<lambda>_.
     finally_act
       (finally_act
         (catch_act (migrate_phases Y F cfg mid pid verify_only) (migrate_handler Y cfg pid))
         (cleanup_snapshot Y))
       (effect_act (session_close Y)))"

end
