(* ===== verification/Protocol.thy ===== *)
theory Protocol
  imports Teleporter
begin

text \<open>
  The protocol of a migration as a step relation: what the documentation of \<open>teleporter.py\<close>
  promises about the order of the phases, the commit point and the rollback. Its labels are the
  calls that matter and the transitions; \<open>recorded\<close> makes a system note them, so that every run
  of \<open>migrate\<close> leaves a list of events.
\<close>

section \<open>Events\<close>

datatype event =
    Entered mstate
  | Execd string "builtin_exn + string \<times> string \<times> int"
  | Started string "builtin_exn + unit"
  | Ran "string list" "builtin_exn + int \<times> string \<times> string"
  | Killed int int "builtin_exn + unit"
  | Unlinked string "builtin_exn + unit"

definition noting :: "('e + 'a \<Rightarrow> event) \<Rightarrow> ('y, 'e, 'a) act \<Rightarrow> ('y \<times> event list, 'e, 'a) act" where
  "noting ev m = (\<lambda>(y, es). case m y of (r, z) \<Rightarrow> (r, (z, es @ [ev r])))"

definition silent :: "('y, 'e, 'a) act \<Rightarrow> ('y \<times> event list, 'e, 'a) act" where
  "silent m = (\<lambda>(y, es). case m y of (r, z) \<Rightarrow> (r, (z, es)))"

definition recorded :: "'y pysys \<Rightarrow> ('y \<times> event list) pysys" where
  "recorded Y = \<lparr>
     y_isdir = (\<lambda>p (y, es). y_isdir Y p y),
     y_open_rdonly = (\<lambda>p. silent (y_open_rdonly Y p)),
     y_read_text = (\<lambda>p (y, es). y_read_text Y p y),
     y_machine = (\<lambda>(y, es). y_machine Y y),
     y_ssh_connect = (\<lambda>d. silent (y_ssh_connect Y d)),
     y_ssh_exec = (\<lambda>cmd n. noting (Execd cmd) (y_ssh_exec Y cmd n)),
     y_ssh_background = (\<lambda>cmd. noting (Started cmd) (y_ssh_background Y cmd)),
     y_ssh_close = (\<lambda>(y, es). (y_ssh_close Y y, es)),
     y_mkstemp = (\<lambda>p q. silent (y_mkstemp Y p q)),
     y_getsize = (\<lambda>p (y, es). y_getsize Y p y),
     y_exists = (\<lambda>p (y, es). y_exists Y p y),
     y_unlink = (\<lambda>p. noting (Unlinked p) (y_unlink Y p)),
     y_run = (\<lambda>cmd n. noting (Ran cmd) (y_run Y cmd n)),
     y_kill = (\<lambda>pid sig. noting (Killed pid sig) (y_kill Y pid sig)),
     y_sleep = (\<lambda>n (y, es). (y_sleep Y n y, es)),
     y_log_state = (\<lambda>old new (y, es). (y_log_state Y old new y, es @ [Entered new]))\<rparr>"

section \<open>The protocol\<close>

text \<open>A state of the protocol is a state of the migration and, while restoring and while rolling
  back, the outcome of the command that decides.\<close>

definition exec_ok :: "builtin_exn + string \<times> string \<times> int \<Rightarrow> bool" where
  "exec_ok r \<longleftrightarrow> (case r of Inr (out, err, code) \<Rightarrow> code = 0 | Inl _ \<Rightarrow> False)"

definition run_ok :: "builtin_exn + int \<times> string \<times> string \<Rightarrow> bool" where
  "run_ok r \<longleftrightarrow> (case r of Inr (code, out, err) \<Rightarrow> code = 0 | Inl _ \<Rightarrow> False)"

definition is_resume :: "'f migration_config \<Rightarrow> int \<Rightarrow> event \<Rightarrow> bool" where
  "is_resume cfg pid ev \<longleftrightarrow> (case ev of Ran cmd r \<Rightarrow> cmd = resume_cmd (cfg_destination cfg) pid | _ \<Rightarrow> False)"

definition is_restorer :: "'f migration_config \<Rightarrow> event \<Rightarrow> bool" where
  "is_restorer cfg ev \<longleftrightarrow> (case ev of Execd cmd r \<Rightarrow> (\<exists>path. cmd = restorer_cmd cfg path) \<and> exec_ok r | _ \<Rightarrow> False)"

inductive mig_step ::
    "'f migration_config \<Rightarrow> int \<Rightarrow> bool \<Rightarrow> mstate \<times> bool option \<Rightarrow> event \<Rightarrow> mstate \<times> bool option \<Rightarrow> bool"
  for cfg :: "'f migration_config" and pid :: int and verify_only :: bool where
  preflight: "mig_step cfg pid verify_only (INIT, None) (Entered PREFLIGHT) (PREFLIGHT, None)"
| check: "mig_step cfg pid verify_only (PREFLIGHT, None) (Execd cmd r) (PREFLIGHT, None)"
| refuse: "mig_step cfg pid verify_only (PREFLIGHT, None) (Entered ROLLED_BACK) (ROLLED_BACK, None)"
| begin_capture: "mig_step cfg pid verify_only (PREFLIGHT, None) (Entered CAPTURING) (CAPTURING, None)"
| capture: "mig_step cfg pid verify_only (CAPTURING, None)
    (Ran (capture_cmd (cfg_destination cfg) pid path) r) (CAPTURING, None)"
| begin_transfer: "mig_step cfg pid verify_only (CAPTURING, None) (Entered TRANSFERRING) (TRANSFERRING, None)"
| receive: "mig_step cfg pid verify_only (TRANSFERRING, None) (Started cmd r) (TRANSFERRING, None)"
| transmit: "mig_step cfg pid verify_only (TRANSFERRING, None)
    (Ran (d_transmitter_path (cfg_destination cfg) # transmitter_args cfg pid path) r) (TRANSFERRING, None)"
| begin_restore: "mig_step cfg pid verify_only (TRANSFERRING, None) (Entered RESTORING) (RESTORING, None)"
| restore: "mig_step cfg pid verify_only (RESTORING, None) (Execd (restorer_cmd cfg path) r) (RESTORING, Some (exec_ok r))"
| remove: "mig_step cfg pid verify_only (RESTORING, Some True) (Execd (''rm -f '' @ path) r) (RESTORING, Some True)"
| kill: "\<not> verify_only \<Longrightarrow> mig_step cfg pid verify_only (RESTORING, Some True) (Killed pid sig r) (RESTORING, Some True)"
| complete: "mig_step cfg pid verify_only (RESTORING, Some True) (Entered COMPLETE) (COMPLETE, None)"
| begin_rollback: "m \<in> {CAPTURING, TRANSFERRING, RESTORING} \<Longrightarrow> ok \<noteq> Some True \<Longrightarrow>
    mig_step cfg pid verify_only (m, ok) (Entered ROLLING_BACK) (ROLLING_BACK, None)"
| resume: "mig_step cfg pid verify_only (ROLLING_BACK, None)
    (Ran (resume_cmd (cfg_destination cfg) pid) r) (ROLLING_BACK, Some (run_ok r))"
| rolled_back: "mig_step cfg pid verify_only (ROLLING_BACK, Some True) (Entered ROLLED_BACK) (ROLLED_BACK, Some True)"
| failed: "mig_step cfg pid verify_only (ROLLING_BACK, Some False) (Entered FAILED) (FAILED, Some False)"
| unlink: "mig_step cfg pid verify_only st (Unlinked path r) st"

inductive mig_path ::
    "'f migration_config \<Rightarrow> int \<Rightarrow> bool \<Rightarrow> event list \<Rightarrow> mstate \<times> bool option \<Rightarrow> bool"
  for cfg :: "'f migration_config" and pid :: int and verify_only :: bool where
  start: "mig_path cfg pid verify_only [] (INIT, None)"
| step: "mig_path cfg pid verify_only es st \<Longrightarrow> mig_step cfg pid verify_only st ev st' \<Longrightarrow>
    mig_path cfg pid verify_only (es @ [ev]) st'"

inductive_cases mig_step_cases: "mig_step cfg pid verify_only st ev st'"

text \<open>What the protocol guarantees, by induction on its paths: the source is killed only after the
  restorer has reported success, and nothing is run on the source afterwards; a rollback has
  tried to resume the source, and says so truly.\<close>

definition committed :: "'f migration_config \<Rightarrow> int \<Rightarrow> bool \<Rightarrow> event list \<Rightarrow> bool" where
  "committed cfg pid verify_only es \<longleftrightarrow> (\<forall>pre q sig r post. es = pre @ Killed q sig r # post \<longrightarrow>
     q = pid \<and> \<not> verify_only \<and> (\<exists>ev \<in> set pre. is_restorer cfg ev) \<and> (\<forall>cmd x. Ran cmd x \<notin> set post))"

lemma committed_snoc:
  assumes "committed cfg pid vo es"
    and "\<And>q sig r. ev = Killed q sig r \<Longrightarrow> q = pid \<and> \<not> vo \<and> (\<exists>ev \<in> set es. is_restorer cfg ev)"
    and "\<And>cmd x. ev = Ran cmd x \<Longrightarrow> \<forall>q sig r. Killed q sig r \<notin> set es"
  shows "committed cfg pid vo (es @ [ev])"
  unfolding committed_def
proof (intro allI impI)
  fix pre q sig r post assume e: "es @ [ev] = pre @ Killed q sig r # post"
  show "q = pid \<and> \<not> vo \<and> (\<exists>ev \<in> set pre. is_restorer cfg ev) \<and> (\<forall>cmd x. Ran cmd x \<notin> set post)"
  proof (cases post rule: rev_cases)
    case Nil
    with e assms(2) show ?thesis by auto
  next
    case (snoc qs x)
    with e have es: "es = pre @ Killed q sig r # qs" and x: "x = ev" by auto
    then have "Killed q sig r \<in> set es" by simp
    then have "\<forall>cmd y. x \<noteq> Ran cmd y" using assms(3) x by blast
    with assms(1) [unfolded committed_def, rule_format, OF es] snoc show ?thesis by auto
  qed
qed

definition confirmed :: "'f migration_config \<Rightarrow> mstate \<times> bool option \<Rightarrow> event list \<Rightarrow> bool" where
  "confirmed cfg st es \<longleftrightarrow>
     (st = (RESTORING, Some True) \<or> fst st = COMPLETE \<longrightarrow> (\<exists>ev \<in> set es. is_restorer cfg ev)) \<and>
     (\<not> (st = (RESTORING, Some True) \<or> fst st = COMPLETE) \<longrightarrow> (\<forall>q sig r. Killed q sig r \<notin> set es))"

lemma path_committed: "mig_path cfg pid vo es st \<Longrightarrow> committed cfg pid vo es \<and> confirmed cfg st es"
proof (induction rule: mig_path.induct)
  case (step es st ev st')
  note IH = step.IH
  from step.hyps(2) have conf: "confirmed cfg st' (es @ [ev])"
    using IH by cases (auto simp: confirmed_def is_restorer_def)
  from step.hyps(2) have "committed cfg pid vo (es @ [ev])"
    using IH by cases (auto simp: confirmed_def intro!: committed_snoc)
  with conf show ?case by simp
qed (simp add: committed_def confirmed_def)

definition resumed :: "'f migration_config \<Rightarrow> int \<Rightarrow> mstate \<times> bool option \<Rightarrow> event list \<Rightarrow> bool" where
  "resumed cfg pid st es \<longleftrightarrow>
     (case snd st of
        None \<Rightarrow> fst st \<notin> {FAILED} \<and> (fst st \<in> {INIT, PREFLIGHT, ROLLED_BACK} \<longrightarrow> Entered CAPTURING \<notin> set es \<and> (\<forall>cmd r. Ran cmd r \<notin> set es))
      | Some ok \<Rightarrow> fst st \<in> {ROLLING_BACK, ROLLED_BACK, FAILED} \<longrightarrow>
          (\<exists>r. Ran (resume_cmd (cfg_destination cfg) pid) r \<in> set es \<and> run_ok r = ok)) \<and>
     (fst st = FAILED \<longrightarrow> snd st = Some False) \<and> (fst st = ROLLED_BACK \<longrightarrow> snd st \<noteq> Some False) \<and>
     (fst st \<notin> {ROLLING_BACK, ROLLED_BACK, FAILED} \<longrightarrow> Entered ROLLING_BACK \<notin> set es)"

lemma path_resumed: "mig_path cfg pid vo es st \<Longrightarrow> resumed cfg pid st es"
proof (induction rule: mig_path.induct)
  case (step es st ev st')
  from step.hyps(2) show ?case
    using step.IH by cases (auto simp: resumed_def split: option.splits)
qed (simp add: resumed_def)

end
