(* ===== verification/Orchestration.thy ===== *)
theory Orchestration
  imports Protocol
begin

text \<open>
  The orchestrator follows the protocol. Triples over actions that return or raise carry the
  proof along the code, method by method; the properties of runs are then those of the paths of
  the protocol.
\<close>

section \<open>Triples\<close>

definition triple ::
    "('s \<Rightarrow> bool) \<Rightarrow> ('s, 'e, 'a) act \<Rightarrow> ('a \<Rightarrow> 's \<Rightarrow> bool) \<Rightarrow> ('e \<Rightarrow> 's \<Rightarrow> bool) \<Rightarrow> bool" where
  "triple P m Q E \<longleftrightarrow> (\<forall>s. P s \<longrightarrow> (case m s of (Inr x, t) \<Rightarrow> Q x t | (Inl e, t) \<Rightarrow> E e t))"

lemma tripleI: "(\<And>s. P s \<Longrightarrow> case m s of (Inr x, t) \<Rightarrow> Q x t | (Inl e, t) \<Rightarrow> E e t) \<Longrightarrow> triple P m Q E"
  by (simp add: triple_def)

lemma tripleD:
  assumes "triple P m Q E" "P s" "m s = (r, t)"
  shows "case r of Inr x \<Rightarrow> Q x t | Inl e \<Rightarrow> E e t"
  using assms unfolding triple_def by (metis (no_types, lifting) case_prod_conv)

lemma triple_ok: "(\<And>s. P s \<Longrightarrow> Q x s) \<Longrightarrow> triple P (ok_act x) Q E"
  by (simp add: triple_def act_simps)

lemma triple_fail: "(\<And>s. P s \<Longrightarrow> E e s) \<Longrightarrow> triple P (fail_act e) Q E"
  by (simp add: triple_def act_simps)

lemma triple_bind:
  assumes "triple P m R E" "\<And>x. triple (R x) (f x) Q E"
  shows "triple P (bind_act m f) Q E"
  using assms unfolding triple_def bind_act_def by (fastforce split: prod.splits sum.splits)

lemma triple_catch:
  assumes "triple P m Q R" "\<And>e. triple (R e) (h e) Q E"
  shows "triple P (catch_act m h) Q E"
  using assms unfolding triple_def catch_act_def by (fastforce split: prod.splits sum.splits)

lemma triple_finally:
  assumes "triple P m Q' E'" "\<And>x. triple (Q' x) f (\<lambda>_. Q x) E" "\<And>e. triple (E' e) f (\<lambda>_. E e) E"
  shows "triple P (finally_act m f) Q E"
proof (rule tripleI)
  fix s assume s: "P s"
  obtain r t where m: "m s = (r, t)" by fastforce
  obtain x u where f: "f t = (x, u)" by fastforce
  have "case x of Inr _ \<Rightarrow> (case r of Inr y \<Rightarrow> Q y u | Inl e \<Rightarrow> E e u) | Inl e \<Rightarrow> E e u"
    using tripleD [OF assms(1) s m] tripleD [OF assms(2) _ f] tripleD [OF assms(3) _ f]
    by (cases r; cases x) auto
  then show "case finally_act m f s of (Inr x, t) \<Rightarrow> Q x t | (Inl e, t) \<Rightarrow> E e t"
    by (cases r; cases x) (simp_all add: finally_act_def m f)
qed

lemma triple_effect: "(\<And>s. P s \<Longrightarrow> Q () (f s)) \<Longrightarrow> triple P (effect_act f) Q E"
  by (simp add: triple_def act_simps)

lemma triple_if: "(b \<Longrightarrow> triple P m Q E) \<Longrightarrow> (\<not> b \<Longrightarrow> triple P n Q E) \<Longrightarrow> triple P (if b then m else n) Q E"
  by simp

lemma triple_weaken:
  assumes "triple P' m Q' E'" "\<And>s. P s \<Longrightarrow> P' s" "\<And>x s. Q' x s \<Longrightarrow> Q x s" "\<And>e s. E' e s \<Longrightarrow> E e s"
  shows "triple P m Q E"
  using assms unfolding triple_def by (fastforce split: prod.splits sum.splits)

section \<open>Where a migration is\<close>

text \<open>The events so far are a path of the protocol to the state the \<open>Teleporter\<close> is in, and the
  session is connected.\<close>

definition at ::
    "'f migration_config \<Rightarrow> int \<Rightarrow> bool \<Rightarrow> mstate \<Rightarrow> bool option \<Rightarrow> ('y \<times> event list) tele \<Rightarrow> bool" where
  "at cfg pid vo m ok t \<longleftrightarrow> t_state t = m \<and> t_client t \<and> mig_path cfg pid vo (snd (t_sys t)) (m, ok)"

lemma at_move:
  assumes "at cfg pid vo m ok t" "mig_step cfg pid vo (m, ok) ev (m', ok')"
    and "t_state u = m'" "t_client u" "snd (t_sys u) = snd (t_sys t) @ [ev]"
  shows "at cfg pid vo m' ok' u"
  using assms by (auto simp: at_def intro: mig_path.step)

lemma at_keep:
  assumes "at cfg pid vo m ok t" "t_state u = t_state t" "t_client u" "snd (t_sys u) = snd (t_sys t)"
  shows "at cfg pid vo m ok u"
  using assms by (simp add: at_def)

text \<open>A call that notes its event, and one that is silent.\<close>

lemma triple_noting:
  fixes a :: "('y, builtin_exn, 'x) act"
  assumes "\<And>r. mig_step cfg pid vo (m, ok) (ev r) (m, ok' r)"
  shows "triple (at cfg pid vo m ok) (sys_act (noting ev a))
     (\<lambda>x. at cfg pid vo m (ok' (Inr x))) (\<lambda>e t. \<exists>b. e = Builtin b \<and> at cfg pid vo m (ok' (Inl b)) t)"
proof (rule tripleI)
  fix t :: "('y \<times> event list) tele" assume t: "at cfg pid vo m ok t"
  obtain r y where a: "a (fst (t_sys t)) = (r, y)" by fastforce
  let ?u = "t\<lparr>t_sys := (y, snd (t_sys t) @ [ev r])\<rparr>"
  have n: "noting ev a (t_sys t) = (r, (y, snd (t_sys t) @ [ev r]))"
    using a by (simp add: noting_def case_prod_unfold)
  have "at cfg pid vo m (ok' r) ?u"
    using t assms [of r] by (rule at_move) (use t in \<open>simp_all add: at_def\<close>)
  then show "case sys_act (noting ev a) t of (Inr x, t) \<Rightarrow> at cfg pid vo m (ok' (Inr x)) t
      | (Inl e, t) \<Rightarrow> \<exists>b. e = Builtin b \<and> at cfg pid vo m (ok' (Inl b)) t"
    by (cases r) (simp_all add: sys_act_def n)
qed

lemma triple_silent:
  "triple (at cfg pid vo m ok) (sys_act (silent a)) (\<lambda>x. at cfg pid vo m ok)
     (\<lambda>e t. (\<exists>b. e = Builtin b) \<and> at cfg pid vo m ok t)"
  by (rule tripleI)
    (auto simp: sys_act_def silent_def at_def split: prod.splits sum.splits)

lemma triple_sys_look:
  "triple (at cfg pid vo m ok) (sys_look f) (\<lambda>x. at cfg pid vo m ok)
     (\<lambda>e t. (\<exists>b. e = Builtin b) \<and> at cfg pid vo m ok t)"
proof (rule tripleI)
  fix t :: "('a \<times> event list) tele" assume "at cfg pid vo m ok t"
  then show "case sys_look f t of (Inr x, u) \<Rightarrow> at cfg pid vo m ok u
      | (Inl e, u) \<Rightarrow> (\<exists>b. e = Builtin b) \<and> at cfg pid vo m ok u"
    by (cases "f (t_sys t)") (simp_all add: sys_look_def)
qed

lemma triple_transition:
  fixes Y :: "'y pysys"
  assumes "mig_step cfg pid vo (m, ok) (Entered m') (m', ok')"
  shows "triple (at cfg pid vo m ok) (transition (recorded Y) m') (\<lambda>_. at cfg pid vo m' ok') E"
proof (rule triple_effect)
  fix t :: "('y \<times> event list) tele" assume t: "at cfg pid vo m ok t"
  then show "at cfg pid vo m' ok' (transition_to (recorded Y) m' t)"
    using assms by (rule at_move) (use t in \<open>simp_all add: at_def transition_to_def recorded_def case_prod_unfold\<close>)
qed

section \<open>The session and the checks\<close>

text \<open>A command over the session while the checks run; in the other phases the rule of the call is
  used directly.\<close>

lemma triple_exec:
  assumes "\<And>r. mig_step cfg pid vo (m, ok) (Execd cmd r) (m, ok' r)"
  shows "triple (at cfg pid vo m ok) (session_exec (recorded Y) d cmd timeout False)
     (\<lambda>(out, err, code). at cfg pid vo m (ok' (Inr (out, err, code))))
     (\<lambda>e t. \<exists>b. e = Builtin b \<and> at cfg pid vo m (ok' (Inl b)) t)"
  unfolding session_exec_def
proof (rule triple_bind)
  show "triple (at cfg pid vo m ok) ensure_connected (\<lambda>_. at cfg pid vo m ok)
      (\<lambda>e t. \<exists>b. e = Builtin b \<and> at cfg pid vo m (ok' (Inl b)) t)"
    by (rule tripleI) (simp add: ensure_connected_def at_def)
  have n: "y_ssh_exec (recorded Y) cmd k = noting (Execd cmd) (y_ssh_exec Y cmd k)" for k
    by (simp add: recorded_def)
  show "triple (at cfg pid vo m ok)
      (bind_act (sys_act (y_ssh_exec (recorded Y) cmd (effective_timeout d timeout)))
        (\<lambda>(out, err, code). if False \<and> code \<noteq> 0 then fail_act (Wraith (CommandError cmd code err)) else ok_act (out, err, code)))
      (\<lambda>(out, err, code). at cfg pid vo m (ok' (Inr (out, err, code))))
      (\<lambda>e t. \<exists>b. e = Builtin b \<and> at cfg pid vo m (ok' (Inl b)) t)" for x :: unit
    unfolding n
    by (rule triple_bind [OF triple_noting [of cfg pid vo m ok "Execd cmd" ok', OF assms]]) (auto intro: triple_ok)
qed

lemma triple_exec_checked:
  assumes "\<And>r. mig_step cfg pid vo (m, ok) (Execd cmd r) (m, ok)"
  shows "triple (at cfg pid vo m ok) (session_exec (recorded Y) d cmd timeout True)
     (\<lambda>x. at cfg pid vo m ok) (\<lambda>e. at cfg pid vo m ok)"
proof -
  have "session_exec (recorded Y) d cmd timeout True =
      bind_act (session_exec (recorded Y) d cmd timeout False) (\<lambda>(out, err, code).
        if code \<noteq> 0 then fail_act (Wraith (CommandError cmd code err)) else ok_act (out, err, code))"
    by (rule ext) (simp add: session_exec_def bind_act_def ok_act_def case_prod_unfold split: prod.splits sum.splits)
  moreover have "triple (at cfg pid vo m ok) \<dots> (\<lambda>x. at cfg pid vo m ok) (\<lambda>e. at cfg pid vo m ok)"
    using triple_exec [of cfg pid vo m ok cmd "\<lambda>_. ok" Y d timeout, OF assms]
    by (intro triple_bind [where R = "\<lambda>_. at cfg pid vo m ok"])
      (auto elim!: triple_weaken intro!: triple_ok triple_fail)
  ultimately show ?thesis by simp
qed

abbreviation in_checks :: "'f migration_config \<Rightarrow> int \<Rightarrow> bool \<Rightarrow> ('y \<times> event list) tele \<Rightarrow> bool" where
  "in_checks cfg pid vo \<equiv> at cfg pid vo PREFLIGHT None"

text \<open>The checks stay in their phase, and what they let through is not a \<open>WraithError\<close>.\<close>

definition uncaught :: "'f migration_config \<Rightarrow> int \<Rightarrow> bool \<Rightarrow> exn \<Rightarrow> ('y \<times> event list) tele \<Rightarrow> bool" where
  "uncaught cfg pid vo e t \<longleftrightarrow> (\<exists>b. e = Builtin b) \<and> in_checks cfg pid vo t"

lemma triple_guarded:
  assumes "triple (in_checks cfg pid vo) m (\<lambda>_. in_checks cfg pid vo) (\<lambda>_. in_checks cfg pid vo)"
  shows "triple (in_checks cfg pid vo) (guarded m failed name) (\<lambda>_. in_checks cfg pid vo) (uncaught cfg pid vo)"
  unfolding guarded_def
proof (rule triple_catch [where R = "\<lambda>_. in_checks cfg pid vo"])
  show "triple (in_checks cfg pid vo) (bind_act m (\<lambda>(ok, msg). ok_act \<lparr>cr_name = name, cr_passed = ok,
      cr_message = msg, cr_blocking = True\<rparr>)) (\<lambda>_. in_checks cfg pid vo) (\<lambda>_. in_checks cfg pid vo)"
    by (rule triple_bind [OF assms]) (auto intro: triple_ok)
  show "triple (in_checks cfg pid vo) (if is_exception e then ok_act \<lparr>cr_name = name, cr_passed = False,
      cr_message = failed e, cr_blocking = True\<rparr> else fail_act e) (\<lambda>_. in_checks cfg pid vo) (uncaught cfg pid vo)" for e
    by (auto intro!: triple_ok triple_fail simp: uncaught_def is_exception_def)
qed

lemma triple_check_exec:
  "triple (in_checks cfg pid vo) (session_exec (recorded Y) d cmd timeout c)
     (\<lambda>_. in_checks cfg pid vo) (\<lambda>_. in_checks cfg pid vo)"
  using triple_exec [of cfg pid vo PREFLIGHT None cmd "\<lambda>_. None" Y d timeout, OF mig_step.check]
    triple_exec_checked [of cfg pid vo PREFLIGHT None cmd Y d timeout, OF mig_step.check]
  by (cases c) (auto elim!: triple_weaken)

lemma triple_binary:
  "triple (in_checks cfg pid vo) (binary_missing (recorded Y) d path) (\<lambda>_. in_checks cfg pid vo) (uncaught cfg pid vo)"
  unfolding binary_missing_def
  by (rule triple_catch [where R = "\<lambda>_. in_checks cfg pid vo"], rule triple_bind [OF triple_check_exec])
    (auto intro!: triple_ok triple_fail simp: uncaught_def is_exception_def)

lemma triple_checks:
  fixes Y :: "'y pysys"
  shows "triple (in_checks cfg pid vo) (run_checks (recorded Y) F cfg True pid) (\<lambda>_. in_checks cfg pid vo) (uncaught cfg pid vo)"
proof -
  let ?P = "in_checks cfg pid vo" and ?E = "uncaught cfg pid vo"
  have 0: "triple ?P (\<lambda>t. (Inr (f t), t)) (\<lambda>_. ?P) ?E" for f
    by (rule tripleI) simp
  have 1: "triple ?P (check_source_process_permissions (recorded Y) pid) (\<lambda>_. ?P) ?E"
    unfolding check_source_process_permissions_def Let_def
    by (rule triple_catch [where R = ?E], rule triple_bind [where R = "\<lambda>_. ?P"])
      (auto intro!: triple_ok triple_fail triple_weaken [OF triple_silent] simp: uncaught_def recorded_def)
  have 2: "triple ?P (check_source_process_size (recorded Y) F cfg pid) (\<lambda>_. ?P) ?E"
    unfolding check_source_process_size_def Let_def
    by (rule tripleI) (auto simp: uncaught_def split: sum.splits)
  have 3: "triple ?P (check_destination_reachable (recorded Y) d) (\<lambda>_. ?P) ?E" for d
    unfolding check_destination_reachable_def
    by (intro triple_guarded triple_bind [OF triple_check_exec]) (auto simp: Let_def intro!: triple_ok)
  have 4: "triple ?P (check_destination_arch (recorded Y) d) (\<lambda>_. ?P) ?E" for d
  proof (rule tripleI)
    fix t :: "('y \<times> event list) tele" assume t: "?P t"
    have "triple ?P (guarded (bind_act (session_exec (recorded Y) d ''uname -m'' (Some 5) True)
        (\<lambda>(out, err, code). let dest_arch = py_strip out in ok_act (a = dest_arch, ArchPair a dest_arch)))
        CannotCheckArch ArchitectureMatch) (\<lambda>_. ?P) ?E" for a
      by (intro triple_guarded triple_bind [OF triple_check_exec]) (auto simp: Let_def intro!: triple_ok)
    from this [of "y_machine (recorded Y) (t_sys t)", unfolded triple_def Let_def, rule_format, OF t]
    show "case check_destination_arch (recorded Y) d t of (Inr x, u) \<Rightarrow> ?P u | (Inl e, u) \<Rightarrow> ?E e u"
      unfolding check_destination_arch_def Let_def .
  qed
  have 5: "triple ?P (check_destination_resources (recorded Y) F d pid) (\<lambda>_. ?P) ?E" for d
    unfolding check_destination_resources_def
  proof (intro triple_guarded triple_bind)
    show "triple ?P (sys_look (read_proc_status_kb (recorded Y) pid ''VmRSS'')) (\<lambda>_. ?P) (\<lambda>_. ?P)"
      by (rule triple_weaken [OF triple_sys_look]) auto
    show "triple ?P (session_exec (recorded Y) d ''free -k'' (Some 5) True) (\<lambda>_. ?P) (\<lambda>_. ?P)"
      by (rule triple_check_exec)
    show "triple ?P (case x of (out, err, code) \<Rightarrow> bind_act (look (\<lambda>_. map_err Builtin (parse_free_available out)))
        (\<lambda>avail_kb. ok_act (pf_half_more F kb \<le> avail_kb, Available avail_kb (pf_half_more F kb)))) (\<lambda>_. ?P) (\<lambda>_. ?P)" for x kb
      unfolding triple_def by (auto simp: bind_act_def look_def ok_act_def split: prod.splits sum.splits)
  qed
  have 6: "triple ?P (check_binaries_present (recorded Y) d) (\<lambda>_. ?P) ?E" for d
    unfolding check_binaries_present_def Let_def by (intro triple_bind [OF triple_binary] triple_ok)
  show ?thesis
    unfolding run_checks_def Let_def if_True
    by (intro triple_bind [OF 0] triple_bind [OF 1] triple_bind [OF 2] triple_bind [OF 3] triple_bind [OF 4]
        triple_bind [OF 5] triple_bind [OF 6] triple_ok)
qed

section \<open>The phases\<close>

text \<open>How a phase that started from \<open>m\<close> may raise: a \<open>WraithError\<close> of its own before the commit
  point, or an exception of Python anywhere in the phase.\<close>

definition raised_in :: "'f migration_config \<Rightarrow> int \<Rightarrow> bool \<Rightarrow> mstate \<Rightarrow> exn \<Rightarrow> ('y \<times> event list) tele \<Rightarrow> bool" where
  "raised_in cfg pid vo m e t \<longleftrightarrow> (\<exists>ok. at cfg pid vo m ok t \<and>
     (\<forall>w. e = Wraith w \<longrightarrow> \<not> is_preflight w \<and> \<not> is_rollback w \<and> ok \<noteq> Some True))"

lemma recorded_calls:
  "y_run (recorded Y) cmd n = noting (Ran cmd) (y_run Y cmd n)"
  "y_ssh_background (recorded Y) c = noting (Started c) (y_ssh_background Y c)"
  "y_kill (recorded Y) p sig = noting (Killed p sig) (y_kill Y p sig)"
  "y_unlink (recorded Y) c = noting (Unlinked c) (y_unlink Y c)"
  "y_mkstemp (recorded Y) a b = silent (y_mkstemp Y a b)"
  by (simp_all add: recorded_def)

lemma triple_preflight:
  "triple (at cfg pid vo INIT None) (run_preflight (recorded Y) F cfg pid) (\<lambda>_. in_checks cfg pid vo)
     (\<lambda>e t. in_checks cfg pid vo t \<and> (\<forall>w. e = Wraith w \<longrightarrow> is_preflight w))"
  unfolding run_preflight_def
proof (rule triple_bind [OF triple_transition [OF mig_step.preflight]], rule triple_bind [where R = "\<lambda>_. in_checks cfg pid vo"])
  show "triple (in_checks cfg pid vo) (run_checks (recorded Y) F cfg True pid) (\<lambda>_. in_checks cfg pid vo)
      (\<lambda>e t. in_checks cfg pid vo t \<and> (\<forall>w. e = Wraith w \<longrightarrow> is_preflight w))"
    by (rule triple_weaken [OF triple_checks]) (auto simp: uncaught_def)
  show "triple (in_checks cfg pid vo) (case blocking_failures results of [] \<Rightarrow> ok_act ()
      | first # _ \<Rightarrow> fail_act (Wraith (PreflightError (cr_name first) (cr_message first)))) (\<lambda>_. in_checks cfg pid vo)
      (\<lambda>e t. in_checks cfg pid vo t \<and> (\<forall>w. e = Wraith w \<longrightarrow> is_preflight w))" for results
    by (auto split: list.split intro!: triple_ok triple_fail)
qed

lemma triple_set:
  "(\<And>t. t_state (f t) = t_state t \<and> t_client (f t) = t_client t \<and> snd (t_sys (f t)) = snd (t_sys t)) \<Longrightarrow>
   triple (at cfg pid vo m ok) (effect_act f) (\<lambda>_. at cfg pid vo m ok) E"
  by (auto intro!: triple_effect simp: at_def)

lemma triple_read:
  "triple (at cfg pid vo m ok) (\<lambda>t. (ok_or (Builtin b) (f t), t)) (\<lambda>_. at cfg pid vo m ok)
     (\<lambda>e t. \<exists>b. e = Builtin b \<and> at cfg pid vo m ok t)"
proof (rule tripleI)
  fix t :: "('a \<times> event list) tele" assume "at cfg pid vo m ok t"
  then show "case (ok_or (Builtin b) (f t), t) of (Inr x, t) \<Rightarrow> at cfg pid vo m ok t
      | (Inl e, t) \<Rightarrow> \<exists>b. e = Builtin b \<and> at cfg pid vo m ok t"
    by (cases "f t") simp_all
qed

lemma raised_builtin: "at cfg pid vo m ok t \<Longrightarrow> raised_in cfg pid vo m (Builtin b) t"
  by (auto simp: raised_in_def)

lemma raised_wraith:
  "at cfg pid vo m ok t \<Longrightarrow> \<not> is_preflight w \<Longrightarrow> \<not> is_rollback w \<Longrightarrow> ok \<noteq> Some True \<Longrightarrow>
   raised_in cfg pid vo m (Wraith w) t"
  by (auto simp: raised_in_def)

text \<open>A call in a phase that is silent, one that leaves the protocol where it is, and one whose
  exceptions are turned into \<open>WraithError\<close>s.\<close>

lemma triple_silent_in:
  "triple (at cfg pid vo m ok) (sys_act (silent a)) (\<lambda>_. at cfg pid vo m ok) (raised_in cfg pid vo m)"
  by (rule triple_weaken [OF triple_silent]) (auto intro: raised_builtin)

lemma triple_look_in:
  "triple (at cfg pid vo m ok) (sys_look f) (\<lambda>_. at cfg pid vo m ok) (raised_in cfg pid vo m)"
  by (rule triple_weaken [OF triple_sys_look]) (auto intro: raised_builtin)

lemma triple_read_in:
  "triple (at cfg pid vo m ok) (\<lambda>t. (ok_or (Builtin b) (f t), t)) (\<lambda>_. at cfg pid vo m ok) (raised_in cfg pid vo m)"
  by (rule triple_weaken [OF triple_read]) (auto intro: raised_builtin)

lemma triple_run_in:
  assumes "\<And>r. mig_step cfg pid vo (m, None) (Ran cmd r) (m, None)"
    and "\<not> is_preflight w1 \<and> \<not> is_rollback w1" "\<not> is_preflight w2 \<and> \<not> is_rollback w2"
  shows "triple (at cfg pid vo m None) (catch_act (sys_act (y_run (recorded Y) cmd n))
      (\<lambda>e. if e = Builtin TimeoutExpired then fail_act (Wraith w1)
         else if e = Builtin FileNotFoundError then fail_act (Wraith w2) else fail_act e))
    (\<lambda>_. at cfg pid vo m None) (raised_in cfg pid vo m)"
  unfolding recorded_calls
  by (rule triple_catch [OF triple_noting [of cfg pid vo m None "Ran cmd" "\<lambda>_. None", OF assms(1)]])
    (use assms(2,3) in \<open>auto intro!: triple_fail raised_wraith dest: raised_builtin\<close>)

lemma triple_capture:
  "triple (in_checks cfg pid vo) (run_capture (recorded Y) cfg mid pid) (\<lambda>_. at cfg pid vo CAPTURING None)
     (raised_in cfg pid vo CAPTURING)"
proof -
  let ?P = "at cfg pid vo CAPTURING None" and ?E = "raised_in cfg pid vo CAPTURING"
  have last: "triple ?P (case x of (code, out, err) \<Rightarrow> if code \<noteq> 0 then fail_act (Wraith (CapturerExited code (py_strip err)))
      else bind_act (sys_look (y_getsize (recorded Y) path)) (\<lambda>_. ok_act ())) (\<lambda>_. ?P) ?E" for x path
    by (cases x)
      (auto intro!: triple_fail triple_bind [OF triple_look_in] triple_ok raised_wraith split: if_split)
  have set: "triple ?P (effect_act (\<lambda>t. t\<lparr>t_snapshot := Some path\<rparr>)) (\<lambda>_. ?P) ?E" for path
    by (rule triple_set) simp
  have run: "triple ?P (catch_act (sys_act (y_run (recorded Y) (capture_cmd (cfg_destination cfg) pid path) n))
      (\<lambda>e. if e = Builtin TimeoutExpired then fail_act (Wraith (CaptureTimedOut k))
         else if e = Builtin FileNotFoundError then fail_act (Wraith (CapturerNotFound c)) else fail_act e)) (\<lambda>_. ?P) ?E" for path n k c
    by (rule triple_run_in [OF mig_step.capture]) simp_all
  show ?thesis
    unfolding run_capture_def Let_def recorded_calls(5)
    by (intro triple_bind [OF triple_transition [OF mig_step.begin_capture]] triple_bind [OF triple_silent_in]
        triple_bind [OF set] triple_bind [OF run] last)
qed

lemma triple_session_background:
  assumes "\<And>r. mig_step cfg pid vo (m, None) (Started (''nohup '' @ cmd @ '' </dev/null >/tmp/wraith_receiver.log 2>&1 &'') r) (m, None)"
  shows "triple (at cfg pid vo m None) (session_exec_background (recorded Y) cmd) (\<lambda>_. at cfg pid vo m None)
     (\<lambda>e t. \<exists>b. e = Builtin b \<and> at cfg pid vo m None t)"
  unfolding session_exec_background_def
proof (rule triple_bind [where R = "\<lambda>_. at cfg pid vo m None"])
  show "triple (at cfg pid vo m None) ensure_connected (\<lambda>_. at cfg pid vo m None) (\<lambda>e t. \<exists>b. e = Builtin b \<and> at cfg pid vo m None t)"
    by (rule tripleI) (simp add: ensure_connected_def at_def)
qed (simp only: recorded_calls, rule triple_noting [where ok' = "\<lambda>_. None", OF assms])

lemma triple_transfer:
  "triple (at cfg pid vo CAPTURING None) (run_transfer (recorded Y) cfg mid pid) (\<lambda>_. at cfg pid vo TRANSFERRING None)
     (raised_in cfg pid vo TRANSFERRING)"
proof -
  let ?P = "at cfg pid vo TRANSFERRING None" and ?E = "raised_in cfg pid vo TRANSFERRING"
  have set: "triple ?P (effect_act (\<lambda>t. t\<lparr>t_remote := Some path\<rparr>)) (\<lambda>_. ?P) ?E" for path
    by (rule triple_set) simp
  have rx: "triple ?P (catch_act (session_exec_background (recorded Y) cmd)
      (\<lambda>e. if is_exception e then fail_act (Wraith (ReceiverStartError h e)) else fail_act e)) (\<lambda>_. ?P) ?E" for cmd h
    by (rule triple_catch [OF triple_session_background [OF mig_step.receive]])
      (auto intro!: triple_fail raised_wraith dest: raised_builtin)
  have nap: "triple ?P (effect_act (sys_effect (y_sleep (recorded Y) k))) (\<lambda>_. ?P) ?E" for k
    by (rule triple_set) (simp add: sys_effect_def recorded_def case_prod_unfold)
  have run: "triple ?P (catch_act (sys_act (y_run (recorded Y)
        (d_transmitter_path (cfg_destination cfg) # transmitter_args cfg pid path) n))
      (\<lambda>e. if e = Builtin TimeoutExpired then fail_act (Wraith (TransferTimedOut k))
         else if e = Builtin FileNotFoundError then fail_act (Wraith (TransmitterNotFound c)) else fail_act e)) (\<lambda>_. ?P) ?E" for path n k c
    by (rule triple_run_in [OF mig_step.transmit]) simp_all
  have last: "triple ?P (case x of (code, out, err) \<Rightarrow>
      if code \<noteq> 0 then fail_act (Wraith (TransmitterExited code (py_strip err))) else ok_act ()) (\<lambda>_. ?P) ?E" for x
    by (cases x) (auto intro!: triple_fail triple_ok raised_wraith split: if_split)
  show ?thesis
    unfolding run_transfer_def Let_def
    by (intro triple_bind [OF triple_transition [OF mig_step.begin_transfer]] triple_bind [OF triple_read_in]
        triple_bind [OF set] triple_bind [OF rx] triple_bind [OF nap] triple_bind [OF run] last)
qed

lemma triple_remove:
  "triple (at cfg pid vo RESTORING (Some True))
     (catch_act (bind_act (session_exec (recorded Y) d (''rm -f '' @ path) None True) (\<lambda>_. ok_act ()))
       (\<lambda>e. if is_exception e then ok_act () else fail_act e))
     (\<lambda>_. at cfg pid vo RESTORING (Some True)) (raised_in cfg pid vo RESTORING)"
  by (rule triple_catch [where R = "\<lambda>_. at cfg pid vo RESTORING (Some True)"],
      rule triple_bind [OF triple_exec_checked [OF mig_step.remove]])
    (auto intro!: triple_ok triple_fail simp: is_exception_def dest: raised_builtin)

lemma triple_restore:
  "triple (at cfg pid vo TRANSFERRING None) (run_restore (recorded Y) cfg) (\<lambda>_. at cfg pid vo RESTORING (Some True))
     (raised_in cfg pid vo RESTORING)"
proof -
  let ?P = "at cfg pid vo RESTORING None" and ?Q = "at cfg pid vo RESTORING (Some True)"
  let ?E = "raised_in cfg pid vo RESTORING" and ?d = "cfg_destination cfg"
  let ?R = "\<lambda>(out, err, code). at cfg pid vo RESTORING (Some (exec_ok (Inr (out, err, code))))"
  have run: "triple ?P (catch_act (session_exec (recorded Y) ?d (restorer_cmd cfg path) (Some n) False)
      (\<lambda>e. if is_exception e then fail_act (Wraith (RestorerInvocation e)) else fail_act e)) ?R ?E" for path n
    by (rule triple_catch [OF triple_exec [where ok' = "\<lambda>r. Some (exec_ok r)", OF mig_step.restore]])
      (auto intro!: triple_fail raised_wraith dest: raised_builtin simp: exec_ok_def)
  have set: "triple ?Q (effect_act (\<lambda>t. t\<lparr>t_dest_pid := p\<rparr>)) (\<lambda>_. ?Q) ?E" for p
    by (rule triple_set) simp
  have rm: "triple ?Q (if b then ok_act () else catch_act
      (bind_act (session_exec (recorded Y) ?d (''rm -f '' @ path) None True) (\<lambda>_. ok_act ()))
       (\<lambda>e. if is_exception e then ok_act () else fail_act e)) (\<lambda>_. ?Q) ?E" for b path
    by (rule triple_if, rule triple_ok, assumption, rule triple_remove)
  have ok: "triple (?R (out, err, 0)) (bind_act (effect_act (\<lambda>t. t\<lparr>t_dest_pid := p\<rparr>)) (\<lambda>_. if b then ok_act () else catch_act
      (bind_act (session_exec (recorded Y) ?d (''rm -f '' @ path) None True) (\<lambda>_. ok_act ()))
       (\<lambda>e. if is_exception e then ok_act () else fail_act e))) (\<lambda>_. ?Q) ?E" for out err p b path
    by (rule triple_bind [OF triple_weaken [OF set] rm]) (auto simp: exec_ok_def)
  have last: "triple (?R x) (case x of (out, err, code) \<Rightarrow>
      if code = 2 \<and> b then fail_act (Wraith RestorerStrictFds)
      else if code \<noteq> 0 then fail_act (Wraith (RestorerExited code (py_strip err)))
      else bind_act (effect_act (\<lambda>t. t\<lparr>t_dest_pid := Some (parse_restored_pid out)\<rparr>)) (\<lambda>_. if k then ok_act () else catch_act
        (bind_act (session_exec (recorded Y) ?d (''rm -f '' @ path) None True) (\<lambda>_. ok_act ()))
        (\<lambda>e. if is_exception e then ok_act () else fail_act e))) (\<lambda>_. ?Q) ?E" for x b k path
  proof (cases x)
    case (fields out err code)
    show ?thesis
    proof (cases "code = 0")
      case True
      with fields ok show ?thesis by simp
    next
      case False
      with fields show ?thesis by (auto intro!: triple_fail raised_wraith simp: exec_ok_def)
    qed
  qed
  show ?thesis
    unfolding run_restore_def Let_def
    by (intro triple_bind [OF triple_transition [OF mig_step.begin_restore]] triple_bind [OF triple_read_in]
        triple_bind [OF run] last)
qed

text \<open>From here on only exceptions of Python can come.\<close>

definition builtin_in :: "'f migration_config \<Rightarrow> int \<Rightarrow> bool \<Rightarrow> mstate \<Rightarrow> bool option \<Rightarrow> exn \<Rightarrow> ('y \<times> event list) tele \<Rightarrow> bool" where
  "builtin_in cfg pid vo m ok e t \<longleftrightarrow> (\<exists>b. e = Builtin b) \<and> at cfg pid vo m ok t"

lemma triple_terminate:
  assumes "\<not> vo"
  shows "triple (at cfg pid vo RESTORING (Some True)) (terminate_source (recorded Y) pid)
     (\<lambda>_. at cfg pid vo RESTORING (Some True)) (builtin_in cfg pid vo RESTORING (Some True))"
proof -
  let ?P = "at cfg pid vo RESTORING (Some True)" and ?E = "builtin_in cfg pid vo RESTORING (Some True)"
  have kill: "triple ?P (sys_act (y_kill (recorded Y) pid sig)) (\<lambda>_. ?P) ?E" for sig
    unfolding recorded_calls
    by (rule triple_weaken [OF triple_noting [where ok' = "\<lambda>_. Some True", OF mig_step.kill [OF assms]]])
      (auto simp: builtin_in_def)
  have nap: "triple ?P (effect_act (sys_effect (y_sleep (recorded Y) k))) (\<lambda>_. ?P) ?E" for k
    by (rule triple_set) (simp add: sys_effect_def recorded_def case_prod_unfold)
  have dead: "triple (?E e) (if e = Builtin ProcessLookupError then ok_act () else fail_act e) (\<lambda>_. ?P) ?E" for e
    by (auto intro!: triple_ok triple_fail simp: builtin_in_def)
  show ?thesis
    unfolding terminate_source_def
    by (intro triple_catch [OF _ dead] triple_bind [OF kill] triple_bind [OF nap] triple_catch [OF kill dead])
qed

lemma triple_result:
  "triple (at cfg pid vo m ok) (build_result (recorded Y) cfg mid pid) (\<lambda>_. at cfg pid vo m ok) (builtin_in cfg pid vo m ok)"
proof -
  let ?P = "at cfg pid vo m ok" and ?E = "builtin_in cfg pid vo m ok"
  have read: "triple ?P (\<lambda>t. (ok_or (Builtin b) (f t), t)) (\<lambda>_. ?P) ?E" for b and f :: "_ \<Rightarrow> int option"
    by (rule triple_weaken [OF triple_read]) (auto simp: builtin_in_def)
  have size: "triple ?P (\<lambda>t. case t_snapshot t of None \<Rightarrow> (Inr 0, t)
      | Some path \<Rightarrow> if path \<noteq> [] \<and> y_exists (recorded Y) path (t_sys t)
          then sys_look (y_getsize (recorded Y) path) t else (Inr 0, t)) (\<lambda>_. ?P) ?E"
    by (rule tripleI) (auto simp: builtin_in_def sys_look_def split: option.splits sum.splits if_splits elim!: map_err.elims)
  show ?thesis
    unfolding build_result_def by (intro triple_bind [OF read] triple_bind [OF size] triple_ok)
qed

text \<open>All phases: the migration is complete, or it was raised in one of them.\<close>

definition stopped_early :: "'f migration_config \<Rightarrow> int \<Rightarrow> bool \<Rightarrow> exn \<Rightarrow> ('y \<times> event list) tele \<Rightarrow> bool" where
  "stopped_early cfg pid vo e t \<longleftrightarrow> (case e of
     Wraith w \<Rightarrow> if is_preflight w then in_checks cfg pid vo t
       else \<not> is_rollback w \<and> (\<exists>m ok. m \<in> {CAPTURING, TRANSFERRING, RESTORING} \<and> ok \<noteq> Some True \<and> at cfg pid vo m ok t)
   | Builtin b \<Rightarrow> \<exists>m ok. m \<in> {PREFLIGHT, CAPTURING, TRANSFERRING, RESTORING, COMPLETE} \<and> at cfg pid vo m ok t)"

lemma stopped_raised: "m \<in> {CAPTURING, TRANSFERRING, RESTORING} \<Longrightarrow> raised_in cfg pid vo m e t \<Longrightarrow> stopped_early cfg pid vo e t"
  by (cases e) (auto simp: raised_in_def stopped_early_def)

lemma stopped_builtin: "m \<in> {RESTORING, COMPLETE} \<Longrightarrow> builtin_in cfg pid vo m ok e t \<Longrightarrow> stopped_early cfg pid vo e t"
  unfolding builtin_in_def stopped_early_def by (elim conjE exE) (auto simp only: exn.case insert_iff)

lemma triple_phases:
  "triple (at cfg pid vo INIT None) (migrate_phases (recorded Y) F cfg mid pid vo) (\<lambda>_. at cfg pid vo COMPLETE None)
     (stopped_early cfg pid vo)"
proof -
  let ?E = "stopped_early cfg pid vo"
  have con: "triple (at cfg pid vo INIT None) (session_connect (recorded Y) d) (\<lambda>_. at cfg pid vo INIT None) ?E" for d
    by (rule tripleI) (simp add: session_connect_def at_def)
  have pre: "triple (at cfg pid vo INIT None) (run_preflight (recorded Y) F cfg pid) (\<lambda>_. in_checks cfg pid vo) ?E"
    by (rule triple_weaken [OF triple_preflight]) (auto simp: stopped_early_def split: exn.splits)
  have cap: "triple (in_checks cfg pid vo) (run_capture (recorded Y) cfg mid pid) (\<lambda>_. at cfg pid vo CAPTURING None) ?E"
    by (rule triple_weaken [OF triple_capture _ _ stopped_raised]) auto
  have tra: "triple (at cfg pid vo CAPTURING None) (run_transfer (recorded Y) cfg mid pid) (\<lambda>_. at cfg pid vo TRANSFERRING None) ?E"
    by (rule triple_weaken [OF triple_transfer _ _ stopped_raised]) auto
  have res: "triple (at cfg pid vo TRANSFERRING None) (run_restore (recorded Y) cfg) (\<lambda>_. at cfg pid vo RESTORING (Some True)) ?E"
    by (rule triple_weaken [OF triple_restore _ _ stopped_raised]) auto
  have killed: "triple (at cfg pid vo RESTORING (Some True)) (terminate_source (recorded Y) pid)
      (\<lambda>_. at cfg pid vo RESTORING (Some True)) ?E" if "\<not> vo"
    by (rule triple_weaken [OF triple_terminate [OF that] _ _ stopped_builtin]) auto
  have kill: "triple (at cfg pid vo RESTORING (Some True)) (if vo then ok_act () else terminate_source (recorded Y) pid)
      (\<lambda>_. at cfg pid vo RESTORING (Some True)) ?E"
    by (rule triple_if, rule triple_ok, assumption, rule killed)
  have out: "triple (at cfg pid vo COMPLETE None) (build_result (recorded Y) cfg mid pid) (\<lambda>_. at cfg pid vo COMPLETE None) ?E"
    by (rule triple_weaken [OF triple_result _ _ stopped_builtin]) auto
  show ?thesis
    unfolding migrate_phases_def
    by (intro triple_bind [OF con] triple_bind [OF pre] triple_bind [OF cap] triple_bind [OF tra] triple_bind [OF res]
        triple_bind [OF kill] triple_bind [OF triple_transition [OF mig_step.complete]] out)
qed

section \<open>Rollback, cleanup and the whole migration\<close>

text \<open>How a rollback ends that did not resume the source.\<close>

definition rollback_raised :: "'f migration_config \<Rightarrow> int \<Rightarrow> bool \<Rightarrow> exn \<Rightarrow> ('y \<times> event list) tele \<Rightarrow> bool" where
  "rollback_raised cfg pid vo e t \<longleftrightarrow> (case e of
     Wraith w \<Rightarrow> is_rollback w \<and> \<not> is_preflight w \<and> at cfg pid vo FAILED (Some False) t
   | Builtin b \<Rightarrow> b = Interrupt \<and> at cfg pid vo ROLLING_BACK (Some False) t)"

lemma triple_rollback:
  fixes Y :: "'y pysys"
  assumes "m \<in> {CAPTURING, TRANSFERRING, RESTORING}" "ok \<noteq> Some True"
  shows "triple (at cfg pid vo m ok) (rollback (recorded Y) cfg pid w) (\<lambda>_. at cfg pid vo ROLLED_BACK (Some True))
     (rollback_raised cfg pid vo)"
proof -
  let ?P = "at cfg pid vo ROLLING_BACK (Some False)" and ?Q = "at cfg pid vo ROLLED_BACK (Some True)"
  let ?R = "\<lambda>(code, out, err). at cfg pid vo ROLLING_BACK (Some (run_ok (Inr (code, out, err))))"
  let ?E = "\<lambda>e t. case e of Wraith w \<Rightarrow> is_rollback w \<and> \<not> is_preflight w \<and> at cfg pid vo FAILED (Some False) t | Builtin b \<Rightarrow> ?P t"
  have esc: "triple ?P (bind_act (transition (recorded Y) FAILED) (\<lambda>_. fail_act (Wraith (RollbackError w c)))) Q E'"
    if "\<And>t. at cfg pid vo FAILED (Some False) t \<Longrightarrow> E' (Wraith (RollbackError w c)) t"
    for c E' and Q :: "unit \<Rightarrow> ('y \<times> event list) tele \<Rightarrow> bool"
    using that by (intro triple_bind [OF triple_transition [OF mig_step.failed]] triple_fail)
  have fin: "triple (?R x) (case x of (code, out, err) \<Rightarrow> if code = 0 then transition (recorded Y) ROLLED_BACK
      else bind_act (transition (recorded Y) FAILED) (\<lambda>_. fail_act (Wraith (RollbackError w (ResumeStderr (py_strip err))))))
      (\<lambda>_. ?Q) ?E" for x
  proof (cases x)
    case (fields code out err)
    show ?thesis
    proof (cases "code = 0")
      case True
      with fields show ?thesis using triple_transition [OF mig_step.rolled_back] by (simp add: run_ok_def)
    next
      case False
      with fields show ?thesis by (simp add: run_ok_def) (rule esc, simp)
    qed
  qed
  have run: "triple (at cfg pid vo ROLLING_BACK None) (sys_act (y_run (recorded Y) (resume_cmd (cfg_destination cfg) pid) 10)) ?R ?E"
    unfolding recorded_calls
    by (rule triple_weaken [OF triple_noting [where ok' = "\<lambda>r. Some (run_ok r)", OF mig_step.resume]])
      (auto simp: run_ok_def split: prod.splits)
  have handler: "triple (?E e) (case e of
      Builtin b \<Rightarrow> if b = TimeoutExpired then bind_act (transition (recorded Y) FAILED) (\<lambda>_. fail_act (Wraith (RollbackError w ResumeTimedOut)))
        else if b = Interrupt then fail_act e
        else bind_act (transition (recorded Y) FAILED) (\<lambda>_. fail_act (Wraith (RollbackError w (ResumeRaised b))))
    | Wraith w \<Rightarrow> fail_act e) (\<lambda>_ :: unit. ?Q) (rollback_raised cfg pid vo)" for e
  proof (cases e)
    case (Builtin b)
    have "triple ?P (bind_act (transition (recorded Y) FAILED) (\<lambda>_. fail_act (Wraith (RollbackError w c))))
        (\<lambda>_ :: unit. ?Q) (rollback_raised cfg pid vo)" for c
      by (rule esc) (simp add: rollback_raised_def)
    with Builtin show ?thesis by (simp add: triple_fail rollback_raised_def)
  qed (auto intro!: triple_fail simp: rollback_raised_def)
  show ?thesis
    unfolding rollback_def Let_def
    by (intro triple_bind [OF triple_transition [OF mig_step.begin_rollback [OF assms]]] triple_catch [OF triple_bind [OF run fin] handler])
qed

text \<open>The end of a migration, by its outcome; \<open>tidy\<close> says that removing a file raises nothing but an
  \<open>OSError\<close>.\<close>

definition tidy :: "'y pysys \<Rightarrow> bool" where
  "tidy Y \<longleftrightarrow> (\<forall>path y b z. y_unlink Y path y = (Inl b, z) \<longrightarrow> is_os_error b)"

definition reached :: "'f migration_config \<Rightarrow> int \<Rightarrow> bool \<Rightarrow> mstate \<Rightarrow> bool option \<Rightarrow> ('y \<times> event list) tele \<Rightarrow> bool" where
  "reached cfg pid vo m ok t \<longleftrightarrow> t_state t = m \<and> mig_path cfg pid vo (snd (t_sys t)) (m, ok)"

definition raised_at :: "bool \<Rightarrow> (mstate \<Rightarrow> bool option \<Rightarrow> 's \<Rightarrow> bool) \<Rightarrow> exn \<Rightarrow> 's \<Rightarrow> bool" where
  "raised_at law Pm e t \<longleftrightarrow> (case e of
     Wraith w \<Rightarrow> if is_preflight w then Pm ROLLED_BACK None t
       else if is_rollback w then Pm FAILED (Some False) t else Pm ROLLED_BACK (Some True) t
   | Builtin b \<Rightarrow> \<exists>m ok. Pm m ok t \<and> (law \<and> b \<noteq> Interrupt \<longrightarrow> m \<notin> {ROLLING_BACK, ROLLED_BACK, FAILED}))"

lemma raised_at_builtin:
  "Pm m ok t \<Longrightarrow> (law \<Longrightarrow> b \<noteq> Interrupt \<Longrightarrow> m \<notin> {ROLLING_BACK, ROLLED_BACK, FAILED}) \<Longrightarrow> raised_at law Pm (Builtin b) t"
  unfolding raised_at_def exn.case by blast

lemma triple_handled:
  fixes Y :: "'y pysys"
  shows "triple (at cfg pid vo INIT None)
     (catch_act (migrate_phases (recorded Y) F cfg mid pid vo) (migrate_handler (recorded Y) cfg pid))
     (\<lambda>_. at cfg pid vo COMPLETE None) (raised_at law (at cfg pid vo))"
proof (rule triple_catch [OF triple_phases])
  let ?E = "raised_at law (at cfg pid vo)"
  fix e
  show "triple (stopped_early cfg pid vo e) (migrate_handler (recorded Y) cfg pid e) (\<lambda>_. at cfg pid vo COMPLETE None) ?E"
  proof (cases e)
    case (Builtin b)
    have "raised_at law (at cfg pid vo) (Builtin b) t"
      if "m \<in> {PREFLIGHT, CAPTURING, TRANSFERRING, RESTORING, COMPLETE}" "at cfg pid vo m ok t"
      for m ok and t :: "('y \<times> event list) tele"
      using that by (intro raised_at_builtin [of "at cfg pid vo" m ok]) auto
    with Builtin show ?thesis
      by (simp only: migrate_handler_def exn.case) (rule triple_fail, auto simp: stopped_early_def)
  next
    case (Wraith w)
    show ?thesis
    proof (cases "is_preflight w")
      case True
      have "triple (in_checks cfg pid vo) (bind_act (transition (recorded Y) ROLLED_BACK) (\<lambda>_. fail_act e))
          (\<lambda>_. at cfg pid vo COMPLETE None) ?E"
        using True Wraith
        by (intro triple_bind [OF triple_transition [OF mig_step.refuse]] triple_fail) (simp add: raised_at_def)
      moreover have "stopped_early cfg pid vo e = (in_checks cfg pid vo :: ('y \<times> event list) tele \<Rightarrow> bool)"
        using True Wraith by (intro ext) (simp add: stopped_early_def)
      ultimately show ?thesis using True Wraith by (simp add: migrate_handler_def)
    next
      case False
      have "triple (at cfg pid vo m ok) (bind_act (rollback (recorded Y) cfg pid w) (\<lambda>_. fail_act e))
          (\<lambda>_. at cfg pid vo COMPLETE None) ?E"
        if "\<not> is_rollback w" "m \<in> {CAPTURING, TRANSFERRING, RESTORING}" "ok \<noteq> Some True" for m ok
        using False Wraith that
        by (intro triple_bind [OF triple_weaken [OF triple_rollback [OF that(2,3)]]] triple_fail)
          (auto simp: raised_at_def rollback_raised_def split: exn.splits if_splits)
      note phase = this
      have "triple (stopped_early cfg pid vo e) (bind_act (rollback (recorded Y) cfg pid w) (\<lambda>_. fail_act e))
          (\<lambda>_. at cfg pid vo COMPLETE None) ?E"
      proof (rule tripleI)
        fix t :: "('y \<times> event list) tele" assume "stopped_early cfg pid vo e t"
        with False Wraith obtain m ok where "\<not> is_rollback w" "m \<in> {CAPTURING, TRANSFERRING, RESTORING}"
          "ok \<noteq> Some True" and t: "at cfg pid vo m ok t"
          unfolding stopped_early_def by auto
        from phase [OF this(1-3), unfolded triple_def, rule_format, OF t]
        show "case bind_act (rollback (recorded Y) cfg pid w) (\<lambda>_. fail_act e) t of
            (Inr x, u) \<Rightarrow> at cfg pid vo COMPLETE None u | (Inl e, u) \<Rightarrow> ?E e u" .
      qed
      with False Wraith show ?thesis by (simp add: migrate_handler_def)
    qed
  qed
qed

lemma cleanup_keeps:
  fixes t :: "('y \<times> event list) tele"
  assumes "at cfg pid vo m ok t" "cleanup_snapshot (recorded Y) t = (r, u)"
  shows "at cfg pid vo m ok u \<and> (\<forall>e. r = Inl e \<longrightarrow> (\<exists>b. e = Builtin b) \<and> \<not> tidy Y)"
proof (cases "\<exists>path. t_snapshot t = Some path \<and> path \<noteq> [] \<and> y_exists (recorded Y) path (t_sys t)")
  case False
  with assms show ?thesis by (auto simp: cleanup_snapshot_def split: option.splits)
next
  case True
  then obtain path where p: "t_snapshot t = Some path" "path \<noteq> []" "y_exists (recorded Y) path (t_sys t)" by blast
  obtain x z where x: "y_unlink Y path (fst (t_sys t)) = (x, z)" by fastforce
  let ?u = "t\<lparr>t_sys := (z, snd (t_sys t) @ [Unlinked path x])\<rparr>"
  have "noting (Unlinked path) (y_unlink Y path) (t_sys t) = (x, (z, snd (t_sys t) @ [Unlinked path x]))"
    using x by (simp add: noting_def case_prod_unfold)
  then have u: "u = ?u" "r = (case x of Inr _ \<Rightarrow> Inr () | Inl b \<Rightarrow> if is_os_error b then Inr () else Inl (Builtin b))"
    using assms(2) p
    by (cases x; auto simp: cleanup_snapshot_def catch_act_def sys_act_def recorded_calls act_simps split: if_splits)+
  have "at cfg pid vo m ok ?u"
    using assms(1) by (rule at_move [OF _ mig_step.unlink]) (use assms(1) in \<open>simp_all add: at_def\<close>)
  with u x show ?thesis by (auto simp: tidy_def split: sum.splits if_splits)
qed

lemma raised_at_mono: "raised_at law P e t \<Longrightarrow> (\<And>m ok. P m ok t \<Longrightarrow> R m ok u) \<Longrightarrow> raised_at law R e u"
  unfolding raised_at_def by (fastforce split: exn.splits if_splits)

lemma triple_cleanup_raised:
  fixes Y :: "'y pysys"
  shows "triple (raised_at (tidy Y) (at cfg pid vo) e) (cleanup_snapshot (recorded Y))
     (\<lambda>_. raised_at (tidy Y) (at cfg pid vo) e) (raised_at (tidy Y) (at cfg pid vo))"
proof (rule tripleI)
  fix t :: "('y \<times> event list) tele" assume t: "raised_at (tidy Y) (at cfg pid vo) e t"
  obtain r u where c: "cleanup_snapshot (recorded Y) t = (r, u)" by fastforce
  have keep: "at cfg pid vo m ok u" if "at cfg pid vo m ok t" for m ok
    using cleanup_keeps [OF that c] by blast
  obtain m ok where m: "at cfg pid vo m ok t"
    using t unfolding raised_at_def by (auto split: exn.splits if_splits)
  show "case cleanup_snapshot (recorded Y) t of (Inr x, u) \<Rightarrow> raised_at (tidy Y) (at cfg pid vo) e u
      | (Inl e, u) \<Rightarrow> raised_at (tidy Y) (at cfg pid vo) e u"
  proof (cases r)
    case (Inr x)
    have "raised_at (tidy Y) (at cfg pid vo) e u" using t keep by (rule raised_at_mono)
    with c Inr show ?thesis by simp
  next
    case (Inl d)
    with cleanup_keeps [OF m c] obtain b where "d = Builtin b" "\<not> tidy Y" by blast
    with c Inl keep [OF m] show ?thesis by (simp add: raised_at_builtin)
  qed
qed

lemma triple_cleanup_done:
  fixes Y :: "'y pysys"
  shows "triple (at cfg pid vo COMPLETE None) (cleanup_snapshot (recorded Y))
     (\<lambda>_. at cfg pid vo COMPLETE None) (raised_at (tidy Y) (at cfg pid vo))"
proof (rule tripleI)
  fix t :: "('y \<times> event list) tele" assume t: "at cfg pid vo COMPLETE None t"
  obtain r u where c: "cleanup_snapshot (recorded Y) t = (r, u)" by fastforce
  from cleanup_keeps [OF t c] c
  show "case cleanup_snapshot (recorded Y) t of (Inr x, u) \<Rightarrow> at cfg pid vo COMPLETE None u
      | (Inl e, u) \<Rightarrow> raised_at (tidy Y) (at cfg pid vo) e u"
    by (cases r) (auto intro!: raised_at_builtin [of _ COMPLETE None])
qed

lemma triple_close:
  assumes "\<And>t u. t_state u = t_state t \<Longrightarrow> snd (t_sys u) = snd (t_sys t) \<Longrightarrow> P t \<Longrightarrow> R u"
  shows "triple P (effect_act (session_close (recorded Y))) (\<lambda>_. R) E"
proof (rule triple_effect)
  fix t assume "P t"
  then show "R (session_close (recorded Y) t)"
    by (rule assms [rotated 2]) (simp_all add: session_close_def recorded_def case_prod_unfold)
qed

lemma triple_session:
  fixes Y :: "'y pysys"
  shows "triple (at cfg pid vo INIT None)
     (finally_act (finally_act
         (catch_act (migrate_phases (recorded Y) F cfg mid pid vo) (migrate_handler (recorded Y) cfg pid))
         (cleanup_snapshot (recorded Y))) (effect_act (session_close (recorded Y))))
     (\<lambda>_. reached cfg pid vo COMPLETE None) (raised_at (tidy Y) (reached cfg pid vo))"
proof -
  have "triple (at cfg pid vo INIT None)
      (finally_act (catch_act (migrate_phases (recorded Y) F cfg mid pid vo) (migrate_handler (recorded Y) cfg pid))
        (cleanup_snapshot (recorded Y)))
      (\<lambda>_. at cfg pid vo COMPLETE None) (raised_at (tidy Y) (at cfg pid vo))"
    by (rule triple_finally [OF triple_handled triple_cleanup_done triple_cleanup_raised])
  then show ?thesis
    by (rule triple_finally)
      (auto intro!: triple_close elim!: raised_at_mono simp: reached_def at_def)
qed

text \<open>Every way a migration can end, with the path of the protocol it has taken.\<close>

definition migration_end :: "'y pysys \<Rightarrow> 'f migration_config \<Rightarrow> int \<Rightarrow> bool \<Rightarrow> exn + 'r \<Rightarrow> ('y \<times> event list) tele \<Rightarrow> bool" where
  "migration_end Y cfg pid vo r t \<longleftrightarrow> (case r of
     Inr _ \<Rightarrow> reached cfg pid vo COMPLETE None t
   | Inl e \<Rightarrow> raised_at (tidy Y) (reached cfg pid vo) e t \<or>
       t_state t = INIT \<and> snd (t_sys t) = [] \<and> (\<forall>w. e = Wraith w \<longrightarrow> \<not> is_preflight w \<and> \<not> is_rollback w))"

lemma migrate_ends:
  fixes Y :: "'y pysys"
  assumes "migrate (recorded Y) F cfg mid pid vo (new_tele (y, [])) = (r, t)"
  shows "migration_end Y cfg pid vo r t"
proof -
  let ?t = "new_tele (y, [])"
  obtain x z where x: "y_ssh_connect Y (cfg_destination cfg) y = (x, z)" by fastforce
  then have c: "y_ssh_connect (recorded Y) (cfg_destination cfg) (t_sys ?t) = (x, (z, []))"
    by (simp add: recorded_def silent_def new_tele_def)
  show ?thesis
  proof (cases x)
    case (Inl e)
    with assms c show ?thesis
      by (auto simp: migrate_def bind_act_def session_connect_def migration_end_def new_tele_def split: ssh_error.splits)
  next
    case (Inr u)
    let ?u = "?t\<lparr>t_client := True, t_sys := (z, [])\<rparr>"
    have at: "at cfg pid vo INIT None ?u" by (simp add: at_def new_tele_def mig_path.start)
    have "session_connect (recorded Y) (cfg_destination cfg) ?t = (Inr (), ?u)"
      using Inr c by (simp add: session_connect_def) (simp add: new_tele_def)
    with assms have run: "finally_act (finally_act
         (catch_act (migrate_phases (recorded Y) F cfg mid pid vo) (migrate_handler (recorded Y) cfg pid))
         (cleanup_snapshot (recorded Y))) (effect_act (session_close (recorded Y))) ?u = (r, t)"
      by (simp add: migrate_def bind_act_step)
    show ?thesis
      using tripleD [OF triple_session at run] by (cases r) (simp_all add: migration_end_def)
  qed
qed

end
