(* ===== verification/Migrations.thy ===== *)
theory Migrations
  imports Orchestration
begin

text \<open>
  The properties of the orchestrator: what its runs guarantee to the source process, and the
  systems on which the witnesses run it.
\<close>

section \<open>Systems to run on\<close>

text \<open>A desk: files, a destination that answers every check well, and programs and signals that end
  as the parameters say. The state is the list of the files that exist.\<close>

definition desk_exec :: "string \<Rightarrow> int \<Rightarrow> string \<Rightarrow> string \<times> string \<times> int" where
  "desk_exec restored code cmd =
     (if cmd = ''echo wraith-ping'' then (''wraith-ping'', [], 0)
      else if cmd = ''uname -m'' then (''x86_64'', [], 0)
      else if cmd = ''free -k'' then (''Mem: 9 9 9 9 9 9'', [], 0)
      else if starts_with ''wraith-restorer'' cmd then (restored, [], code)
      else ([], [], 0))"

definition desk :: "(string list \<Rightarrow> builtin_exn + int \<times> string \<times> string) \<Rightarrow> string \<Rightarrow> int \<Rightarrow> string list pysys" where
  "desk runs restored code = \<lparr>
     y_isdir = (\<lambda>p y. True),
     y_open_rdonly = (\<lambda>p y. (Inr (), y)),
     y_read_text = (\<lambda>p y. Inr ''VmRSS: 4 kB''),
     y_machine = (\<lambda>y. ''x86_64''),
     y_ssh_connect = (\<lambda>d y. (Inr (), y)),
     y_ssh_exec = (\<lambda>cmd n y. (Inr (desk_exec restored code cmd), y)),
     y_ssh_background = (\<lambda>cmd y. (Inr (), y)),
     y_ssh_close = (\<lambda>y. y),
     y_mkstemp = (\<lambda>p q y. (Inr (p @ q), (p @ q) # y)),
     y_getsize = (\<lambda>p y. Inr 1),
     y_exists = (\<lambda>p y. p \<in> set y),
     y_unlink = (\<lambda>p y. (Inr (), removeAll p y)),
     y_run = (\<lambda>cmd n y. (runs cmd, y)),
     y_kill = (\<lambda>p sig y. (Inr (), y)),
     y_sleep = (\<lambda>n y. y),
     y_log_state = (\<lambda>old new y. y)\<rparr>"

definition small_floats :: "int \<Rightarrow> unit pyfloat" where
  "small_floats limit = \<lparr>pf_nonpositive = (\<lambda>_. False), pf_within = (\<lambda>kb _. kb \<le> limit), pf_half_more = (\<lambda>kb. kb * 3 div 2)\<rparr>"

definition plain_config :: "unit migration_config" where
  "plain_config = \<lparr>cfg_destination = default_destination ''w2'', cfg_capture = default_capture (),
     cfg_transfer = default_transfer, cfg_restore = default_restore\<rparr>"

text \<open>Programs that all succeed, and ones where a program ends in its own way.\<close>

definition all_well :: "string list \<Rightarrow> builtin_exn + int \<times> string \<times> string" where
  "all_well cmd = Inr (0, [], [])"

definition transmitter_ends :: "(builtin_exn + int \<times> string \<times> string) \<Rightarrow> string list \<Rightarrow> builtin_exn + int \<times> string \<times> string" where
  "transmitter_ends r cmd = (if hd cmd = ''wraith-transmitter'' then r else Inr (0, [], []))"

definition desk_run ::
    "(string list \<Rightarrow> builtin_exn + int \<times> string \<times> string) \<Rightarrow> int \<Rightarrow>
     (exn + migration_result) \<times> (string list \<times> event list) tele" where
  "desk_run runs code = migrate (recorded (desk runs ''Process 42 is now running'' code)) (small_floats 64) plain_config
     ''12345678-9'' 7 False (new_tele ([], []))"

text \<open>Running an action step by step: a continuation is looked at only when it is reached.\<close>

lemma run_bind: "bind_act m f s = (case m s of (r, t) \<Rightarrow> (case r of Inl e \<Rightarrow> (Inl e, t) | Inr x \<Rightarrow> f x t))"
  by (simp add: bind_act_def split: prod.split sum.split)

lemma run_catch: "catch_act m h s = (case m s of (r, t) \<Rightarrow> (case r of Inl e \<Rightarrow> h e t | Inr x \<Rightarrow> (Inr x, t)))"
  by (simp add: catch_act_def split: prod.split sum.split)

lemma run_finally: "finally_act m f s = (case m s of (r, t) \<Rightarrow> (case f t of (x, u) \<Rightarrow> (case x of Inl e \<Rightarrow> (Inl e, u) | Inr _ \<Rightarrow> (r, u))))"
  by (simp add: finally_act_def split: prod.split sum.split)

lemma weak_congs:
  "m s = m' s \<Longrightarrow> bind_act m f s = bind_act m' f s" "m s = m' s \<Longrightarrow> catch_act m h s = catch_act m' h s"
  "m s = m' s \<Longrightarrow> finally_act m g s = finally_act m' g s"
  by (simp_all add: bind_act_def catch_act_def finally_act_def)

lemmas run_steps = run_bind run_catch run_finally act_simps Let_def

lemmas desk_defs = recorded_def desk_def silent_def noting_def plain_config_def small_floats_def
  default_destination_def default_capture_def default_transfer_def default_restore_def

lemma desk_rss: "status_field_kb ''VmRSS'' ''VmRSS: 4 kB'' = Inr 4"
  by code_simp

lemma desk_free: "parse_free_available ''Mem: 9 9 9 9 9 9'' = Inr 9"
  by code_simp

lemma desk_words: "py_contains ''wraith-ping'' ''wraith-ping''" "py_strip ''x86_64'' = ''x86_64''"
  by code_simp+

lemma desk_replies:
  "desk_exec r c ''echo wraith-ping'' = (''wraith-ping'', [], 0)" "desk_exec r c ''uname -m'' = (''x86_64'', [], 0)"
  "desk_exec r c ''free -k'' = (''Mem: 9 9 9 9 9 9'', [], 0)"
  by (simp_all add: desk_exec_def)

text \<open>The calls of a recorded desk.\<close>

lemma desk_calls:
  fixes runs out code
  defines "Y \<equiv> recorded (desk runs out code)"
  shows "y_machine Y (ys, es) = ''x86_64''" "y_read_text Y p (ys, es) = Inr ''VmRSS: 4 kB''"
    "y_mkstemp Y p q (ys, es) = (Inr (p @ q), ((p @ q) # ys, es))" "y_getsize Y p (ys, es) = Inr 1"
    "y_exists Y p (ys, es) \<longleftrightarrow> p \<in> set ys" "y_unlink Y p (ys, es) = (Inr (), (removeAll p ys, es @ [Unlinked p (Inr ())]))"
    "y_run Y cmd n (ys, es) = (runs cmd, (ys, es @ [Ran cmd (runs cmd)]))"
    "y_kill Y pid sig (ys, es) = (Inr (), (ys, es @ [Killed pid sig (Inr ())]))"
    "y_ssh_connect Y d (ys, es) = (Inr (), (ys, es))" "y_ssh_background Y c (ys, es) = (Inr (), (ys, es @ [Started c (Inr ())]))"
    "y_ssh_close Y (ys, es) = (ys, es)" "y_sleep Y ms (ys, es) = (ys, es)"
    "y_log_state Y old new (ys, es) = (ys, es @ [Entered new])"
  by (simp_all add: Y_def recorded_def desk_def silent_def noting_def)

abbreviation desk_at ::
    "mstate \<Rightarrow> string option \<Rightarrow> string option \<Rightarrow> int option \<Rightarrow> string list \<Rightarrow> event list \<Rightarrow>
     (string list \<times> event list) tele" where
  "desk_at m sn rm dp ys es \<equiv>
     \<lparr>t_state = m, t_snapshot = sn, t_remote = rm, t_dest_pid = dp, t_client = True, t_sys = (ys, es)\<rparr>"

lemma desk_session:
  "session_exec (recorded (desk runs out code)) d cmd n chk (desk_at m sn rm dp ys es) =
     (case desk_exec out code cmd of (o', e', c') \<Rightarrow>
       (if chk \<and> c' \<noteq> 0 then Inl (Wraith (CommandError cmd c' e')) else Inr (o', e', c'),
        desk_at m sn rm dp ys (es @ [Execd cmd (Inr (o', e', c'))])))"
  by (simp add: session_exec_def ensure_connected_def sys_act_def run_steps desk_defs split: prod.split)

lemma desk_local:
  "check_source_process_exists (recorded (desk runs out code)) 7 (ys, es) =
     \<lparr>cr_name = SourceProcessExists, cr_passed = True, cr_message = ProcessFound 7, cr_blocking = True\<rparr>"
  "check_source_process_permissions (recorded (desk runs out code)) 7 (desk_at m sn rm dp ys es) =
     (Inr \<lparr>cr_name = SourceProcessPermissions, cr_passed = True, cr_message = PtraceConfirmed 7, cr_blocking = True\<rparr>,
      desk_at m sn rm dp ys es)"
  "check_source_process_size (recorded (desk runs out code)) (small_floats 64) plain_config 7 (desk_at m sn rm dp ys es) =
     (Inr \<lparr>cr_name = SourceProcessSize, cr_passed = True, cr_message = RssWithin 4, cr_blocking = False\<rparr>,
      desk_at m sn rm dp ys es)"
  "check_source_arch (recorded (desk runs out code)) (ys, es) =
     \<lparr>cr_name = SourceArch, cr_passed = True, cr_message = SourceArchIs ''x86_64'' True, cr_blocking = True\<rparr>"
  by (simp_all add: check_source_process_exists_def check_source_process_permissions_def check_source_process_size_def
      check_source_arch_def read_proc_status_kb_def sys_act_def run_steps desk_defs desk_rss)

lemma desk_large:
  "check_source_process_size (recorded (desk runs out code)) (small_floats 2) plain_config 7 (desk_at m sn rm dp ys es) =
     (Inr \<lparr>cr_name = SourceProcessSize, cr_passed = False, cr_message = RssExceeds 4, cr_blocking = True\<rparr>,
      desk_at m sn rm dp ys es)"
  by (simp add: check_source_process_size_def read_proc_status_kb_def run_steps desk_defs desk_rss)

abbreviation desk_said :: "string \<Rightarrow> string \<Rightarrow> event" where
  "desk_said cmd answer \<equiv> Execd cmd (Inr (answer, [], 0))"

lemma desk_reachable:
  "check_destination_reachable (recorded (desk runs out code)) d (desk_at m sn rm dp ys es) =
     (Inr \<lparr>cr_name = DestinationReachable, cr_passed = True, cr_message = Reachable (ssh_addr d), cr_blocking = True\<rparr>,
      desk_at m sn rm dp ys (es @ [desk_said ''echo wraith-ping'' ''wraith-ping'']))"
  by (simp only: check_destination_reachable_def guarded_def) (simp add: run_steps desk_session desk_replies desk_words cong: weak_congs)

lemma desk_arch:
  "check_destination_arch (recorded (desk runs out code)) d (desk_at m sn rm dp ys es) =
     (Inr \<lparr>cr_name = ArchitectureMatch, cr_passed = True, cr_message = ArchPair ''x86_64'' ''x86_64'', cr_blocking = True\<rparr>,
      desk_at m sn rm dp ys (es @ [desk_said ''uname -m'' ''x86_64'']))"
  by (simp only: check_destination_arch_def guarded_def) (simp add: run_steps desk_session desk_replies desk_words desk_calls cong: weak_congs)

lemma desk_resources:
  "check_destination_resources (recorded (desk runs out code)) (small_floats limit) d 7 (desk_at m sn rm dp ys es) =
     (Inr \<lparr>cr_name = DestinationResources, cr_passed = True, cr_message = Available 9 6, cr_blocking = True\<rparr>,
      desk_at m sn rm dp ys (es @ [desk_said ''free -k'' ''Mem: 9 9 9 9 9 9'']))"
  by (simp only: check_destination_resources_def guarded_def)
    (simp add: run_steps desk_session desk_replies desk_free desk_rss read_proc_status_kb_def sys_look_def desk_calls small_floats_def cong: weak_congs)

lemma desk_binaries:
  "check_binaries_present (recorded (desk runs out code)) (default_destination host) (desk_at m sn rm dp ys es) =
     (Inr \<lparr>cr_name = BinariesPresent, cr_passed = True, cr_message = BinariesFound, cr_blocking = True\<rparr>,
      desk_at m sn rm dp ys (es @ [desk_said ''command -v wraith-restorer || test -x wraith-restorer'' [],
        desk_said ''command -v wraith-receiver || test -x wraith-receiver'' []]))"
  by (simp only: check_binaries_present_def binary_missing_def default_destination_def)
    (simp add: run_steps desk_session desk_exec_def starts_with_def cong: weak_congs)

definition desk_checked :: "event list" where
  "desk_checked = [desk_said ''echo wraith-ping'' ''wraith-ping'', desk_said ''uname -m'' ''x86_64'',
     desk_said ''free -k'' ''Mem: 9 9 9 9 9 9'', desk_said ''command -v wraith-restorer || test -x wraith-restorer'' [],
     desk_said ''command -v wraith-receiver || test -x wraith-receiver'' []]"

lemma desk_host: "cfg_destination plain_config = default_destination ''w2''"
  by (simp add: plain_config_def)

lemma desk_preflight:
  "run_preflight (recorded (desk runs out code)) (small_floats 64) plain_config 7 (desk_at INIT sn rm dp ys es) =
     (Inr (), desk_at PREFLIGHT sn rm dp ys (es @ Entered PREFLIGHT # desk_checked))"
  by (simp only: run_preflight_def run_checks_def)
    (simp add: run_steps transition_to_def desk_calls desk_local desk_reachable desk_arch desk_resources desk_binaries desk_host
      desk_checked_def blocking_failures_def cong: weak_congs)

lemma desk_refusal:
  "run_preflight (recorded (desk runs out code)) (small_floats 2) plain_config 7 (desk_at INIT sn rm dp ys es) =
     (Inl (Wraith (PreflightError SourceProcessSize (RssExceeds 4))),
      desk_at PREFLIGHT sn rm dp ys (es @ Entered PREFLIGHT # desk_checked))"
  by (simp only: run_preflight_def run_checks_def)
    (simp add: run_steps transition_to_def desk_calls desk_local desk_large desk_reachable desk_arch desk_resources desk_binaries
      desk_host desk_checked_def blocking_failures_def cong: weak_congs)

text \<open>The later phases, as far as the programs that are run decide.\<close>

definition desk_snapshot :: string where "desk_snapshot = ''wraith_12345678_.pb''"
definition desk_remote :: string where "desk_remote = ''/tmp/wraith_12345678.pb''"

definition desk_capture :: "string list" where
  "desk_capture = [''wraith-capturer'', ''capture'', ''--pid'', ''7'', ''--output'', desk_snapshot]"

definition desk_transmit :: "string list" where
  "desk_transmit = [''wraith-transmitter'', ''--snapshot'', desk_snapshot, ''--dest'', ''w2:9999'', ''--retries'', ''3'',
     ''--timeout'', ''300'', ''--pid'', ''7'']"

definition desk_receive :: string where
  "desk_receive =
     ''nohup wraith-receiver --listen 0.0.0.0:9999 --output /tmp/wraith_12345678.pb </dev/null >/tmp/wraith_receiver.log 2>&1 &''"

definition desk_restore :: string where "desk_restore = ''wraith-restorer --snapshot /tmp/wraith_12345678.pb''"

definition desk_resume :: "string list" where "desk_resume = [''wraith-capturer'', ''resume'', ''--pid'', ''7'']"

lemma desk_digits: "digit_char 0 = CHR ''0''" "digit_char 3 = CHR ''3''" "digit_char 7 = CHR ''7''" "digit_char 9 = CHR ''9''"
  by code_simp+

lemma desk_numbers: "show_int 7 = ''7''" "show_int 3 = ''3''" "show_int 300 = ''300''" "show_int 9999 = ''9999''"
  by (simp_all add: show_int_def show_nat_dec dec_digits.simps desk_digits)

lemma desk_commands:
  "snapshot_prefix ''12345678-9'' @ ''.pb'' = desk_snapshot"
  "capture_cmd (cfg_destination plain_config) 7 desk_snapshot = desk_capture"
  "remote_snapshot_path (cfg_destination plain_config) ''12345678-9'' = desk_remote"
  "''nohup '' @ receiver_cmd (cfg_destination plain_config) desk_remote @ '' </dev/null >/tmp/wraith_receiver.log 2>&1 &'' = desk_receive"
  "''wraith-transmitter'' # transmitter_args plain_config 7 desk_snapshot = desk_transmit"
  "restorer_cmd plain_config desk_remote = desk_restore"
  "resume_cmd (cfg_destination plain_config) 7 = desk_resume"
  by (simp_all add: snapshot_prefix_def desk_snapshot_def capture_cmd_def plain_config_def default_destination_def
      desk_capture_def remote_snapshot_path_def desk_remote_def receiver_cmd_def desk_receive_def transmitter_args_def
      transfer_addr_def default_transfer_def default_restore_def desk_transmit_def restorer_cmd_def desk_restore_def
      resume_cmd_def desk_resume_def desk_numbers)

lemma desk_config:
  "tc_timeout_s (cfg_transfer plain_config) = 300"
  "d_transmitter_path (cfg_destination plain_config) = ''wraith-transmitter''"
  "rc_strict_fds (cfg_restore plain_config) = False" "rc_keep_snapshot (cfg_restore plain_config) = False"
  by (simp_all add: plain_config_def default_transfer_def default_destination_def default_restore_def)

lemma desk_captured:
  assumes "runs desk_capture = Inr (0, [], [])"
  shows "run_capture (recorded (desk runs out code)) plain_config ''12345678-9'' 7 (desk_at PREFLIGHT sn rm dp ys es) =
     (Inr (), desk_at CAPTURING (Some desk_snapshot) rm dp (desk_snapshot # ys)
       (es @ [Entered CAPTURING, Ran desk_capture (Inr (0, [], []))]))"
  using assms by (simp only: run_capture_def)
    (simp add: run_steps transition_to_def desk_calls desk_commands sys_act_def sys_look_def cong: weak_congs)

lemma desk_transferred:
  assumes "runs desk_transmit = r"
  shows "run_transfer (recorded (desk runs out code)) plain_config ''12345678-9'' 7
      (desk_at CAPTURING (Some desk_snapshot) rm dp ys es) =
     (case r of
        Inr (c, so, se) \<Rightarrow> if c \<noteq> 0 then Inl (Wraith (TransmitterExited c (py_strip se))) else Inr ()
      | Inl b \<Rightarrow> Inl (if b = TimeoutExpired then Wraith (TransferTimedOut 300)
          else if b = FileNotFoundError then Wraith (TransmitterNotFound ''wraith-transmitter'') else Builtin b),
      desk_at TRANSFERRING (Some desk_snapshot) (Some desk_remote) dp ys
       (es @ [Entered TRANSFERRING, Started desk_receive (Inr ()), Ran desk_transmit r]))"
  using assms by (cases r; simp only: run_transfer_def)
    (auto simp: run_steps transition_to_def desk_calls desk_commands [simplified] sys_act_def sys_look_def sys_effect_def
      session_exec_background_def ensure_connected_def desk_config cong: weak_congs)

lemma desk_restored:
  "run_restore (recorded (desk runs out code)) plain_config (desk_at TRANSFERRING sn (Some desk_remote) dp ys es) =
     (if code = 0
      then (Inr (), desk_at RESTORING sn (Some desk_remote) (Some (parse_restored_pid out)) ys
        (es @ [Entered RESTORING, desk_said desk_restore out, desk_said (''rm -f '' @ desk_remote) []]))
      else (Inl (Wraith (RestorerExited code [])), desk_at RESTORING sn (Some desk_remote) dp ys
        (es @ [Entered RESTORING, Execd desk_restore (Inr (out, [], code))])))"
proof -
  have exec: "desk_exec out c desk_restore = (out, [], c)" "desk_exec out c (''rm -f '' @ desk_remote) = ([], [], 0)" for c
    by (simp_all add: desk_exec_def desk_restore_def starts_with_def desk_remote_def)
  have "py_strip [] = []" by (simp add: py_strip_def)
  then show ?thesis
    by (simp only: run_restore_def)
      (simp add: exec exec(2) [simplified] run_steps transition_to_def desk_calls desk_commands desk_session desk_config cong: weak_congs)
qed

lemma desk_killed:
  "terminate_source (recorded (desk runs out code)) 7 (desk_at m sn rm dp ys es) =
     (Inr (), desk_at m sn rm dp ys (es @ [Killed 7 15 (Inr ()), Killed 7 9 (Inr ())]))"
  by (simp only: terminate_source_def)
    (simp add: run_steps desk_calls sys_act_def sys_effect_def sigterm_def sigkill_def cong: weak_congs)

lemma desk_rollback:
  assumes "runs desk_resume = Inr (0, [], [])"
  shows "rollback (recorded (desk runs out code)) plain_config 7 w (desk_at m sn rm dp ys es) =
     (Inr (), desk_at ROLLED_BACK sn rm dp ys
       (es @ [Entered ROLLING_BACK, Ran desk_resume (Inr (0, [], [])), Entered ROLLED_BACK]))"
  using assms by (simp only: rollback_def)
    (simp add: run_steps transition_to_def desk_calls desk_commands sys_act_def cong: weak_congs)

lemma desk_cleaned:
  "cleanup_snapshot (recorded (desk runs out code)) (desk_at m (Some desk_snapshot) rm dp [desk_snapshot] es) =
     (Inr (), desk_at m (Some desk_snapshot) rm dp [] (es @ [Unlinked desk_snapshot (Inr ())]))"
proof -
  have "desk_snapshot \<noteq> []" by (simp add: desk_snapshot_def)
  then show ?thesis
    by (simp only: cleanup_snapshot_def)
      (simp add: run_steps desk_calls sys_act_def cong: weak_congs)
qed

text \<open>How a migration at the desk ends: it completes, the restorer fails, or the transmitter does.\<close>

lemma desk_connected: "session_connect (recorded (desk runs out code)) d (new_tele (ys, es)) = (Inr (), desk_at INIT None None None ys es)"
  by (simp add: session_connect_def new_tele_def desk_calls)

lemma desk_closed:
  "session_close (recorded (desk runs out code)) (desk_at m sn rm dp ys es) = (desk_at m sn rm dp ys es)\<lparr>t_client := False\<rparr>"
  by (simp add: session_close_def desk_calls)

lemma desk_reconnected:
  "session_connect (recorded (desk runs out code)) d (desk_at m sn rm dp ys es) = (Inr (), desk_at m sn rm dp ys es)"
  by (simp add: session_connect_def)

lemma desk_result:
  "build_result (recorded (desk runs out code)) plain_config mid 7 (desk_at m (Some desk_snapshot) rm (Some p) [desk_snapshot] es) =
     (Inr \<lparr>mg_id = mid, mg_source_pid = 7, mg_destination_pid = p, mg_destination_host = ''w2'', mg_snapshot_size = 1\<rparr>,
      desk_at m (Some desk_snapshot) rm (Some p) [desk_snapshot] es)"
  by (simp only: build_result_def)
    (simp add: run_steps desk_calls sys_look_def desk_host default_destination_def desk_snapshot_def cong: weak_congs)

lemma desk_pid: "parse_restored_pid ''Process 42 is now running'' = 42"
  by code_simp

lemmas desk_steps = desk_connected desk_reconnected desk_preflight desk_captured desk_transferred desk_restored
  desk_killed desk_rollback desk_cleaned desk_closed desk_result desk_pid

definition desk_before :: "event list" where
  "desk_before = Entered PREFLIGHT # desk_checked @
     [Entered CAPTURING, Ran desk_capture (Inr (0, [], [])), Entered TRANSFERRING, Started desk_receive (Inr ())]"

definition desk_tele :: "mstate \<Rightarrow> int option \<Rightarrow> event list \<Rightarrow> (string list \<times> event list) tele" where
  "desk_tele m dp es = \<lparr>t_state = m, t_snapshot = Some desk_snapshot, t_remote = Some desk_remote, t_dest_pid = dp,
     t_client = False, t_sys = ([], es @ [Unlinked desk_snapshot (Inr ())])\<rparr>"

lemma desk_completes:
  "desk_run all_well 0 =
     (Inr \<lparr>mg_id = ''12345678-9'', mg_source_pid = 7, mg_destination_pid = 42, mg_destination_host = ''w2'', mg_snapshot_size = 1\<rparr>,
      desk_tele COMPLETE (Some 42) (desk_before @ [Ran desk_transmit (Inr (0, [], [])), Entered RESTORING,
        desk_said desk_restore ''Process 42 is now running'', desk_said (''rm -f '' @ desk_remote) [],
        Killed 7 15 (Inr ()), Killed 7 9 (Inr ()), Entered COMPLETE]))"
  by (simp only: desk_run_def migrate_def migrate_phases_def)
    (simp add: run_steps desk_steps transition_to_def desk_calls all_well_def desk_before_def desk_tele_def cong: weak_congs)

lemma desk_restorer_fails:
  "desk_run all_well 1 =
     (Inl (Wraith (RestorerExited 1 [])),
      desk_tele ROLLED_BACK None (desk_before @ [Ran desk_transmit (Inr (0, [], [])), Entered RESTORING,
        Execd desk_restore (Inr (''Process 42 is now running'', [], 1)),
        Entered ROLLING_BACK, Ran desk_resume (Inr (0, [], [])), Entered ROLLED_BACK]))"
  by (simp only: desk_run_def migrate_def migrate_phases_def)
    (simp add: run_steps desk_steps transition_to_def desk_calls all_well_def desk_before_def desk_tele_def
      migrate_handler_def cong: weak_congs)

lemma desk_not_permitted:
  "desk_run (transmitter_ends (Inl PermissionError)) 0 =
     (Inl (Builtin PermissionError), desk_tele TRANSFERRING None (desk_before @ [Ran desk_transmit (Inl PermissionError)]))"
  by (simp only: desk_run_def migrate_def migrate_phases_def)
    (simp add: run_steps desk_steps transition_to_def desk_calls transmitter_ends_def desk_before_def desk_tele_def
      migrate_handler_def desk_capture_def [THEN arg_cong, of hd] desk_transmit_def [THEN arg_cong, of hd] cong: weak_congs)

section \<open>What a migration guarantees\<close>

lemma end_path:
  assumes "migration_end Y cfg pid vo r t"
  shows "\<exists>ok. mig_path cfg pid vo (snd (t_sys t)) (t_state t, ok)"
  using assms mig_path.start [of cfg pid vo]
  by (auto simp: migration_end_def reached_def raised_at_def split: sum.splits exn.splits if_splits)

text \<open>C8: The orchestrator refines its protocol: whatever the system answers, the calls and the
  transitions of a run of \<open>migrate\<close> are, in order, a path of the protocol from its start to the
  state the \<open>Teleporter\<close> is left in, and a result is returned only in \<open>COMPLETE\<close>.\<close>

theorem migration_follows_protocol:
  assumes "migrate (recorded Y) F cfg mid pid vo (new_tele (y, [])) = (r, t)"
  shows "\<exists>ok. mig_path cfg pid vo (snd (t_sys t)) (t_state t, ok) \<and> (\<forall>x. r = Inr x \<longrightarrow> t_state t = COMPLETE)"
  using end_path [OF migrate_ends [OF assms]] migrate_ends [OF assms]
  by (auto simp: migration_end_def reached_def split: sum.splits)

lemma migration_follows_protocol_witness:
  "\<exists>ok. mig_path plain_config 7 False (snd (t_sys (snd (desk_run all_well 0)))) (COMPLETE, ok)"
  using migration_follows_protocol [OF desk_completes [unfolded desk_run_def]] desk_completes
  by (auto simp: desk_tele_def)

text \<open>C9: The source is killed only past the commit point: wherever a signal is sent in a run of
  \<open>migrate\<close>, it goes to the source, the caller asked for more than a verification, the restorer on
  the destination has reported success before, and no program is run on the source afterwards.\<close>

theorem source_killed_after_commit:
  assumes "migrate (recorded Y) F cfg mid pid vo (new_tele (y, [])) = (r, t)"
    and "snd (t_sys t) = pre @ Killed q sig x # post"
  shows "q = pid \<and> \<not> vo \<and> (\<exists>ev \<in> set pre. is_restorer cfg ev) \<and> (\<forall>cmd z. Ran cmd z \<notin> set post)"
  using end_path [OF migrate_ends [OF assms(1)]] path_committed assms(2) unfolding committed_def by blast

lemma desk_completes_split:
  "snd (t_sys (snd (desk_run all_well 0))) =
     (desk_before @ [Ran desk_transmit (Inr (0, [], [])), Entered RESTORING,
        desk_said desk_restore ''Process 42 is now running'', desk_said (''rm -f '' @ desk_remote) []])
     @ Killed 7 15 (Inr ()) # [Killed 7 9 (Inr ()), Entered COMPLETE, Unlinked desk_snapshot (Inr ())]"
  by (simp add: desk_completes desk_tele_def)

lemma source_killed_after_commit_witness:
  "\<exists>ev \<in> set (desk_before @ [Ran desk_transmit (Inr (0, [], [])), Entered RESTORING,
        desk_said desk_restore ''Process 42 is now running'', desk_said (''rm -f '' @ desk_remote) []]).
     is_restorer plain_config ev"
  using source_killed_after_commit [OF desk_completes [unfolded desk_run_def]
      desk_completes_split [unfolded desk_completes snd_conv]] by (elim conjE)

lemma raised_ends:
  assumes "migration_end Y cfg pid vo (Inl (Wraith w)) t" "Entered CAPTURING \<in> set (snd (t_sys t))"
  shows "\<exists>ok. mig_path cfg pid vo (snd (t_sys t)) (t_state t, Some ok) \<and> ok = (\<not> is_rollback w) \<and>
     t_state t = (if is_rollback w then FAILED else ROLLED_BACK)"
proof -
  have "\<not> mig_path cfg pid vo (snd (t_sys t)) (ROLLED_BACK, None)"
    using assms(2) by (auto dest!: path_resumed simp: resumed_def)
  with assms show ?thesis
    by (auto simp: migration_end_def reached_def raised_at_def split: if_splits)
qed

text \<open>C10: A failure after the capture has begun gives the source back: when \<open>migrate\<close> raises an error
  of its own, the source has not been sent a signal, \<open>resume\<close> has been run for it, and the run
  has succeeded exactly when the error is not a \<open>RollbackError\<close>; the state is \<open>ROLLED_BACK\<close> then
  and \<open>FAILED\<close> otherwise.\<close>

theorem failed_migration_resumes_source:
  assumes "migrate (recorded Y) F cfg mid pid vo (new_tele (y, [])) = (Inl (Wraith w), t)"
    and "Entered CAPTURING \<in> set (snd (t_sys t))"
  shows "(\<exists>x. Ran (resume_cmd (cfg_destination cfg) pid) x \<in> set (snd (t_sys t)) \<and> (run_ok x \<longleftrightarrow> \<not> is_rollback w)) \<and>
     (\<forall>q sig x. Killed q sig x \<notin> set (snd (t_sys t))) \<and> t_state t = (if is_rollback w then FAILED else ROLLED_BACK)"
proof -
  obtain ok where p: "mig_path cfg pid vo (snd (t_sys t)) (t_state t, Some ok)"
    and ok: "ok = (\<not> is_rollback w)" "t_state t = (if is_rollback w then FAILED else ROLLED_BACK)"
    using raised_ends [OF migrate_ends [OF assms(1)] assms(2)] by blast
  from path_resumed [OF p] path_committed [OF p] ok show ?thesis
    by (auto simp: resumed_def confirmed_def split: if_splits)
qed

lemma failed_migration_resumes_source_witness:
  "\<exists>x. Ran desk_resume x \<in> set (snd (t_sys (snd (desk_run all_well 1)))) \<and> run_ok x"
proof -
  have "Entered CAPTURING \<in> set (snd (t_sys (snd (desk_run all_well 1))))"
    by (simp add: desk_restorer_fails desk_tele_def desk_before_def)
  then show ?thesis
    using failed_migration_resumes_source [OF desk_restorer_fails [unfolded desk_run_def]]
    by (simp add: desk_restorer_fails desk_commands)
qed

lemma no_resume_outside_rollback:
  "mig_path cfg pid vo es st \<Longrightarrow> fst st \<notin> {ROLLING_BACK, ROLLED_BACK, FAILED} \<Longrightarrow>
     (\<forall>ev \<in> set es. ev \<noteq> Entered ROLLING_BACK \<and> \<not> is_resume cfg pid ev)"
proof (induction rule: mig_path.induct)
  case (step es st ev st')
  from step.hyps(2) show ?case
    using step.IH step.prems
    by cases (auto simp: is_resume_def resume_cmd_def capture_cmd_def transmitter_args_def)
qed simp

text \<open>C22: Only errors of its own are rolled back: when \<open>migrate\<close> lets an exception of Python through,
  other than an interrupt, and removing the snapshot raises nothing unusual, then the rollback
  was never entered, \<open>resume\<close> was never run, and the state still names the phase that raised.\<close>

theorem python_error_not_rolled_back:
  assumes "migrate (recorded Y) F cfg mid pid vo (new_tele (y, [])) = (Inl (Builtin b), t)"
    and "b \<noteq> Interrupt" "tidy Y"
  shows "t_state t \<notin> {ROLLING_BACK, ROLLED_BACK, FAILED} \<and>
     (\<forall>ev \<in> set (snd (t_sys t)). ev \<noteq> Entered ROLLING_BACK \<and> \<not> is_resume cfg pid ev)"
proof -
  from migrate_ends [OF assms(1)] assms(2,3) mig_path.start [of cfg pid vo]
  obtain m ok where "mig_path cfg pid vo (snd (t_sys t)) (m, ok)" "t_state t = m" "m \<notin> {ROLLING_BACK, ROLLED_BACK, FAILED}"
    by (fastforce simp: migration_end_def raised_at_def reached_def)
  with no_resume_outside_rollback show ?thesis by fastforce
qed

lemma desk_tidy: "tidy (desk runs out code)"
  by (simp add: tidy_def desk_def)

lemma python_error_not_rolled_back_witness:
  "t_state (snd (desk_run (transmitter_ends (Inl PermissionError)) 0)) = TRANSFERRING \<and>
   list_all (\<lambda>ev. \<not> is_resume plain_config 7 ev) (snd (t_sys (snd (desk_run (transmitter_ends (Inl PermissionError)) 0))))"
  using python_error_not_rolled_back [OF desk_not_permitted [unfolded desk_run_def] _ desk_tidy] desk_not_permitted
  by (simp add: desk_tele_def list_all_iff)

text \<open>C24: A migration that its checks refuse has touched nothing: when \<open>migrate\<close> raises
  \<open>PreflightError\<close>, it has run no program on the source and sent no signal, and the capture was
  never begun.\<close>

theorem preflight_blocks:
  assumes "migrate (recorded Y) F cfg mid pid vo (new_tele (y, [])) = (Inl (Wraith w), t)" "is_preflight w"
  shows "\<forall>ev \<in> set (snd (t_sys t)). case ev of Ran _ _ \<Rightarrow> False | Killed _ _ _ \<Rightarrow> False | Entered m \<Rightarrow> m \<noteq> CAPTURING | _ \<Rightarrow> True"
proof -
  have "mig_path cfg pid vo (snd (t_sys t)) (ROLLED_BACK, None) \<or> snd (t_sys t) = []"
    using migrate_ends [OF assms(1)] assms(2) by (auto simp: migration_end_def raised_at_def reached_def)
  then show ?thesis
  proof
    assume p: "mig_path cfg pid vo (snd (t_sys t)) (ROLLED_BACK, None)"
    from path_resumed [OF p] path_committed [OF p] show ?thesis
      by (auto simp: resumed_def confirmed_def split: event.splits)
  qed simp
qed

lemma desk_refused:
  "migrate (recorded (desk all_well [] 0)) (small_floats 2) plain_config ''12345678-9'' 7 False (new_tele ([], [])) =
     (Inl (Wraith (PreflightError SourceProcessSize (RssExceeds 4))),
      (desk_at ROLLED_BACK None None None [] (Entered PREFLIGHT # desk_checked @ [Entered ROLLED_BACK]))\<lparr>t_client := False\<rparr>)"
  by (simp only: migrate_def migrate_phases_def)
    (simp add: run_steps desk_connected desk_reconnected desk_refusal desk_closed transition_to_def desk_calls
      migrate_handler_def cleanup_snapshot_def cong: weak_congs)

lemma preflight_blocks_witness:
  "\<forall>cmd r. Ran cmd r \<notin> set (Entered PREFLIGHT # desk_checked @ [Entered ROLLED_BACK])"
  using preflight_blocks [OF desk_refused] by fastforce

end
