(* ===== verification/Readers.thy ===== *)
theory Readers
  imports Programs Migrations
begin

text \<open>
  Where the orchestrator reads what the programs in Rust write, and where both read the same file:
  the process identifier that \<open>wraith-restorer\<close> prints, and the sizes in \<open>/proc/<pid>/status\<close>.
\<close>

section \<open>Stripping does not change the words\<close>

lemma py_words_spaces: "\<forall>c \<in> set w. py_space c \<Longrightarrow> py_words acc (s @ w) = py_words acc s"
proof (induction s arbitrary: acc)
  case Nil
  then have "py_words [] w = []" using py_split_skip [of w "[]"] by (simp add: py_split_def)
  with Nil show ?case by (cases w) auto
qed auto

lemma py_split_strip: "py_split (py_strip s) = py_split s"
proof -
  let ?t = "dropWhile py_space s"
  have "?t = rev (dropWhile py_space (rev ?t)) @ rev (takeWhile py_space (rev ?t))"
    by (metis rev_append rev_rev_ident takeWhile_dropWhile_id)
  then have "py_split ?t = py_split (py_strip s)"
    using py_words_spaces [of "rev (takeWhile py_space (rev ?t))" "[]"] set_takeWhileD [of _ py_space "rev ?t"]
    unfolding py_strip_def py_split_def by (metis set_rev)
  moreover have "py_split s = py_split ?t"
    using py_split_skip [of "takeWhile py_space s" ?t] by (metis set_takeWhileD takeWhile_dropWhile_id)
  ultimately show ?thesis by simp
qed

section \<open>The identifier the restorer prints\<close>

definition stdout_lines :: "out_line list \<Rightarrow> string list" where
  "stdout_lines printed = concat (map (\<lambda>l. case l of Out s \<Rightarrow> [s] | Err _ \<Rightarrow> []) printed)"

lemma stdout_simps [simp]:
  "stdout_lines [] = []" "stdout_lines (Out s # ls) = s # stdout_lines ls" "stdout_lines (Err s # ls) = stdout_lines ls"
  "stdout_lines (xs @ ys) = stdout_lines xs @ stdout_lines ys"
  by (simp_all add: stdout_lines_def)

lemma stdout_concat:
  "(\<And>x. list_all P (stdout_lines (f x))) \<Longrightarrow> list_all P (stdout_lines (concat (map f xs)))"
  by (induction xs) simp_all

text \<open>A line of text whose first word is not \<open>Process\<close>.\<close>

definition quiet :: "string \<Rightarrow> bool" where
  "quiet l \<longleftrightarrow> (\<forall>c \<in> set l. \<not> py_break c) \<and> take 1 (py_split l) \<noteq> [''Process'']"

lemma restored_pid_quiet: "list_all quiet ls \<Longrightarrow> restored_pid_in (ls @ rest) = restored_pid_in rest"
proof (induction ls)
  case (Cons l ls)
  then have "take 1 (py_split l) \<noteq> [''Process'']" by (simp add: quiet_def)
  then have "\<not> (length (py_split l) \<ge> 2 \<and> py_split l ! 0 = ''Process'')" by (cases "py_split l") auto
  then have "restored_pid_in (l # ls @ rest) = restored_pid_in (ls @ rest)"
    unfolding restored_pid_in.simps Let_def py_split_strip by (rule if_not_P)
  with Cons show ?case by simp
qed simp

lemma quiet_empty: "quiet []"
  by (simp add: quiet_def py_split_def)

lemma plain_number: "c \<in> set (show_nat n) \<Longrightarrow> \<not> py_break c" "c \<in> set (show_int i) \<Longrightarrow> \<not> py_break c"
    "c \<in> set (show_pid p) \<Longrightarrow> \<not> py_break c" "c \<in> set (show_word u) \<Longrightarrow> \<not> py_break c"
  by (auto simp: show_pid_def show_word_def dest: show_nat_chars(1) show_int_nonspace py_break_space)

text \<open>\<open>unbroken s\<close>: no line boundary in a literal, which the simplifier evaluates.\<close>

definition unbroken :: "string \<Rightarrow> bool" where
  "unbroken s \<longleftrightarrow> list_all (\<lambda>c. \<not> py_break c) s"

lemma unbroken_append [simp]: "unbroken (s @ t) \<longleftrightarrow> unbroken s \<and> unbroken t"
  by (simp add: unbroken_def)

lemma unbroken_number [simp]: "unbroken (show_nat n)" "unbroken (show_pid p)" "unbroken (show_word u)"
  by (auto simp: unbroken_def list_all_iff dest: plain_number)

lemma unbroken_reason:
  assumes "\<And>path. unbroken (dbg path)"
  shows "unbroken (reason_text dbg r)"
proof -
  have lits: "unbroken em_dash" "unbroken ''pipe FDs cannot be restored across machines in v1 (path: ''" "unbroken '') ''"
    "unbroken '' app must reopen''" "unbroken ''socket FDs not restored in v1 (path: ''" "unbroken '' planned for Phase 8.2''"
    "unbroken ''device FD ''" "unbroken '' (''" "unbroken '') not restored ''" "unbroken '' device may not exist on destination''"
    "unbroken ''unknown FD type for FD ''" "unbroken '' ''" "unbroken '' skipping''"
    "unbroken ''regular file FD has no path (deleted or anonymous)''" "unbroken ''directory FD has no path''"
    by code_simp+
  show ?thesis
    by (cases r) (simp_all only: reason_text.simps unbroken_append lits assms unbroken_number simp_thms)
qed

definition first_word_ok :: "string \<Rightarrow> string \<Rightarrow> bool" where
  "first_word_ok pad w \<longleftrightarrow> list_all py_space pad \<and> unbroken pad \<and>
     list_all (\<lambda>c. \<not> py_space c) w \<and> w \<noteq> [] \<and> w \<noteq> ''Process''"

lemma quiet_line:
  assumes "first_word_ok pad w" "unbroken s"
  shows "quiet (pad @ w @ '' '' @ s)"
proof -
  have sp: "py_space (CHR '' '')" "\<not> py_break (CHR '' '')" by code_simp+
  have pad: "\<forall>c \<in> set pad. py_space c" using assms(1) by (auto simp: first_word_ok_def list_all_iff)
  have pad_unbroken: "\<forall>c \<in> set pad. \<not> py_break c" using assms(1) by (auto simp: first_word_ok_def unbroken_def list_all_iff)
  have w: "\<forall>c \<in> set w. \<not> py_space c" "w \<noteq> []" "w \<noteq> ''Process''"
    using assms(1) by (auto simp: first_word_ok_def list_all_iff)
  have "py_split (pad @ w @ '' '' @ s) = w # py_split s"
    using w sp by (simp add: py_split_skip [OF pad] py_split_word)
  moreover have "\<forall>c \<in> set (pad @ w @ '' '' @ s). \<not> py_break c"
    using pad_unbroken w(1) sp(2) assms(2) by (auto simp: list_all_iff unbroken_def dest: py_break_space)
  ultimately show ?thesis using w by (simp add: quiet_def)
qed

lemma quiet_lines:
  assumes "unbroken s"
  shows "quiet (''  restored pid  : '' @ s)" "quiet (''  regions mapped: '' @ s)" "quiet (''  fds restored  : '' @ s)"
    "quiet (''  Skipped FDs (non-fatal):'')" "quiet (''    fd '' @ s)" "quiet ''Restore complete:''"
proof -
  have ok: "first_word_ok ''  '' ''restored''" "first_word_ok ''  '' ''regions''" "first_word_ok ''  '' ''fds''"
    "first_word_ok ''  '' ''Skipped''" "first_word_ok ''    '' ''fd''" "first_word_ok [] ''Restore''"
    by code_simp+
  have lits: "unbroken ''pid  : ''" "unbroken ''mapped: ''" "unbroken ''restored  : ''" "unbroken ''FDs (non-fatal):''"
    "unbroken ''complete:''"
    by code_simp+
  have tails: "unbroken (''pid  : '' @ s)" "unbroken (''mapped: '' @ s)" "unbroken (''restored  : '' @ s)"
    by (simp_all only: unbroken_append lits assms simp_thms)
  show "quiet (''  restored pid  : '' @ s)" using quiet_line [OF ok(1) tails(1)] by simp
  show "quiet (''  regions mapped: '' @ s)" using quiet_line [OF ok(2) tails(2)] by simp
  show "quiet (''  fds restored  : '' @ s)" using quiet_line [OF ok(3) tails(3)] by simp
  show "quiet (''  Skipped FDs (non-fatal):'')" using quiet_line [OF ok(4) lits(4)] by simp
  show "quiet (''    fd '' @ s)" using quiet_line [OF ok(5) assms] by simp
  show "quiet ''Restore complete:''" using quiet_line [OF ok(6) lits(5)] by simp
qed

lemma quiet_skipped:
  assumes "\<And>path. unbroken (dbg path)"
  shows "list_all quiet (stdout_lines (skipped_lines dbg rep))"
proof -
  have colon: "unbroken '': ''" by code_simp
  have "quiet (''    fd '' @ show_word n @ '': '' @ reason_text dbg reason)" for n :: u32 and reason
    by (rule quiet_lines) (simp only: unbroken_append unbroken_number colon unbroken_reason [OF assms] simp_thms)
  then have reasons: "list_all quiet (stdout_lines (case f of
      Skipped n reason \<Rightarrow> [Out (''    fd '' @ show_word n @ '': '' @ reason_text dbg reason)] | _ \<Rightarrow> []))" for f
    by (cases f) (simp_all only: fd_outcome.case stdout_simps list.pred_inject simp_thms)
  show ?thesis
    unfolding skipped_lines_def using quiet_lines(4) [of "[]"] stdout_concat [where P = quiet, OF reasons]
    by (auto simp only: stdout_simps append.simps list_all_append list.pred_inject quiet_empty unbroken_def split: if_split)
qed

lemma stdout_failed: "stdout_lines (failed_lines text rep) = []"
proof -
  have "stdout_lines (concat (map (\<lambda>outcome. case outcome of
      Failed n e \<Rightarrow> [Err (''    fd '' @ show_word n @ '': '' @ text e)] | _ \<Rightarrow> []) fs)) = []" for fs
    by (induction fs) (simp_all split: fd_outcome.split)
  then show ?thesis by (simp add: failed_lines_def)
qed

lemma quiet_completion: "list_all quiet (stdout_lines (completion_lines res))"
proof -
  have lits: "unbroken '' / ''" "unbroken '' (skipped: ''" "unbroken '', failed: ''" "unbroken '')''" by code_simp+
  have "unbroken []" by (simp add: unbroken_def)
  then show ?thesis
    unfolding completion_lines_def Let_def stdout_simps list.pred_inject
    by (intro conjI quiet_empty quiet_lines TrueI)
      (simp_all only: unbroken_append unbroken_number lits simp_thms list.pred_inject)
qed

lemma restored_pid_of_report:
  assumes "\<And>path. unbroken (dbg path)"
  shows "parse_restored_pid (unlines (stdout_lines
     (completion_lines res @ skipped_lines dbg rep @ failed_lines text rep' @ running_lines p))) = sint p"
proof -
  let ?quiet = "stdout_lines (completion_lines res @ skipped_lines dbg rep @ failed_lines text rep') @ [[]]"
  let ?last = "''Process '' @ show_pid p @ '' is now running on this machine.''"
  have q: "list_all quiet ?quiet"
    using quiet_completion quiet_skipped [OF assms] by (simp add: stdout_failed quiet_empty)
  have lits: "unbroken ''Process ''" "unbroken '' is now running on this machine.''" by code_simp+
  have "\<forall>l \<in> set (?quiet @ [?last]). \<forall>c \<in> set l. \<not> py_break c"
    using q lits unbroken_number(2) [of p] by (auto simp: list_all_iff quiet_def unbroken_def)
  then have split: "splitlines (unlines (?quiet @ [?last])) = ?quiet @ [?last]" by (rule splitlines_unlines)
  have w: "\<forall>c \<in> set ''Process''. \<not> py_space c" "py_space (CHR '' '')" by code_simp+
  have "py_split ?last = ''Process'' # show_pid p # py_split ''is now running on this machine.''"
    using py_split_word [of "''Process''" "CHR '' ''" "show_pid p @ '' is now running on this machine.''"] w
      py_split_word [of "show_pid p" "CHR '' ''" "''is now running on this machine.''"]
      show_int_nonspace show_int_nonempty by (simp add: show_pid_def)
  then have "restored_pid_in [?last] = sint p"
    by (simp add: py_split_strip show_pid_def py_int_show)
  with split restored_pid_quiet [OF q, of "[?last]"] show ?thesis
    by (simp add: parse_restored_pid_def running_lines_def)
qed

text \<open>C26: The orchestrator learns the process it has started: from all that \<open>wraith-restorer\<close> prints
  on its standard output when it exits with 0, \<open>_parse_restored_pid\<close> reads the identifier of the
  restored process, as long as the paths it prints are escaped to one line.\<close>

theorem restored_pid_parsed:
  assumes "load K decode path s = Inr snap" "restore K ck host snap s = (Inr res, t)"
    and "restorer_main K ck host decode text dbg path strict_fds s = ((0, printed), u)"
    and "\<And>path. unbroken (dbg path)"
  shows "parse_restored_pid (unlines (stdout_lines printed)) = sint (res_pid res)"
proof -
  have "\<not> (has_failures (fd_report res) \<and> strict_fds)"
    using assms(1-3) by (auto simp: restorer_main_def run_def act_simps ignore_act_def Let_def split: prod.splits)
  with assms(1-3) have "printed = completion_lines res @ skipped_lines dbg (fd_report res) @
      failed_lines text (fd_report res) @ running_lines (res_pid res)"
    by (simp add: restorer_main_def run_def act_simps Let_def)
  with restored_pid_of_report [OF assms(4)] show ?thesis by simp
qed

lemma restored_pid_parsed_witness:
  "parse_restored_pid (unlines (stdout_lines (snd (fst
     (restorer_main machine_kernel sum_ck ''x86_64'' toy_decode (\<lambda>_. ''?'') (\<lambda>_. ''?'') ''/tmp/s.pb'' False stored_machine))))) = 42"
proof -
  have l: "load machine_kernel toy_decode ''/tmp/s.pb'' stored_machine = Inr (small_snapshot [])"
    by (simp add: load_def machine_kernel_def mk_read_file_def stored_machine_def toy_decode_def)
  have "fst (restore machine_kernel sum_ck ''x86_64'' (small_snapshot []) stored_machine) =
      Inr \<lparr>res_pid = 42, regions_ok = 1,
        fd_report = \<lparr>rr_restored = [], rr_skipped = [], rr_failed = []\<rparr>\<rparr>"
    by code_simp
  note r = run_step [OF this]
  obtain printed u where m: "restorer_main machine_kernel sum_ck ''x86_64'' toy_decode (\<lambda>_. ''?'') (\<lambda>_. ''?'') ''/tmp/s.pb''
      False stored_machine = ((0, printed), u)"
    using l r by (simp add: restorer_main_def run_def act_simps Let_def)
  have "unbroken ''?''" by code_simp
  with restored_pid_parsed [OF l r m] m show ?thesis by simp
qed

section \<open>The status file, read twice\<close>

text \<open>Universal newlines also end a line at a carriage return, which the reader in Rust does not.\<close>

definition no_file_break :: "(string \<times> string) list \<Rightarrow> bool" where
  "no_file_break kvs \<longleftrightarrow> list_all (\<lambda>(k, v). carriage_return \<notin> set k \<and> carriage_return \<notin> set v) kvs"

lemma show_status_unlines: "show_status kvs = unlines (map status_line kvs)"
  by (simp add: show_status_def unlines_def status_line_def case_prod_unfold comp_def)

lemma file_lines_status:
  assumes "status_ok kvs" "no_file_break kvs"
  shows "file_lines (show_status kvs) = map status_line kvs"
proof -
  have "CHR '':'' \<noteq> newline" "tab \<noteq> newline" "CHR '':'' \<noteq> carriage_return" "tab \<noteq> carriage_return" by code_simp+
  with assms have "\<forall>l \<in> set (map status_line kvs). \<forall>c \<in> set l. \<not> file_break c"
    by (fastforce simp: status_ok_def status_key_def no_file_break_def status_line_def file_break_def list_all_iff)
  then show ?thesis by (simp add: show_status_unlines file_lines_def break_lines_unlines)
qed

lemma find_status:
  assumes "status_ok kvs" "status_key key" "map_of kvs key = Some v"
  shows "find (starts_with (key @ '':'')) (map status_line kvs) = Some (status_line (key, v))"
  using assms(1,3)
proof (induction kvs)
  case (Cons kv kvs)
  obtain k w where kv: "kv = (k, w)" by fastforce
  with Cons.prems assms(2) show ?case
    using Cons.IH status_line_key [of k key w] by (auto simp: status_ok_def split: if_splits)
qed simp

lemma status_field_shown:
  assumes "status_ok kvs" "no_file_break kvs" "status_key key" "\<forall>c \<in> set key. \<not> py_space c"
    and "map_of kvs key = Some (replicate i CHR '' '' @ show_nat n @ '' kB'')"
  shows "status_field_kb key (show_status kvs) = Inr (int n)"
proof -
  have sp: "py_space (CHR '' '')" "py_space tab" "\<not> py_space (CHR '':'')" by code_simp+
  have "py_split (show_nat n @ '' kB'') = show_nat n # py_split ''kB''"
    using py_split_word [of "show_nat n" "CHR '' ''" "''kB''"] show_nat_chars(1) sp by (simp add: show_nat_nonempty)
  moreover have "py_split (replicate i CHR '' '' @ s) = py_split s" for s
    by (rule py_split_skip) (simp add: sp)
  ultimately have "py_split (key @ '':'' @ tab # replicate i CHR '' '' @ show_nat n @ '' kB'') =
      (key @ '':'') # show_nat n # py_split ''kB''"
    using py_split_word [of "key @ '':''" tab "replicate i CHR '' '' @ show_nat n @ '' kB''"] assms(4) sp by auto
  moreover have "py_int (show_nat n) = Some (int n)"
    using py_int_show [of "int n"] by (simp add: show_int_def)
  ultimately show ?thesis
    using find_status [OF assms(1,3,5)]
    by (simp add: status_field_kb_def file_lines_status [OF assms(1,2)] status_line_def)
qed

text \<open>C25: The two readers of a process's size agree: the orchestrator and the capturer open the same
  file, and from a file as the kernel prints it both read the number the kernel printed, as
  long as no key or value has a carriage return in it.\<close>

theorem readers_agree:
  assumes "k_read_to_string K (proc_file p ''status'') s = Inr (show_status kvs)"
    and "y_read_text Y (proc_status (sint p)) y = Inr (show_status kvs)"
    and "status_ok kvs" "no_file_break kvs" "status_key key" "\<forall>c \<in> set key. \<not> py_space c"
    and "map_of kvs key = Some (replicate i CHR '' '' @ show_nat n @ '' kB'')" "n < 2 ^ 64"
  shows "proc_status (sint p) = proc_file p ''status'' \<and>
     parse_status_kb K p (key @ '':'') s = Some (of_nat n) \<and> read_proc_status_kb Y (sint p) key y = Inr (int n)"
  using parse_status_kb_shown [OF assms(1,3,5,7,8)] status_field_shown [OF assms(3-7)] assms(2)
  by (simp add: read_proc_status_kb_def proc_status_def proc_file_def proc_dir_def show_pid_def)

lemma readers_agree_witness:
  "read_proc_status_kb ((desk all_well [] 0)\<lparr>y_read_text := \<lambda>p y. Inr (show_status status_fields)\<rparr>) 7 ''VmRSS'' [] = Inr 2048"
proof -
  let ?s = "sample_machine\<lparr>mc_text := (\<lambda>path.
     if path = ''/proc/7/status'' then Some (show_status status_fields) else None)\<rparr>"
  let ?Y = "(desk all_well [] 0)\<lparr>y_read_text := \<lambda>p y. Inr (show_status status_fields)\<rparr>"
  have n: "show_nat 2048 = ''2048''" "replicate 4 CHR '' '' = ''    ''" by code_simp+
  have k: "k_read_to_string machine_kernel (proc_file 7 ''status'') ?s = Inr (show_status status_fields)"
    by (simp add: proc_7 machine_kernel_def mk_read_to_string_def)
  have y: "y_read_text ?Y (proc_status (sint (7 :: pid))) [] = Inr (show_status status_fields)" by simp
  have ok: "status_ok status_fields" "no_file_break status_fields" "status_key ''VmRSS''" "\<forall>c \<in> set ''VmRSS''. \<not> py_space c"
    by code_simp+
  have rss: "map_of status_fields ''VmRSS'' = Some (replicate 4 CHR '' '' @ show_nat 2048 @ '' kB'')"
    by (simp only: n) (simp add: status_fields_def)
  have "(2048 :: nat) < 2 ^ 64" "sint (7 :: pid) = 7" by simp_all
  with readers_agree [OF k y ok rss] show ?thesis by simp
qed

text \<open>With a carriage return in the name of a process the two disagree: the name then pretends to be
  a line of its own.\<close>

definition posing_fields :: "(string \<times> string) list" where
  "posing_fields = [(''Name'', carriage_return # ''VmRSS: 1 kB''), (''VmRSS'', ''    2048 kB'')]"

lemma name_poses_as_size:
  "status_field_kb ''VmRSS'' (show_status posing_fields) = Inr 1"
  "map_option (first_word \<circ> trim) (map_of posing_fields ''VmRSS'') = Some (Some ''2048'')"
  by code_simp+

end
