(* ===== verification/GoFlags.thy ===== *)
theory GoFlags
  imports Transmitter Receiver PyText
begin

text \<open>
  The command lines of the two transfer programs: Go's package \<open>flag\<close> as \<open>cmd/transmitter/main.go\<close> and
  \<open>cmd/receiver/main.go\<close> use it, with the parsers of numbers (\<open>strconv\<close>) and of durations
  (\<open>time.ParseDuration\<close>) behind the flags. The digits of a duration after the point are scaled in
  floating point, which is a parameter.
\<close>

section \<open>Integers with a prefix\<close>

definition lower_char :: "char \<Rightarrow> char" where
  "lower_char c = (let n = of_char c :: nat in if 65 \<le> n \<and> n \<le> 90 then char_of (n + 32) else c)"

text \<open>\<open>underscoreOK\<close>: an underscore stands between digits, or between the prefix and a digit. The
  first argument is the kind of the last character: a digit or prefix, an underscore, another.\<close>

datatype last_seen = SeenStart | SeenDigit | SeenUnderscore | SeenOther

fun underscores :: "last_seen \<Rightarrow> bool \<Rightarrow> string \<Rightarrow> bool" where
  "underscores i hex [] = (i \<noteq> SeenUnderscore)"
| "underscores i hex (c # s) =
     (let n = of_char c :: nat; l = of_char (lower_char c) :: nat in
      if (48 \<le> n \<and> n \<le> 57) \<or> (hex \<and> 97 \<le> l \<and> l \<le> 102) then underscores SeenDigit hex s
      else if c = CHR ''_'' then (if i \<noteq> SeenDigit then False else underscores SeenUnderscore hex s)
      else if i = SeenUnderscore then False
      else underscores SeenOther hex s)"

definition strip_sign :: "string \<Rightarrow> string" where
  "strip_sign s = (case s of [] \<Rightarrow> [] | c # t \<Rightarrow> if c = CHR ''-'' \<or> c = CHR ''+'' then t else s)"

definition has_prefix :: "string \<Rightarrow> bool" where
  "has_prefix s = (case s of a # b # t \<Rightarrow> a = CHR ''0'' \<and> lower_char b \<in> {CHR ''b'', CHR ''o'', CHR ''x''} | _ \<Rightarrow> False)"

definition underscore_ok :: "string \<Rightarrow> bool" where
  "underscore_ok s = (let t = strip_sign s in
     if has_prefix t then underscores SeenDigit (lower_char (t ! 1) = CHR ''x'') (drop 2 t)
     else underscores SeenStart False t)"

text \<open>The base of \<open>ParseUint(s, 0, 64)\<close> and the digits that are left; the last component says whether
  the digits may be none.\<close>

definition number_base :: "string \<Rightarrow> nat \<times> string" where
  "number_base s =
     (if s \<noteq> [] \<and> hd s = CHR ''0'' then
        (if length s \<ge> 3 \<and> has_prefix s then
           (if lower_char (s ! 1) = CHR ''b'' then 2 else if lower_char (s ! 1) = CHR ''o'' then 8 else 16, drop 2 s)
         else (8, tl s))
      else (10, s))"

fun go_digits :: "nat \<Rightarrow> nat \<Rightarrow> string \<Rightarrow> nat option" where
  "go_digits base n [] = Some n"
| "go_digits base n (c # s) =
     (if c = CHR ''_'' then go_digits base n s
      else case digit_val c of
          None \<Rightarrow> None
        | Some d \<Rightarrow> if d < base then go_digits base (n * base + d) s else None)"

definition go_parse_uint :: "string \<Rightarrow> nat option" where
  "go_parse_uint s =
     (if s = [] then None
      else (let (base, ds) = number_base s in case go_digits base 0 ds of
          None \<Rightarrow> None
        | Some n \<Rightarrow> if CHR ''_'' \<in> set s \<and> \<not> underscore_ok s then None else if n < 2 ^ 64 then Some n else None))"

definition go_parse_int :: "string \<Rightarrow> int option" where
  "go_parse_int s =
     (if s = [] then None
      else case go_parse_uint (strip_sign s) of
          None \<Rightarrow> None
        | Some n \<Rightarrow>
            if hd s = CHR ''-'' then (if n \<le> 2 ^ 63 then Some (- int n) else None)
            else (if n < 2 ^ 63 then Some (int n) else None))"

section \<open>Durations\<close>

definition dec_char :: "char \<Rightarrow> bool" where
  "dec_char c = (let n = of_char c :: nat in 48 \<le> n \<and> n \<le> 57)"

text \<open>\<open>leadingInt\<close> and \<open>leadingFraction\<close>: the value of the digits at the head, and the rest. An
  integer above \<open>2 ^ 63\<close> is an error.\<close>

definition digits_value :: "string \<Rightarrow> nat" where
  "digits_value s = foldl (\<lambda>n c. 10 * n + (of_char c - 48)) 0 s"

definition leading_int :: "string \<Rightarrow> (nat \<times> string) option" where
  "leading_int s = (let v = digits_value (takeWhile dec_char s) in
     if v \<le> 2 ^ 63 then Some (v, dropWhile dec_char s) else None)"

definition unit_of :: "string \<Rightarrow> nat option" where
  "unit_of u =
     (if u = ''ns'' then Some 1
      else if u = ''us'' \<or> u = encode_rune 0xB5 @ ''s'' \<or> u = encode_rune 0x3BC @ ''s'' then Some 1000
      else if u = ''ms'' then Some 1000000
      else if u = ''s'' then Some 1000000000
      else if u = ''m'' then Some 60000000000
      else if u = ''h'' then Some 3600000000000
      else None)"

definition unit_char :: "char \<Rightarrow> bool" where
  "unit_char c \<longleftrightarrow> c \<noteq> CHR ''.'' \<and> \<not> dec_char c"

text \<open>One number with its unit: the nanoseconds it adds, and the rest. \<open>fraction\<close> gives the
  nanoseconds of the digits after the point for a unit.\<close>

definition duration_part :: "(string \<Rightarrow> nat \<Rightarrow> nat) \<Rightarrow> string \<Rightarrow> (nat \<times> string) option" where
  "duration_part fraction s =
     (if s = [] \<or> \<not> (hd s = CHR ''.'' \<or> dec_char (hd s)) then None
      else case leading_int s of
          None \<Rightarrow> None
        | Some (v, t) \<Rightarrow>
            let pre = t \<noteq> s;
                point = t \<noteq> [] \<and> hd t = CHR ''.'';
                ds = (if point then takeWhile dec_char (tl t) else []);
                w = (if point then dropWhile dec_char (tl t) else t);
                u = takeWhile unit_char w
            in if \<not> pre \<and> ds = [] then None
               else if u = [] then None
               else case unit_of u of
                   None \<Rightarrow> None
                 | Some k \<Rightarrow>
                     if v > 2 ^ 63 div k then None
                     else let n = v * k + fraction ds k in
                       if n > 2 ^ 63 then None else Some (n, dropWhile unit_char w))"

text \<open>The parts, with at most as many of them as there are characters; the sum is a \<open>uint64\<close>.\<close>

fun duration_parts :: "(string \<Rightarrow> nat \<Rightarrow> nat) \<Rightarrow> nat \<Rightarrow> nat \<Rightarrow> string \<Rightarrow> nat option" where
  "duration_parts fraction fuel d s =
     (if s = [] then Some d
      else case fuel of
          0 \<Rightarrow> None
        | Suc n \<Rightarrow> (case duration_part fraction s of
            None \<Rightarrow> None
          | Some (v, t) \<Rightarrow> let sum = (d + v) mod 2 ^ 64 in
              if sum > 2 ^ 63 then None else duration_parts fraction n sum t))"

declare duration_parts.simps [simp del]

definition parse_duration :: "(string \<Rightarrow> nat \<Rightarrow> nat) \<Rightarrow> string \<Rightarrow> int option" where
  "parse_duration fraction s = (let t = strip_sign s; neg = s \<noteq> [] \<and> hd s = CHR ''-'' in
     if t = ''0'' then Some 0
     else if t = [] then None
     else case duration_parts fraction (length t) 0 t of
         None \<Rightarrow> None
       | Some d \<Rightarrow> if neg then Some (- int d) else if d > 2 ^ 63 - 1 then None else Some (int d))"

section \<open>Flags\<close>

text \<open>The type of a flag, and what its \<open>Set\<close> accepts.\<close>

datatype flag_value = FString string | FDuration int | FInt int | FUint nat

datatype flag_kind = KString | KDuration | KInt | KUint

fun set_flag :: "(string \<Rightarrow> nat \<Rightarrow> nat) \<Rightarrow> flag_kind \<Rightarrow> string \<Rightarrow> flag_value option" where
  "set_flag fraction KString s = Some (FString s)"
| "set_flag fraction KDuration s = map_option FDuration (parse_duration fraction s)"
| "set_flag fraction KInt s = map_option FInt (go_parse_int s)"
| "set_flag fraction KUint s = map_option FUint (go_parse_uint s)"

datatype flag_error = BadFlag | HelpAsked

text \<open>\<open>parseOne\<close> on the first argument: the end of the flags, an error, or a flag that has been set
  and the arguments that are left. None of the flags is boolean.\<close>

datatype flag_step = FlagsEnd | FlagsError flag_error | FlagSet string flag_value "string list"

definition parse_one :: "(string \<Rightarrow> nat \<Rightarrow> nat) \<Rightarrow> (string \<times> flag_kind) list \<Rightarrow> string \<Rightarrow> string list \<Rightarrow> flag_step" where
  "parse_one fraction kinds s rest =
     (if length s < 2 \<or> hd s \<noteq> CHR ''-'' then FlagsEnd
      else if s = ''--'' then FlagsEnd
      else let body = (if s ! 1 = CHR ''-'' then drop 2 s else drop 1 s) in
        if hd body = CHR ''-'' \<or> hd body = CHR ''='' then FlagsError BadFlag
        else let (name, given) = (case split_once CHR ''='' body of
                 None \<Rightarrow> (body, None) | Some (n, v) \<Rightarrow> (n, Some v))
          in case map_of kinds name of
              None \<Rightarrow> FlagsError (if name = ''help'' \<or> name = ''h'' then HelpAsked else BadFlag)
            | Some k \<Rightarrow>
                (case (given, rest) of
                   (None, []) \<Rightarrow> FlagsError BadFlag
                 | (None, v # left) \<Rightarrow>
                     (case set_flag fraction k v of None \<Rightarrow> FlagsError BadFlag | Some x \<Rightarrow> FlagSet name x left)
                 | (Some v, _) \<Rightarrow>
                     (case set_flag fraction k v of None \<Rightarrow> FlagsError BadFlag | Some x \<Rightarrow> FlagSet name x rest)))"

lemma parse_one_shorter: "parse_one fraction kinds s rest = FlagSet n v left \<Longrightarrow> length left \<le> length rest"
  by (auto simp: parse_one_def Let_def split: if_splits option.splits list.splits prod.splits)

function parse_flags ::
    "(string \<Rightarrow> nat \<Rightarrow> nat) \<Rightarrow> (string \<times> flag_kind) list \<Rightarrow> string list \<Rightarrow> (string \<Rightarrow> flag_value option) \<Rightarrow>
     flag_error + (string \<Rightarrow> flag_value option)" where
  "parse_flags fraction kinds [] vals = Inr vals"
| "parse_flags fraction kinds (s # rest) vals = (case parse_one fraction kinds s rest of
     FlagsEnd \<Rightarrow> Inr vals
   | FlagsError e \<Rightarrow> Inl e
   | FlagSet name v left \<Rightarrow> parse_flags fraction kinds left (vals(name \<mapsto> v)))"
  by pat_completeness auto
termination
  by (relation "measure (\<lambda>(fraction, kinds, args, vals). length args)")
    (auto dest!: parse_one_shorter intro: le_less_trans)

section \<open>The two programs from their command lines\<close>

definition string_flag :: "(string \<Rightarrow> flag_value option) \<Rightarrow> string \<Rightarrow> string \<Rightarrow> string" where
  "string_flag vals name dflt = (case vals name of Some (FString s) \<Rightarrow> s | _ \<Rightarrow> dflt)"

definition int_flag :: "(string \<Rightarrow> flag_value option) \<Rightarrow> string \<Rightarrow> int \<Rightarrow> int" where
  "int_flag vals name dflt = (case vals name of Some (FInt i) \<Rightarrow> i | Some (FDuration i) \<Rightarrow> i | _ \<Rightarrow> dflt)"

definition uint_flag :: "(string \<Rightarrow> flag_value option) \<Rightarrow> string \<Rightarrow> nat \<Rightarrow> nat" where
  "uint_flag vals name dflt = (case vals name of Some (FUint n) \<Rightarrow> n | _ \<Rightarrow> dflt)"

definition transmitter_flags :: "(string \<times> flag_kind) list" where
  "transmitter_flags = [(''snapshot'', KString), (''dest'', KString), (''timeout'', KDuration),
     (''retries'', KInt), (''pid'', KUint), (''version'', KString)]"

definition receiver_flags :: "(string \<times> flag_kind) list" where
  "receiver_flags = [(''listen'', KString), (''output'', KString), (''timeout'', KDuration)]"

text \<open>The exit status of a command line that cannot be parsed (\<open>flag.ExitOnError\<close>).\<close>

fun flag_exit :: "flag_error \<Rightarrow> nat" where
  "flag_exit BadFlag = 2"
| "flag_exit HelpAsked = 0"

text \<open>\<open>dial\<close> is \<open>net.DialTimeout\<close> for an address and a timeout in nanoseconds.\<close>

definition transmitter_program ::
    "(string \<Rightarrow> nat \<Rightarrow> nat) \<Rightarrow> 'k kernel \<Rightarrow> 'f floats \<Rightarrow> (u8 list \<Rightarrow> u64) \<Rightarrow> string \<Rightarrow>
     (string \<Rightarrow> int \<Rightarrow> io_error + conn) \<Rightarrow> string list \<Rightarrow> 'k \<Rightarrow> (nat \<times> string list) \<times> conn option" where
  "transmitter_program fraction K F xxh node dial args s =
     (case parse_flags fraction transmitter_flags args (\<lambda>_. None) of
        Inl e \<Rightarrow> ((flag_exit e, []), None)
      | Inr vals \<Rightarrow> transmitter_main K F xxh node (string_flag vals ''snapshot'' [])
          (of_nat (uint_flag vals ''pid'' 0)) (string_flag vals ''version'' ''1.0'') (of_int (int_flag vals ''retries'' 3))
          (dial (string_flag vals ''dest'' ''localhost:9999'') (int_flag vals ''timeout'' 300000000000)) s)"

text \<open>\<open>listen\<close> is \<open>net.Listen\<close> for an address, \<open>incoming\<close> the outcome of \<open>Accept\<close>.\<close>

definition receiver_program ::
    "(string \<Rightarrow> nat \<Rightarrow> nat) \<Rightarrow> 'k kernel \<Rightarrow> (u8 list \<Rightarrow> u64) \<Rightarrow> (string \<Rightarrow> io_error + unit) \<Rightarrow> io_error + conn \<Rightarrow>
     string list \<Rightarrow> 'k \<Rightarrow> ((nat \<times> string list) \<times> conn option) \<times> 'k" where
  "receiver_program fraction K xxh listen incoming args s =
     (case parse_flags fraction receiver_flags args (\<lambda>_. None) of
        Inl e \<Rightarrow> (((flag_exit e, []), None), s)
      | Inr vals \<Rightarrow> receiver_main K xxh (string_flag vals ''output'' ''received.pb'')
          (listen (string_flag vals ''listen'' '':9999'')) incoming s)"

section \<open>Flags that are given one by one\<close>

text \<open>A flag with two dashes and its value as the next argument.\<close>

definition plain_name :: "string \<Rightarrow> bool" where
  "plain_name n \<longleftrightarrow> n \<noteq> [] \<and> hd n \<noteq> CHR ''-'' \<and> CHR ''='' \<notin> set n"

lemma parse_one_long:
  assumes "plain_name n" "map_of kinds n = Some k"
  shows "parse_one fraction kinds (''--'' @ n) (v # rest) =
     (case set_flag fraction k v of None \<Rightarrow> FlagsError BadFlag | Some x \<Rightarrow> FlagSet n x rest)"
proof -
  have "split_once CHR ''='' n = None" using assms(1) by (simp add: plain_name_def split_once_None)
  moreover have "hd n \<noteq> CHR ''=''" using assms(1) by (cases n) (auto simp: plain_name_def)
  ultimately show ?thesis
    using assms by (simp add: parse_one_def plain_name_def Let_def)
qed

lemma parse_flags_long:
  assumes "plain_name n" "map_of kinds n = Some k"
  shows "parse_flags fraction kinds ((''--'' @ n) # v # rest) vals =
     (case set_flag fraction k v of None \<Rightarrow> Inl BadFlag | Some x \<Rightarrow> parse_flags fraction kinds rest (vals(n \<mapsto> x)))"
  unfolding parse_flags.simps parse_one_long [OF assms] by (simp split: option.split)

text \<open>A number without a unit is not a duration, unless it is zero.\<close>

lemma decimal_num: "c \<in> set (show_nat n) \<Longrightarrow> dec_char c"
  using show_nat_chars(3) [of c n] by (auto simp: dec_val_def dec_char_def Let_def split: if_splits)

lemma no_unit_no_duration:
  assumes "\<forall>c \<in> set s. dec_char c" "s \<noteq> ''0''"
  shows "parse_duration fraction s = None"
proof (cases s)
  case Nil
  then show ?thesis by (simp add: parse_duration_def strip_sign_def)
next
  case (Cons c cs)
  have sign: "strip_sign s = s"
    using Cons assms(1) by (auto simp: strip_sign_def dec_char_def)
  have whole: "dropWhile dec_char s = []" using assms(1) by (simp add: dropWhile_eq_Nil_conv)
  have "duration_part fraction s = None"
    by (simp only: duration_part_def leading_int_def Let_def whole) (simp split: option.split)
  then have "duration_parts fraction (length s) 0 s = None"
    using Cons by (subst duration_parts.simps) simp
  with sign Cons assms(2) show ?thesis by (simp add: parse_duration_def Let_def)
qed

lemma positive_not_duration:
  assumes "0 < i"
  shows "parse_duration fraction (show_int i) = None"
proof (rule no_unit_no_duration)
  have s: "show_int i = show_nat (nat i)" using assms by (simp add: show_int_def)
  then show "\<forall>c \<in> set (show_int i). dec_char c" using decimal_num by auto
  show "show_int i \<noteq> ''0''"
  proof
    assume "show_int i = ''0''"
    moreover have "show_int 0 = ''0''" by code_simp
    ultimately have "py_int (show_int i) = py_int (show_int 0)" by simp
    with assms show False by (simp only: py_int_show option.inject)
  qed
qed

end
