(* ===== verification/CommandLines.thy ===== *)
theory CommandLines
  imports Readers GoFlags Delivery
begin

text \<open>
  The command line that the orchestrator gives to \<open>wraith-transmitter\<close>, as the transmitter's
  own \<open>flag\<close> package reads it.
\<close>

section \<open>The flags of the transmitter\<close>

lemma flag_names:
  "plain_name ''snapshot''" "plain_name ''dest''" "plain_name ''retries''" "plain_name ''timeout''"
  "map_of transmitter_flags ''snapshot'' = Some KString" "map_of transmitter_flags ''dest'' = Some KString"
  "map_of transmitter_flags ''retries'' = Some KInt" "map_of transmitter_flags ''timeout'' = Some KDuration"
  by code_simp+

lemmas flag_steps = parse_flags_long [OF flag_names(1,5)] parse_flags_long [OF flag_names(2,6)]
  parse_flags_long [OF flag_names(3,7)] parse_flags_long [OF flag_names(4,8)]

text \<open>A timeout in seconds, without a unit, is not a \<open>time.Duration\<close>.\<close>

lemma timeout_rejected:
  assumes "0 < tc_timeout_s (cfg_transfer cfg)"
  shows "parse_flags fraction transmitter_flags (transmitter_args cfg pid path) (\<lambda>_. None) = Inl BadFlag"
proof -
  have words: "transmitter_args cfg pid path =
      (''--'' @ ''snapshot'') # path # (''--'' @ ''dest'') # transfer_addr (cfg_destination cfg) #
      (''--'' @ ''retries'') # show_int (tc_retry_count (cfg_transfer cfg)) #
      (''--'' @ ''timeout'') # show_int (tc_timeout_s (cfg_transfer cfg)) # [''--pid'', show_int pid]"
    by (simp add: transmitter_args_def)
  show ?thesis
    unfolding words flag_steps by (simp add: positive_not_duration [OF assms] split: option.split)
qed

text \<open>What the shell of the source sees of a run of the transmitter.\<close>

definition transmitter_status ::
    "(string \<Rightarrow> nat \<Rightarrow> nat) \<Rightarrow> 'k kernel \<Rightarrow> 'g floats \<Rightarrow> (u8 list \<Rightarrow> u64) \<Rightarrow> string \<Rightarrow>
     (string \<Rightarrow> int \<Rightarrow> io_error + conn) \<Rightarrow> 'k \<Rightarrow> string list \<Rightarrow> int" where
  "transmitter_status fraction K G xxh node dial s args = int (fst (fst (transmitter_program fraction K G xxh node dial args s)))"

lemma transmitter_exits_2:
  "0 < tc_timeout_s (cfg_transfer cfg) \<Longrightarrow>
     transmitter_status fraction K G xxh node dial s (transmitter_args cfg pid path) = 2"
  by (simp add: transmitter_status_def transmitter_program_def timeout_rejected)

section \<open>A migration with that transmitter\<close>

lemma bind_act_Inr: "bind_act m f s = (Inr y, u) \<Longrightarrow> \<exists>x t. m s = (Inr x, t) \<and> f x t = (Inr y, u)"
  by (auto simp: bind_act_def split: prod.splits sum.splits)

lemma catch_act_Inr: "catch_act m h s = (Inr y, u) \<Longrightarrow> m s = (Inr y, u) \<or> (\<exists>e t. m s = (Inl e, t) \<and> h e t = (Inr y, u))"
  by (auto simp: catch_act_def split: prod.splits sum.splits)

lemma finally_act_Inr: "finally_act m f s = (Inr y, u) \<Longrightarrow> \<exists>t. m s = (Inr y, t)"
  by (auto simp: finally_act_def split: prod.splits sum.splits)

definition exits_with :: "'y pysys \<Rightarrow> string \<Rightarrow> (string list \<Rightarrow> int) \<Rightarrow> bool" where
  "exits_with Y program status \<longleftrightarrow> (\<forall>args n y code out err z.
     y_run Y (program # args) n y = (Inr (code, out, err), z) \<longrightarrow> code = status args)"

lemma exits_withD: "exits_with Y p st \<Longrightarrow> y_run Y (p # args) n y = (Inr (code, out, err), z) \<Longrightarrow> code = st args"
  unfolding exits_with_def by blast

lemma transfer_fails:
  assumes "exits_with Y (d_transmitter_path (cfg_destination cfg)) status"
    and "\<And>path. status (transmitter_args cfg pid path) \<noteq> 0"
  shows "run_transfer Y cfg mid pid t \<noteq> (Inr x, u)"
proof
  let ?d = "cfg_destination cfg"
  assume "run_transfer Y cfg mid pid t = (Inr x, u)"
  then obtain snapshot v w code out err where run:
    "catch_act (sys_act (y_run Y (d_transmitter_path ?d # transmitter_args cfg pid snapshot) (tc_timeout_s (cfg_transfer cfg) + 30)))
       (\<lambda>e. if e = Builtin TimeoutExpired then fail_act (Wraith (TransferTimedOut (tc_timeout_s (cfg_transfer cfg))))
          else if e = Builtin FileNotFoundError then fail_act (Wraith (TransmitterNotFound (d_transmitter_path ?d)))
          else fail_act e) v = (Inr (code, out, err), w)" and zero: "code = 0"
    unfolding run_transfer_def Let_def
    by (auto dest!: bind_act_Inr simp: fail_act_app split: if_splits)
  from run obtain y z where
    "y_run Y (d_transmitter_path ?d # transmitter_args cfg pid snapshot) (tc_timeout_s (cfg_transfer cfg) + 30) y = (Inr (code, out, err), z)"
    by (auto dest!: catch_act_Inr simp: fail_act_app sys_act_def split: if_splits prod.splits sum.splits)
  with assms(1) have "code = status (transmitter_args cfg pid snapshot)" by (rule exits_withD)
  with assms(2) zero show False by simp
qed

lemma migration_fails:
  assumes "exits_with Y (d_transmitter_path (cfg_destination cfg)) (transmitter_status fraction K G xxh node dial s)"
    and "0 < tc_timeout_s (cfg_transfer cfg)" and "migrate Y F cfg mid pid vo t = (r, u)"
  shows "\<nexists>result. r = Inr result"
proof
  assume "\<exists>result. r = Inr result"
  then obtain result where "migrate Y F cfg mid pid vo t = (Inr result, u)" using assms(3) by blast
  then obtain v w where "catch_act (migrate_phases Y F cfg mid pid vo) (migrate_handler Y cfg pid) v = (Inr result, w)"
    unfolding migrate_def by (blast dest: bind_act_Inr finally_act_Inr)
  then have "migrate_phases Y F cfg mid pid vo v = (Inr result, w)"
    by (auto dest!: catch_act_Inr bind_act_Inr simp: migrate_handler_def fail_act_app split: exn.splits if_splits)
  then obtain a b c where "run_transfer Y cfg mid pid a = (Inr b, c)"
    unfolding migrate_phases_def by (blast dest: bind_act_Inr)
  moreover have "transmitter_status fraction K G xxh node dial s (transmitter_args cfg pid path) \<noteq> 0" for path
    by (simp add: transmitter_exits_2 [OF assms(2)])
  ultimately show False using transfer_fails [OF assms(1)] by blast
qed

definition flagged :: "string list \<Rightarrow> builtin_exn + int \<times> string \<times> string" where
  "flagged cmd = (if hd cmd = ''wraith-transmitter''
     then Inr (transmitter_status (\<lambda>_ _. 0) machine_kernel toy_floats sum_ck ''w1'' (\<lambda>_ _. Inl EOF) sample_machine (tl cmd), [], [])
     else Inr (0, [], []))"

lemma flagged_exits:
  "exits_with (recorded (desk flagged out code)) ''wraith-transmitter''
     (transmitter_status (\<lambda>_ _. 0) machine_kernel toy_floats sum_ck ''w1'' (\<lambda>_ _. Inl EOF) sample_machine)"
  by (auto simp: exits_with_def desk_calls flagged_def)

end
