(* ===== verification/WraithCli.thy ===== *)
theory WraithCli
  imports CommandLines
begin

text \<open>
  The command line of the orchestrator: the commands of \<open>wraith-control/wraith/cli.py\<close> from their
  options to their exit status. What they print is left out, and so is the package \<open>click\<close>, which
  reads the options; an exception that no command handles ends the interpreter with 1.
\<close>

section \<open>migrate\<close>

record 'f cli_options =
  co_pid :: int
  co_destination :: string
  co_username :: string
  co_key :: "string option"
  co_port :: int
  co_transfer_port :: int
  co_verify_only :: bool
  co_strict_fds :: bool
  co_keep_snapshot :: bool
  co_max_memory_gb :: 'f
  co_timeout :: int

text \<open>\<open>expand\<close> is \<open>os.path.expanduser\<close>.\<close>

definition expand_key :: "(string \<Rightarrow> string) \<Rightarrow> string option \<Rightarrow> string option" where
  "expand_key expand path = (case path of None \<Rightarrow> None | Some p \<Rightarrow> if p = [] then None else Some (expand p))"

definition cli_destination :: "(string \<Rightarrow> string) \<Rightarrow> 'f cli_options \<Rightarrow> destination" where
  "cli_destination expand opts = (default_destination (co_destination opts))
     \<lparr>d_port := co_port opts, d_username := co_username opts, d_ssh_key := expand_key expand (co_key opts),
      d_transfer_port := co_transfer_port opts\<rparr>"

definition cli_config ::
    "'f pyfloat \<Rightarrow> (string \<Rightarrow> bool) \<Rightarrow> (string \<Rightarrow> string) \<Rightarrow> 'f cli_options \<Rightarrow> builtin_exn + 'f migration_config" where
  "cli_config F exists expand opts =
     (let d = cli_destination expand opts; c = default_capture (co_max_memory_gb opts);
          t = default_transfer\<lparr>tc_timeout_s := co_timeout opts\<rparr>;
          r = default_restore\<lparr>rc_strict_fds := co_strict_fds opts, rc_keep_snapshot := co_keep_snapshot opts\<rparr> in
      bind_res (destination_check exists d) (\<lambda>_.
      bind_res (capture_config_check F c) (\<lambda>_.
      bind_res (transfer_config_check t) (\<lambda>_.
      Inr \<lparr>cfg_destination = d, cfg_capture = c, cfg_transfer = t, cfg_restore = r\<rparr>))))"

definition cli_status :: "exn + 'a \<Rightarrow> nat" where
  "cli_status r = (case r of
     Inr _ \<Rightarrow> 0
   | Inl (Wraith w) \<Rightarrow> if is_preflight w then 1 else if is_rollback w then 3 else 1
   | Inl (Builtin b) \<Rightarrow> 1)"

definition cli_migrate ::
    "'y pysys \<Rightarrow> 'f pyfloat \<Rightarrow> (string \<Rightarrow> string) \<Rightarrow> 'f cli_options \<Rightarrow> string \<Rightarrow> 'y \<Rightarrow> nat \<times> 'y tele" where
  "cli_migrate Y F expand opts mid y =
     (case cli_config F (\<lambda>p. y_exists Y p y) expand opts of
        Inl e \<Rightarrow> (cli_status (Inl (Builtin e) :: exn + unit), new_tele y)
      | Inr cfg \<Rightarrow> (case migrate Y F cfg mid (co_pid opts) (co_verify_only opts) (new_tele y) of
          (r, t) \<Rightarrow> (cli_status r, t)))"

section \<open>check\<close>

definition cli_check ::
    "'y pysys \<Rightarrow> 'f pyfloat \<Rightarrow> (string \<Rightarrow> string) \<Rightarrow> 'f \<Rightarrow> int \<Rightarrow> string \<Rightarrow> string \<Rightarrow> string option \<Rightarrow> int \<Rightarrow> 'y \<Rightarrow> nat \<times> 'y tele" where
  "cli_check Y F expand gb64 pid host username key port y =
     (let d = (default_destination host)\<lparr>d_port := port, d_username := username, d_ssh_key := expand_key expand key\<rparr>;
          cfg = \<lparr>cfg_destination = d, cfg_capture = default_capture gb64, cfg_transfer = default_transfer, cfg_restore = default_restore\<rparr> in
      case destination_check (\<lambda>p. y_exists Y p y) d of
        Inl e \<Rightarrow> (1, new_tele y)
      | Inr _ \<Rightarrow> (case bind_act (session_connect Y d) (\<lambda>_.
            finally_act (run_checks Y F cfg True pid) (effect_act (session_close Y))) (new_tele y) of
          (Inl e, t) \<Rightarrow> (1, t)
        | (Inr results, t) \<Rightarrow> (if checks_passed results then 0 else 1, t)))"

section \<open>The commands that run one program\<close>

text \<open>\<open>subprocess.run(cmd, check=True)\<close> without a timeout is \<open>invoke cmd\<close>: what it raises, or the
  exit status of the program.\<close>

definition run_program :: "(string list \<Rightarrow> ('y, builtin_exn, int) act) \<Rightarrow> string list \<Rightarrow> 'y \<Rightarrow> nat \<times> 'y" where
  "run_program invoke cmd y = (case invoke cmd y of
     (Inl e, z) \<Rightarrow> (1, z)
   | (Inr code, z) \<Rightarrow> (if code = 0 then 0 else 1, z))"

definition cli_capture ::
    "(string list \<Rightarrow> ('y, builtin_exn, int) act) \<Rightarrow> (string \<Rightarrow> 'y \<Rightarrow> builtin_exn + nat) \<Rightarrow> string \<Rightarrow> int \<Rightarrow> string \<Rightarrow> 'y \<Rightarrow> nat \<times> 'y" where
  "cli_capture invoke getsize capturer pid output y =
     (case run_program invoke [capturer, ''capture'', ''--pid'', show_int pid, ''--output'', output] y of
        (status, z) \<Rightarrow> if status \<noteq> 0 then (status, z)
          else (case getsize output z of Inl e \<Rightarrow> (1, z) | Inr n \<Rightarrow> (0, z)))"

definition transfer_args :: "string \<Rightarrow> string \<Rightarrow> int \<Rightarrow> int \<Rightarrow> string list" where
  "transfer_args snapshot dest retries timeout = [''--snapshot'', snapshot, ''--dest'', dest,
     ''--retries'', show_int retries, ''--timeout'', show_int timeout]"

definition cli_transfer ::
    "(string list \<Rightarrow> ('y, builtin_exn, int) act) \<Rightarrow> string \<Rightarrow> string \<Rightarrow> string \<Rightarrow> int \<Rightarrow> int \<Rightarrow> 'y \<Rightarrow> nat \<times> 'y" where
  "cli_transfer invoke transmitter snapshot dest retries timeout =
     run_program invoke (transmitter # transfer_args snapshot dest retries timeout)"

definition cli_restore :: "(string list \<Rightarrow> ('y, builtin_exn, int) act) \<Rightarrow> string \<Rightarrow> string \<Rightarrow> bool \<Rightarrow> 'y \<Rightarrow> nat \<times> 'y" where
  "cli_restore invoke restorer snapshot strict_fds =
     run_program invoke ([restorer, ''--snapshot'', snapshot] @ (if strict_fds then [''--strict-fds''] else []))"

text \<open>\<open>wraith transfer\<close> passes its timeout without a unit as well.\<close>

lemma cli_timeout_rejected:
  assumes "0 < timeout"
  shows "parse_flags fraction transmitter_flags (transfer_args snapshot dest retries timeout) (\<lambda>_. None) = Inl BadFlag"
proof -
  have words: "transfer_args snapshot dest retries timeout =
      (''--'' @ ''snapshot'') # snapshot # (''--'' @ ''dest'') # dest # (''--'' @ ''retries'') # show_int retries #
      (''--'' @ ''timeout'') # show_int timeout # []"
    by (simp add: transfer_args_def)
  show ?thesis
    unfolding words flag_steps by (simp add: positive_not_duration [OF assms] split: option.split)
qed

section \<open>What the exit status says\<close>

definition desk_options :: "unit cli_options" where
  "desk_options = \<lparr>co_pid = 7, co_destination = ''w2'', co_username = ''root'', co_key = None, co_port = 22,
     co_transfer_port = 9999, co_verify_only = False, co_strict_fds = False, co_keep_snapshot = False,
     co_max_memory_gb = (), co_timeout = 300\<rparr>"

lemma config_valid:
  assumes "cli_config F exists expand opts = Inr cfg"
  shows "0 < tc_timeout_s (cfg_transfer cfg)" "d_transmitter_path (cfg_destination cfg) = ''wraith-transmitter''"
proof -
  let ?t = "default_transfer\<lparr>tc_timeout_s := co_timeout opts\<rparr>"
  have ok: "transfer_config_check ?t = Inr ()" "cfg_transfer cfg = ?t" "cfg_destination cfg = cli_destination expand opts"
    using assms by (auto simp: cli_config_def Let_def result_simps)
  then show "0 < tc_timeout_s (cfg_transfer cfg)" by (auto simp: transfer_config_check_def split: if_splits)
  show "d_transmitter_path (cfg_destination cfg) = ''wraith-transmitter''"
    using ok by (simp add: cli_destination_def default_destination_def)
qed

text \<open>C17: \<open>wraith migrate\<close> cannot succeed as it is shipped: the orchestrator passes its timeout to the
  transmitter as a number of seconds without a unit, which the transmitter's flags refuse, so with
  a transmitter that ends with the status its \<open>main\<close> gives, no options make the command exit
  with 0, whatever the rest of the system does.\<close>

theorem shipped_migration_fails:
  assumes "exits_with Y ''wraith-transmitter'' (transmitter_status fraction K G xxh node dial s)"
    and "cli_migrate Y F expand opts mid y = (status, t)"
  shows "status \<noteq> 0"
proof (cases "cli_config F (\<lambda>p. y_exists Y p y) expand opts")
  case (Inl e)
  with assms(2) show ?thesis by (auto simp: cli_migrate_def cli_status_def)
next
  case (Inr cfg)
  obtain r where run: "migrate Y F cfg mid (co_pid opts) (co_verify_only opts) (new_tele y) = (r, t)"
    and status: "status = cli_status r"
    using assms(2) by (auto simp: cli_migrate_def Inr split: prod.splits)
  have "\<nexists>result. r = Inr result"
    using migration_fails [OF _ config_valid(1) [OF Inr] run] assms(1) by (simp add: config_valid(2) [OF Inr])
  with status show ?thesis by (auto simp: cli_status_def split: sum.splits exn.splits)
qed

lemma shipped_migration_fails_witness:
  "fst (cli_migrate (recorded (desk flagged ''Process 42 is now running'' 0)) (small_floats 64) id desk_options
     ''12345678-9'' ([], [])) \<noteq> 0"
  by (rule shipped_migration_fails [OF flagged_exits surjective_pairing])

text \<open>C23: The exit status of \<open>wraith migrate\<close> can be acted on: when nothing interrupts it and removing
  the snapshot raises nothing unusual, it is 3, the call for action, exactly when the rollback
  has failed, and if it is 0 the migration is complete and \<open>resume\<close> was never run.\<close>

theorem exit_status_truthful:
  assumes "cli_migrate (recorded Y) F expand opts mid (y, []) = (status, t)" "tidy Y"
    and "cli_config F (\<lambda>p. y_exists Y p y) expand opts = Inr cfg"
    and "\<And>t. migrate (recorded Y) F cfg mid (co_pid opts) (co_verify_only opts) (new_tele (y, [])) \<noteq> (Inl (Builtin Interrupt), t)"
  shows "(status = 3 \<longleftrightarrow> t_state t = FAILED) \<and>
     (status = 0 \<longrightarrow> t_state t = COMPLETE \<and> (\<forall>ev \<in> set (snd (t_sys t)). \<not> is_resume cfg (co_pid opts) ev))"
proof -
  have cfg: "cli_config F (\<lambda>p. y_exists (recorded Y) p (y, [])) expand opts = Inr cfg"
    using assms(3) by (simp add: recorded_def)
  obtain r where run: "migrate (recorded Y) F cfg mid (co_pid opts) (co_verify_only opts) (new_tele (y, [])) = (r, t)"
    and status: "status = cli_status r"
    using assms(1) by (auto simp: cli_migrate_def cfg split: prod.splits)
  have "r \<noteq> Inl (Builtin Interrupt)" using assms(4) run by auto
  with migrate_ends [OF run] assms(2) have "cli_status r = 3 \<longleftrightarrow> t_state t = FAILED"
    by (auto simp: migration_end_def cli_status_def raised_at_def reached_def split: sum.splits exn.splits if_splits)
  moreover have "t_state t = COMPLETE \<and> (\<forall>ev \<in> set (snd (t_sys t)). \<not> is_resume cfg (co_pid opts) ev)" if "cli_status r = 0"
  proof -
    from that obtain x where "r = Inr x"
      by (auto simp: cli_status_def split: sum.splits exn.splits if_splits)
    with migrate_ends [OF run] have "mig_path cfg (co_pid opts) (co_verify_only opts) (snd (t_sys t)) (COMPLETE, None)"
      "t_state t = COMPLETE"
      by (simp_all add: migration_end_def reached_def)
    with no_resume_outside_rollback show ?thesis by fastforce
  qed
  ultimately show ?thesis using status by simp
qed

lemma desk_options_config: "cli_config (small_floats 64) exists expand desk_options = Inr plain_config"
  by (simp add: cli_config_def desk_options_def cli_destination_def expand_key_def Let_def destination_check_def
      capture_config_check_def transfer_config_check_def small_floats_def default_destination_def default_capture_def
      default_transfer_def default_restore_def plain_config_def)

lemma exit_status_truthful_witness:
  "\<exists>t. cli_migrate (recorded (desk all_well ''Process 42 is now running'' 0)) (small_floats 64) id desk_options
     ''12345678-9'' ([], []) = (0, t) \<and> t_state t = COMPLETE"
proof -
  have opts: "co_pid desk_options = 7" "co_verify_only desk_options = False" by (simp_all add: desk_options_def)
  obtain res t where run: "migrate (recorded (desk all_well ''Process 42 is now running'' 0)) (small_floats 64) plain_config ''12345678-9'' 7 False
      (new_tele ([], [])) = (Inr res, t)"
    using desk_completes unfolding desk_run_def by blast
  then have c: "cli_migrate (recorded (desk all_well ''Process 42 is now running'' 0)) (small_floats 64) id desk_options
     ''12345678-9'' ([], []) = (0, t)"
    by (simp add: cli_migrate_def desk_options_config opts cli_status_def)
  from exit_status_truthful [OF c desk_tidy desk_options_config] run c show ?thesis by (simp add: opts)
qed

end
