(* ===== verification/Completion.thy ===== *)
theory Completion
  imports Migrations
begin

text \<open>
  When a migration completes: total correctness of the orchestrator on a system whose calls
  succeed and whose destination passes the checks.
\<close>

section \<open>Actions that succeed\<close>

definition succeeds :: "('s \<Rightarrow> bool) \<Rightarrow> ('s, 'e, 'a) act \<Rightarrow> ('a \<Rightarrow> 's \<Rightarrow> bool) \<Rightarrow> bool" where
  "succeeds P m Q \<longleftrightarrow> (\<forall>s. P s \<longrightarrow> (\<exists>x t. m s = (Inr x, t) \<and> Q x t))"

lemma succeedsI: "(\<And>s. P s \<Longrightarrow> \<exists>x t. m s = (Inr x, t) \<and> Q x t) \<Longrightarrow> succeeds P m Q"
  unfolding succeeds_def by blast

lemma succ_ok: "(\<And>s. P s \<Longrightarrow> Q x s) \<Longrightarrow> succeeds P (ok_act x) Q"
  by (simp add: succeeds_def ok_act_def)

lemma succ_effect: "(\<And>s. P s \<Longrightarrow> Q () (f s)) \<Longrightarrow> succeeds P (effect_act f) Q"
  by (simp add: succeeds_def effect_act_def)

lemma succ_bind:
  assumes "succeeds P m Q" "\<And>x. succeeds (Q x) (f x) R"
  shows "succeeds P (bind_act m f) R"
proof (rule succeedsI)
  fix s assume "P s"
  then obtain x t where m: "m s = (Inr x, t)" and "Q x t" using assms(1) unfolding succeeds_def by blast
  then obtain y u where "f x t = (Inr y, u)" "R y u" using assms(2) unfolding succeeds_def by blast
  with m show "\<exists>y u. bind_act m f s = (Inr y, u) \<and> R y u" by (simp add: bind_act_step)
qed

lemma succ_catch: "succeeds P m Q \<Longrightarrow> succeeds P (catch_act m h) Q"
  unfolding succeeds_def by (metis catch_act_step(1))

lemma succ_finally:
  assumes "succeeds P m Q" "\<And>x. succeeds (Q x) f (\<lambda>_. R x)"
  shows "succeeds P (finally_act m f) R"
proof (rule succeedsI)
  fix s assume "P s"
  then obtain x t where m: "m s = (Inr x, t)" and "Q x t" using assms(1) unfolding succeeds_def by blast
  then obtain y u where "f t = (Inr y, u)" "R x u" using assms(2) unfolding succeeds_def by blast
  with m show "\<exists>y u. finally_act m f s = (Inr y, u) \<and> R y u" by (auto simp: finally_act_step(1))
qed

lemma succ_weaken: "succeeds P m Q \<Longrightarrow> (\<And>s. P' s \<Longrightarrow> P s) \<Longrightarrow> (\<And>x s. Q x s \<Longrightarrow> Q' x s) \<Longrightarrow> succeeds P' m Q'"
  unfolding succeeds_def by meson

lemma succ_pre: "(b \<Longrightarrow> succeeds P m Q) \<Longrightarrow> succeeds (\<lambda>s. b \<and> P s) m Q"
  by (auto simp: succeeds_def)

section \<open>Systems that cooperate\<close>

text \<open>A call that always returns, with a value that \<open>P\<close> holds of, and a command over the
  connection that always exits with 0.\<close>

definition returns :: "('y, builtin_exn, 'a) act \<Rightarrow> ('a \<Rightarrow> bool) \<Rightarrow> bool" where
  "returns m P \<longleftrightarrow> (\<forall>y. \<exists>x z. m y = (Inr x, z) \<and> P x)"

definition answers :: "'y pysys \<Rightarrow> string \<Rightarrow> (string \<Rightarrow> bool) \<Rightarrow> bool" where
  "answers Y cmd P \<longleftrightarrow> (\<forall>n. returns (y_ssh_exec Y cmd n) (\<lambda>(out, err, code). code = 0 \<and> P out))"

definition migratable :: "'y pysys \<Rightarrow> 'f pyfloat \<Rightarrow> 'f migration_config \<Rightarrow> int \<Rightarrow> int \<Rightarrow> bool" where
  "migratable Y F cfg pid kb \<longleftrightarrow> (\<forall>y. y_isdir Y (''/proc/'' @ show_int pid) y) \<and>
     returns (y_open_rdonly Y (''/proc/'' @ show_int pid @ ''/mem'')) (\<lambda>_. True) \<and>
     (\<forall>y. read_proc_status_kb Y pid ''VmRSS'' y = Inr kb) \<and> pf_within F kb (cc_max_memory_gb (cfg_capture cfg)) \<and>
     (\<forall>y. y_machine Y y = ''x86_64'')"

definition prepared :: "'y pysys \<Rightarrow> 'f pyfloat \<Rightarrow> destination \<Rightarrow> int \<Rightarrow> bool" where
  "prepared Y F d kb \<longleftrightarrow> answers Y ''echo wraith-ping'' (py_contains ''wraith-ping'') \<and>
     answers Y ''uname -m'' (\<lambda>out. py_strip out = ''x86_64'') \<and>
     answers Y ''free -k'' (\<lambda>out. \<exists>free. parse_free_available out = Inr free \<and> pf_half_more F kb \<le> free) \<and>
     answers Y (''command -v '' @ d_restorer_path d @ '' || test -x '' @ d_restorer_path d) (\<lambda>_. True) \<and>
     answers Y (''command -v '' @ d_receiver_path d @ '' || test -x '' @ d_receiver_path d) (\<lambda>_. True)"

definition working :: "'y pysys \<Rightarrow> 'f migration_config \<Rightarrow> string \<Rightarrow> int \<Rightarrow> bool" where
  "working Y cfg mid p \<longleftrightarrow> (\<forall>y. \<exists>z. y_ssh_connect Y (cfg_destination cfg) y = (Inr (), z)) \<and>
     (\<forall>pre post. returns (y_mkstemp Y pre post) (\<lambda>_. True)) \<and>
     (\<forall>cmd n. returns (y_run Y cmd n) (\<lambda>(code, out, err). code = 0)) \<and>
     (\<forall>path y. \<exists>n. y_getsize Y path y = Inr n) \<and> (\<forall>cmd. returns (y_ssh_background Y cmd) (\<lambda>_. True)) \<and>
     answers Y (restorer_cmd cfg (remote_snapshot_path (cfg_destination cfg) mid)) (\<lambda>out. parse_restored_pid out = p) \<and>
     answers Y (''rm -f '' @ remote_snapshot_path (cfg_destination cfg) mid) (\<lambda>_. True) \<and>
     (\<forall>q sig. returns (y_kill Y q sig) (\<lambda>_. True)) \<and> (\<forall>path. returns (y_unlink Y path) (\<lambda>_. True))"

lemma succ_sys:
  assumes "returns m V" "\<And>x t z. P t \<Longrightarrow> V x \<Longrightarrow> Q x (t\<lparr>t_sys := z\<rparr>)"
  shows "succeeds P (sys_act m) Q"
proof (rule succeedsI)
  fix t assume p: "P t"
  obtain x z where m: "m (t_sys t) = (Inr x, z)" and x: "V x" using assms(1) unfolding returns_def by blast
  have "sys_act m t = (Inr x, t\<lparr>t_sys := z\<rparr>)" by (simp add: sys_act_def m)
  with assms(2) [OF p x] show "\<exists>x u. sys_act m t = (Inr x, u) \<and> Q x u" by blast
qed

text \<open>What a phase may rely on: the connection, and what the phases before it have left.\<close>

definition keeping :: "(string option \<Rightarrow> string option \<Rightarrow> int option \<Rightarrow> bool) \<Rightarrow> 'y tele \<Rightarrow> bool" where
  "keeping R t \<longleftrightarrow> t_client t \<and> R (t_snapshot t) (t_remote t) (t_dest_pid t)"

lemma keeping_simps [simp]:
  "keeping R (t\<lparr>t_sys := z\<rparr>) = keeping R t" "keeping R (transition_to Y m t) = keeping R t"
  "keeping R (sys_effect f t) = keeping R t"
  by (simp_all add: keeping_def transition_to_def sys_effect_def)

lemma succ_session:
  assumes "answers Y cmd V"
  shows "succeeds (keeping R) (session_exec Y d cmd n chk) (\<lambda>(out, err, code) t. code = 0 \<and> V out \<and> keeping R t)"
proof (rule succeedsI)
  fix t :: "'a tele" assume t: "keeping R t"
  obtain out err code z where "y_ssh_exec Y cmd (effective_timeout d n) (t_sys t) = (Inr (out, err, code), z)" "code = 0" "V out"
    using assms unfolding answers_def returns_def by (fastforce split: prod.splits)
  with t show "\<exists>x u. session_exec Y d cmd n chk t = (Inr x, u) \<and> (case x of (out, err, code) \<Rightarrow> \<lambda>t. code = 0 \<and> V out \<and> keeping R t) u"
    by (simp add: session_exec_def ensure_connected_def sys_act_def run_steps keeping_def)
qed

section \<open>The checks pass\<close>

abbreviation passes :: "('y tele \<Rightarrow> bool) \<Rightarrow> ('y tele, exn, check_result) act \<Rightarrow> bool" where
  "passes P m \<equiv> succeeds P m (\<lambda>r t. cr_passed r \<and> P t)"

lemma passes_guarded:
  assumes "succeeds P m (\<lambda>(ok, msg) t. ok \<and> P t)"
  shows "passes P (guarded m failed name)"
  unfolding guarded_def
  by (intro succ_catch succ_bind [OF assms]) (auto intro!: succ_ok)

lemma passes_permissions:
  assumes "migratable Y F cfg pid kb"
  shows "passes (keeping R) (check_source_process_permissions Y pid)"
proof -
  have "returns (y_open_rdonly Y (''/proc/'' @ show_int pid @ ''/mem'')) (\<lambda>_. True)"
    using assms unfolding migratable_def by blast
  then show ?thesis
    unfolding check_source_process_permissions_def Let_def
    by (intro succ_catch succ_bind [OF succ_sys [where Q = "\<lambda>_. keeping R"]] succ_ok) auto
qed

lemma passes_size: "migratable Y F cfg pid kb \<Longrightarrow> passes P (check_source_process_size Y F cfg pid)"
  by (simp add: migratable_def succeeds_def check_source_process_size_def Let_def)

lemma passes_reachable:
  assumes "prepared Y F d' kb"
  shows "passes (keeping R) (check_destination_reachable Y d)"
proof -
  have "answers Y ''echo wraith-ping'' (py_contains ''wraith-ping'')" using assms unfolding prepared_def by blast
  then show ?thesis
    unfolding check_destination_reachable_def
    by (intro passes_guarded succ_bind [OF succ_session]) (auto intro!: succ_ok simp: Let_def)
qed

lemma passes_arch:
  assumes "migratable Y F cfg pid kb" "prepared Y F d' kb"
  shows "passes (keeping R) (check_destination_arch Y d)"
proof -
  have machine: "\<And>y. y_machine Y y = ''x86_64''" using assms(1) unfolding migratable_def by blast
  have "answers Y ''uname -m'' (\<lambda>out. py_strip out = ''x86_64'')" using assms(2) unfolding prepared_def by blast
  then show ?thesis
    unfolding check_destination_arch_def machine Let_def
    by (intro passes_guarded succ_bind [OF succ_session]) (auto intro!: succ_ok)
qed

lemma passes_resources:
  assumes "migratable Y F cfg pid kb" "prepared Y F d' kb"
  shows "passes (keeping R) (check_destination_resources Y F d pid)"
proof -
  have rss: "\<And>y. read_proc_status_kb Y pid ''VmRSS'' y = Inr kb" using assms(1) unfolding migratable_def by blast
  have free: "answers Y ''free -k'' (\<lambda>out. \<exists>free. parse_free_available out = Inr free \<and> pf_half_more F kb \<le> free)"
    using assms(2) unfolding prepared_def by blast
  have look: "succeeds (keeping R) (sys_look (read_proc_status_kb Y pid ''VmRSS'')) (\<lambda>x t. x = kb \<and> keeping R t)"
    by (simp add: succeeds_def sys_look_def rss)
  have enough: "succeeds (\<lambda>t. code = 0 \<and> (\<exists>free. parse_free_available out = Inr free \<and> pf_half_more F kb \<le> free) \<and> keeping R t)
      (bind_act (look (\<lambda>_. map_err Builtin (parse_free_available out))) (\<lambda>avail.
        ok_act (avail \<ge> pf_half_more F kb, Available avail (pf_half_more F kb))))
      (\<lambda>(ok, msg) t. ok \<and> keeping R t)" for code :: int and out
    by (auto simp: succeeds_def look_def bind_act_def ok_act_def)
  show ?thesis
    unfolding check_destination_resources_def
  proof (intro passes_guarded succ_bind [OF look] succ_pre)
    fix x assume x: "x = kb"
    show "succeeds (keeping R) (bind_act (session_exec Y d ''free -k'' (Some 5) True) (\<lambda>(out, err, code).
        bind_act (look (\<lambda>_. map_err Builtin (parse_free_available out))) (\<lambda>avail.
        ok_act (avail \<ge> pf_half_more F x, Available avail (pf_half_more F x))))) (\<lambda>(ok, msg) t. ok \<and> keeping R t)"
      unfolding x by (intro succ_bind [OF succ_session [OF free]]) (auto simp: enough split: prod.split)
  qed
qed

lemma passes_binaries:
  assumes "prepared Y F d kb"
  shows "passes (keeping R) (check_binaries_present Y d)"
proof -
  have found: "succeeds (keeping R) (binary_missing Y d path) (\<lambda>x t. \<not> x \<and> keeping R t)"
    if "answers Y (''command -v '' @ path @ '' || test -x '' @ path) (\<lambda>_. True)" for path
    unfolding binary_missing_def
    by (intro succ_catch succ_bind [OF succ_session [OF that]]) (auto intro!: succ_ok)
  have "answers Y (''command -v '' @ d_restorer_path d @ '' || test -x '' @ d_restorer_path d) (\<lambda>_. True)"
    "answers Y (''command -v '' @ d_receiver_path d @ '' || test -x '' @ d_receiver_path d) (\<lambda>_. True)"
    using assms unfolding prepared_def by blast+
  from this [THEN found] show ?thesis
    unfolding check_binaries_present_def
    by (auto simp: succeeds_def bind_act_def ok_act_def Let_def split: prod.split) fastforce+
qed

lemma checks_succeed:
  assumes "migratable Y F cfg pid kb" "prepared Y F (cfg_destination cfg) kb"
  shows "succeeds (keeping R) (run_preflight Y F cfg pid) (\<lambda>_. keeping R)"
proof -
  let ?p = "\<lambda>r t. cr_passed r \<and> keeping R t"
  have local: "y_isdir Y (''/proc/'' @ show_int pid) y" "y_machine Y y = ''x86_64''" for y
    using assms(1) unfolding migratable_def by blast+
  have exists: "cr_passed (check_source_process_exists Y pid y)" and arch: "cr_passed (check_source_arch Y y)" for y
    by (simp_all only: check_source_process_exists_def check_source_arch_def Let_def local check_result.simps)
  have results: "succeeds (keeping R) (run_checks Y F cfg True pid) (\<lambda>rs t. blocking_failures rs = [] \<and> keeping R t)"
    unfolding run_checks_def Let_def if_True
    by (rule succ_bind [where Q = ?p], simp add: succeeds_def exists, intro succ_pre,
        rule succ_bind [OF passes_permissions [OF assms(1)]], intro succ_pre,
        rule succ_bind [OF passes_size [OF assms(1)]], intro succ_pre,
        rule succ_bind [where Q = ?p], simp add: succeeds_def arch, intro succ_pre,
        rule succ_bind [OF passes_reachable [OF assms(2)]], intro succ_pre,
        rule succ_bind [OF passes_arch [OF assms]], intro succ_pre,
        rule succ_bind [OF passes_resources [OF assms]], intro succ_pre,
        rule succ_bind [OF passes_binaries [OF assms(2)]], intro succ_pre,
        rule succ_ok, simp add: blocking_failures_def)
  show ?thesis
    unfolding run_preflight_def
    by (rule succ_bind [OF succ_effect [where Q = "\<lambda>_. keeping R"]], simp, rule succ_bind [OF results], intro succ_pre)
      (simp add: succ_ok)
qed

section \<open>The phases succeed\<close>

lemma succ_run:
  assumes "working Y cfg mid p"
  shows "succeeds (keeping R) (catch_act (sys_act (y_run Y cmd n)) h) (\<lambda>(code, out, err) t. code = 0 \<and> keeping R t)"
proof -
  have "returns (y_run Y cmd n) (\<lambda>(code, out, err). code = 0)" using assms unfolding working_def by blast
  then show ?thesis by (intro succ_catch succ_sys [where V = "\<lambda>(code, out, err). code = 0"]) auto
qed

lemma succ_status:
  assumes "succeeds (keeping R) m Q"
  shows "succeeds ((\<lambda>(code, out, err) t. code = 0 \<and> keeping R t) x)
     (case x of (code, out, err) \<Rightarrow> if code \<noteq> (0 :: int) then f code err else m) Q"
  using assms by (cases x) (auto intro!: succ_pre simp: succeeds_def)

lemma succ_answer:
  assumes "\<And>out. V out \<Longrightarrow> succeeds (keeping R) (m out) Q"
  shows "succeeds ((\<lambda>(out, err, code) t. code = 0 \<and> V out \<and> keeping R t) x)
     (case x of (out, err, code) \<Rightarrow> if code = (2 :: int) \<and> strict then f else if code \<noteq> 0 then g code err else m out) Q"
  using assms by (cases x) (auto simp: succeeds_def)

text \<open>What each phase leaves to the next.\<close>

abbreviation captured :: "'y tele \<Rightarrow> bool" where
  "captured \<equiv> keeping (\<lambda>sn rm dp. sn \<noteq> None)"

abbreviation transferred :: "string \<Rightarrow> 'y tele \<Rightarrow> bool" where
  "transferred path \<equiv> keeping (\<lambda>sn rm dp. sn \<noteq> None \<and> rm = Some path)"

abbreviation confirmed_as :: "int \<Rightarrow> 'y tele \<Rightarrow> bool" where
  "confirmed_as p \<equiv> keeping (\<lambda>sn rm dp. sn \<noteq> None \<and> dp = Some p)"

lemma capture_succeeds:
  assumes "working Y cfg mid p"
  shows "succeeds (keeping R) (run_capture Y cfg mid pid) (\<lambda>_. captured)"
proof -
  have tmp: "returns (y_mkstemp Y pre post) (\<lambda>_. True)" for pre post using assms unfolding working_def by blast
  have size: "succeeds captured (bind_act (sys_look (y_getsize Y path)) (\<lambda>_. ok_act ())) (\<lambda>_. captured)" for path
  proof (rule succeedsI)
    fix t :: "'a tele" assume t: "captured t"
    obtain n where "y_getsize Y path (t_sys t) = Inr n" using assms unfolding working_def by blast
    with t show "\<exists>x u. bind_act (sys_look (y_getsize Y path)) (\<lambda>_. ok_act ()) t = (Inr x, u) \<and> captured u"
      by (simp add: run_steps sys_look_def)
  qed
  show ?thesis
    unfolding run_capture_def Let_def
    by (rule succ_bind [OF succ_effect [where Q = "\<lambda>_. keeping R"]], simp,
        rule succ_bind [OF succ_sys [OF tmp, where Q = "\<lambda>_. keeping R"]], simp,
        rule succ_bind [OF succ_effect [where Q = "\<lambda>_. captured"]], simp add: keeping_def,
        rule succ_bind [OF succ_run [OF assms]], rule succ_status, rule size)
qed

lemma transfer_succeeds:
  assumes "working Y cfg mid p"
  shows "succeeds captured (run_transfer Y cfg mid pid)
     (\<lambda>_. transferred (remote_snapshot_path (cfg_destination cfg) mid))"
proof -
  let ?t = "transferred (remote_snapshot_path (cfg_destination cfg) mid)"
  have bg: "returns (y_ssh_background Y cmd) (\<lambda>_. True)" for cmd using assms unfolding working_def by blast
  have start: "succeeds ?t (session_exec_background Y cmd) (\<lambda>_. ?t)" for cmd
    unfolding session_exec_background_def
    by (rule succ_bind [where Q = "\<lambda>_. ?t"], simp add: succeeds_def ensure_connected_def keeping_def)
      (auto intro!: succ_sys [OF bg])
  have path: "succeeds captured (\<lambda>t. (ok_or (Builtin AssertionError) (t_snapshot t), t)) (\<lambda>_. captured)"
    by (auto simp: succeeds_def keeping_def)
  show ?thesis
    unfolding run_transfer_def Let_def
    by (rule succ_bind [OF succ_effect [where Q = "\<lambda>_. captured"]], simp,
        rule succ_bind [OF path],
        rule succ_bind [OF succ_effect [where Q = "\<lambda>_. ?t"]], simp add: keeping_def,
        rule succ_bind [OF succ_catch [OF start]],
        rule succ_bind [OF succ_effect [where Q = "\<lambda>_. ?t"]], simp,
        rule succ_bind [OF succ_run [OF assms]], rule succ_status, rule succ_ok)
qed

lemma restore_succeeds:
  assumes "working Y cfg mid p"
  shows "succeeds (transferred (remote_snapshot_path (cfg_destination cfg) mid)) (run_restore Y cfg) (\<lambda>_. confirmed_as p)"
proof -
  let ?path = "remote_snapshot_path (cfg_destination cfg) mid"
  let ?t = "transferred ?path"
  have cmds: "answers Y (restorer_cmd cfg ?path) (\<lambda>out. parse_restored_pid out = p)" "answers Y (''rm -f '' @ ?path) (\<lambda>_. True)"
    using assms unfolding working_def by blast+
  have path: "succeeds ?t (\<lambda>t. (ok_or (Builtin AssertionError) (t_remote t), t)) (\<lambda>x t. x = ?path \<and> ?t t)"
    by (auto simp: succeeds_def keeping_def)
  have removed: "succeeds (keeping R) (if keep then ok_act () else catch_act
        (bind_act (session_exec Y d (''rm -f '' @ ?path) None True) (\<lambda>_. ok_act ()))
        (\<lambda>e. if is_exception e then ok_act () else fail_act e)) (\<lambda>_. keeping R)" for keep d R
  proof (cases keep)
    case False
    have "succeeds (keeping R) (bind_act (session_exec Y d (''rm -f '' @ ?path) None True) (\<lambda>_. ok_act ())) (\<lambda>_. keeping R)"
      by (rule succ_bind [OF succ_session [OF cmds(2)]], rule succ_ok) auto
    with False show ?thesis by (simp only: if_False) (rule succ_catch)
  qed (simp add: succ_ok)
  have rest: "succeeds ?t (bind_act (effect_act (\<lambda>t. t\<lparr>t_dest_pid := Some p\<rparr>)) (\<lambda>_.
      if keep then ok_act () else catch_act
        (bind_act (session_exec Y d (''rm -f '' @ ?path) None True) (\<lambda>_. ok_act ()))
        (\<lambda>e. if is_exception e then ok_act () else fail_act e))) (\<lambda>_. confirmed_as p)" for keep d
    by (rule succ_bind [OF succ_effect [where Q = "\<lambda>_. confirmed_as p"]], simp add: keeping_def)
      (rule removed)
  show ?thesis
    unfolding run_restore_def Let_def
    by (rule succ_bind [OF succ_effect [where Q = "\<lambda>_. ?t"]], simp, rule succ_bind [OF path], intro succ_pre, simp only:,
        rule succ_bind [OF succ_catch [OF succ_session [OF cmds(1)]]], rule succ_answer, simp only:, rule rest)
qed

lemma terminate_succeeds:
  assumes "working Y cfg mid p"
  shows "succeeds (keeping R) (terminate_source Y pid) (\<lambda>_. keeping R)"
proof -
  have kill: "returns (y_kill Y q sig) (\<lambda>_. True)" for q sig using assms unfolding working_def by blast
  show ?thesis
    unfolding terminate_source_def
    by (rule succ_catch, rule succ_bind [OF succ_sys [OF kill, where Q = "\<lambda>_. keeping R"]], simp,
        rule succ_bind [OF succ_effect [where Q = "\<lambda>_. keeping R"]], simp)
      (auto intro!: succ_catch succ_sys [OF kill])
qed

section \<open>The migration completes\<close>

abbreviation complete_as :: "int \<Rightarrow> 'y tele \<Rightarrow> bool" where
  "complete_as p t \<equiv> t_state t = COMPLETE \<and> t_snapshot t \<noteq> None \<and> t_dest_pid t = Some p"

lemma result_succeeds:
  assumes "working Y cfg mid p"
  shows "succeeds (complete_as p) (build_result Y cfg mid pid)
     (\<lambda>res t. (mg_source_pid res = pid \<and> mg_destination_pid res = p) \<and> complete_as p t)"
proof (rule succeedsI)
  fix t :: "'a tele" assume t: "complete_as p t"
  then obtain path where path: "t_snapshot t = Some path" by blast
  obtain n where n: "y_getsize Y path (t_sys t) = Inr n" using assms unfolding working_def by blast
  show "\<exists>res u. build_result Y cfg mid pid t = (Inr res, u) \<and>
      (mg_source_pid res = pid \<and> mg_destination_pid res = p) \<and> complete_as p u"
    using t path n by (simp add: build_result_def run_steps sys_look_def)
qed

lemma phases_succeed:
  assumes "working Y cfg mid p" "migratable Y F cfg pid kb" "prepared Y F (cfg_destination cfg) kb"
  shows "succeeds t_client (migrate_phases Y F cfg mid pid vo)
     (\<lambda>res t. (mg_source_pid res = pid \<and> mg_destination_pid res = p) \<and> complete_as p t)"
proof -
  let ?any = "keeping (\<lambda>_ _ _. True)"
  have connected: "succeeds t_client (session_connect Y (cfg_destination cfg)) (\<lambda>_. ?any)"
    by (simp add: succeeds_def session_connect_def keeping_def)
  have commit: "succeeds (confirmed_as p) (if vo then ok_act () else terminate_source Y pid) (\<lambda>_. confirmed_as p)"
    using terminate_succeeds [OF assms(1)] by (cases vo) (auto intro: succ_ok)
  show ?thesis
    unfolding migrate_phases_def
    by (rule succ_bind [OF connected], rule succ_bind [OF checks_succeed [OF assms(2,3)]],
        rule succ_bind [OF capture_succeeds [OF assms(1)]], rule succ_bind [OF transfer_succeeds [OF assms(1)]],
        rule succ_bind [OF restore_succeeds [OF assms(1)]], rule succ_bind [OF commit],
        rule succ_bind [OF succ_effect [where Q = "\<lambda>_. complete_as p"]], simp add: keeping_def transition_to_def,
        rule result_succeeds [OF assms(1)])
qed

lemma ending_succeeds:
  assumes "working Y cfg mid p"
  shows "succeeds (complete_as p) (cleanup_snapshot Y) (\<lambda>_. complete_as p)"
    "succeeds (complete_as p) (effect_act (session_close Y)) (\<lambda>_. complete_as p)"
proof -
  have rm: "returns (y_unlink Y path) (\<lambda>_. True)" for path using assms unfolding working_def by blast
  show "succeeds (complete_as p) (cleanup_snapshot Y) (\<lambda>_. complete_as p)"
  proof (rule succeedsI)
    fix t :: "'a tele" assume t: "complete_as p t"
    then obtain path where path: "t_snapshot t = Some path" by blast
    obtain z where "y_unlink Y path (t_sys t) = (Inr (), z)" using rm unfolding returns_def by fastforce
    with t path show "\<exists>x u. cleanup_snapshot Y t = (Inr x, u) \<and> complete_as p u"
      by (simp add: cleanup_snapshot_def run_steps sys_act_def)
  qed
  show "succeeds (complete_as p) (effect_act (session_close Y)) (\<lambda>_. complete_as p)"
    by (rule succ_effect) (simp add: session_close_def)
qed

text \<open>C12: A migration that can succeed does: when the process passes the checks, the destination answers
  them well, every program exits with 0 and no call raises, then \<open>migrate\<close> returns a result, in the
  state \<open>COMPLETE\<close>, with the process that the restorer has reported.\<close>

theorem migration_reaches_complete:
  assumes "working Y cfg mid p" "migratable Y F cfg pid kb" "prepared Y F (cfg_destination cfg) kb"
  shows "\<exists>res t. migrate Y F cfg mid pid vo (new_tele y) = (Inr res, t) \<and> t_state t = COMPLETE \<and>
     mg_source_pid res = pid \<and> mg_destination_pid res = p"
proof -
  let ?res = "\<lambda>res t. (mg_source_pid res = pid \<and> mg_destination_pid res = p) \<and> complete_as p t"
  have keep: "succeeds (?res x) m (\<lambda>_. ?res x)" if "succeeds (complete_as p) m (\<lambda>_. complete_as p)"
    for x and m :: "('a tele, exn, unit) act"
    using that by (intro succ_pre) (auto simp: succeeds_def)
  have "succeeds t_client (finally_act (finally_act
      (catch_act (migrate_phases Y F cfg mid pid vo) (migrate_handler Y cfg pid)) (cleanup_snapshot Y))
      (effect_act (session_close Y))) ?res"
    by (rule succ_finally [OF succ_finally [OF succ_catch [OF phases_succeed [OF assms]] keep]
          keep]) (rule ending_succeeds [OF assms(1)])+
  note session = this
  obtain z where "y_ssh_connect Y (cfg_destination cfg) y = (Inr (), z)"
    using assms(1) unfolding working_def by blast
  then have "session_connect Y (cfg_destination cfg) (new_tele y) =
      (Inr (), (new_tele y)\<lparr>t_client := True, t_sys := z\<rparr>)" (is "_ = (_, ?t)")
    by (simp add: session_connect_def new_tele_def)
  then have connect: "session_connect Y (cfg_destination cfg) (new_tele y) = (Inr (), ?t)" by simp
  have "t_client ?t" by simp
  with session obtain res t where "finally_act (finally_act
      (catch_act (migrate_phases Y F cfg mid pid vo) (migrate_handler Y cfg pid)) (cleanup_snapshot Y))
      (effect_act (session_close Y)) ?t = (Inr res, t)" "?res res t"
    unfolding succeeds_def by blast
  with connect show ?thesis by (auto simp: migrate_def bind_act_step)
qed

lemma desk_serves:
  "working (desk all_well ''Process 42 is now running'' 0) plain_config ''12345678-9'' 42"
  "migratable (desk all_well ''Process 42 is now running'' 0) (small_floats 64) plain_config 7 4"
  "prepared (desk all_well ''Process 42 is now running'' 0) (small_floats 64) (cfg_destination plain_config) 4"
proof -
  have ans: "answers (desk all_well out code) cmd P" if "desk_exec out code cmd = (o', e', 0)" "P o'" for out code cmd P o' e'
    using that by (simp add: answers_def returns_def desk_def)
  have exec: "desk_exec out c desk_restore = (out, [], c)" "desk_exec out c (''rm -f '' @ desk_remote) = ([], [], 0)" for out c
    by (simp_all add: desk_exec_def desk_restore_def starts_with_def desk_remote_def)
  show "working (desk all_well ''Process 42 is now running'' 0) plain_config ''12345678-9'' 42"
    unfolding working_def desk_commands
    by (intro conjI allI ans [OF exec(1)] ans [OF exec(2)] desk_pid) (simp_all add: desk_def returns_def all_well_def)
  show "migratable (desk all_well ''Process 42 is now running'' 0) (small_floats 64) plain_config 7 4"
    by (simp add: migratable_def desk_def returns_def read_proc_status_kb_def desk_rss small_floats_def)
  have silent: "desk_exec out c (''command -v '' @ d_restorer_path (cfg_destination plain_config) @ '' || test -x '' @
        d_restorer_path (cfg_destination plain_config)) = ([], [], 0)"
    "desk_exec out c (''command -v '' @ d_receiver_path (cfg_destination plain_config) @ '' || test -x '' @
        d_receiver_path (cfg_destination plain_config)) = ([], [], 0)" for out c
    by (simp_all add: desk_exec_def desk_host default_destination_def starts_with_def)
  show "prepared (desk all_well ''Process 42 is now running'' 0) (small_floats 64) (cfg_destination plain_config) 4"
    unfolding prepared_def
    by (intro conjI ans [OF desk_replies(1)] ans [OF desk_replies(2)] ans [OF desk_replies(3)] ans [OF silent(1)]
        ans [OF silent(2)] desk_words TrueI) (simp add: desk_free small_floats_def)
qed

lemma migration_reaches_complete_witness:
  "\<exists>res t. migrate (desk all_well ''Process 42 is now running'' 0) (small_floats 64) plain_config ''12345678-9'' 7 False
     (new_tele []) = (Inr res, t) \<and> mg_destination_pid res = 42"
  using migration_reaches_complete [OF desk_serves] by blast

end
