(* ===== verification/Custody.thy ===== *)
theory Custody
  imports Freezing Completion
begin

text \<open>
  The source process after a rollback. What the orchestrator does is to run
  \<open>wraith-capturer resume\<close>; what that does to the process is the model of the capturer. Here the
  two are put together.
\<close>

section \<open>The capturer\<close>

text \<open>A \<open>resume\<close> that succeeds has attached to the process and detached it again, whatever the wait
  for it reported.\<close>

lemma resume_releases:
  assumes "tracer K cv sysc" "cmd_resume K p s = (Inr out, t)"
  shows "\<not> c_stopped (cv t p)"
proof -
  obtain l u where a: "lock_attach K p s = (Inr l, u)" and d: "(case lock_detach K l u of (r, lock, v) \<Rightarrow>
      (bind_res r (\<lambda>_. Inr [''Process '' @ show_pid p @ '' resumed.'']), lock_drop K lock v)) = (Inr out, t)"
    using assms(2) by (auto simp: cmd_resume_def split: if_splits)
  have l: "l = \<lparr>lock_pid = p, lock_detached = False\<rparr>" using lock_attach_pid [OF a] .
  obtain x v where x: "k_detach K p u = (x, v)" by fastforce
  from d x obtain y where "x = Inr y" and t: "t = v"
    by (cases x) (auto simp: lock_detach_def lock_drop_def l)
  with x tracer.detach_law [OF assms(1), of p u v] show ?thesis by simp
qed

lemma capturer_resumes:
  assumes "tracer K cv sysc" "capturer_main K ck f64_secs host encode decode text (Resume p) s = ((0, shown), t)"
  shows "\<not> c_stopped (cv t p)"
  using assms(2) resume_releases [OF assms(1), of p s _ t]
  by (auto simp: capturer_main_def capturer_command_def split: prod.splits sum.splits)

section \<open>The orchestrator\<close>

text \<open>A condition on the system that a successful run of \<open>resume\<close> establishes and that nothing after
  it destroys.\<close>

definition regains :: "'y pysys \<Rightarrow> 'f migration_config \<Rightarrow> int \<Rightarrow> ('y \<Rightarrow> bool) \<Rightarrow> bool" where
  "regains Y cfg pid good \<longleftrightarrow>
     (\<forall>n y out err z. y_run Y (resume_cmd (cfg_destination cfg) pid) n y = (Inr (0, out, err), z) \<longrightarrow> good z) \<and>
     (\<forall>y. good y \<longrightarrow> (\<forall>old new. good (y_log_state Y old new y)) \<and> (\<forall>path. good (snd (y_unlink Y path y))) \<and>
        good (y_ssh_close Y y))"

definition given_back :: "('y \<Rightarrow> bool) \<Rightarrow> exn \<Rightarrow> 'y tele \<Rightarrow> bool" where
  "given_back good e t \<longleftrightarrow>
     (\<forall>w. e = Wraith w \<longrightarrow> \<not> is_preflight w \<longrightarrow> t_state t = ROLLED_BACK \<longrightarrow> good (t_sys t))"

lemma rollback_gives_back:
  fixes Y :: "'y pysys"
  assumes "regains Y cfg pid good"
  shows "triple (\<lambda>_. True) (rollback Y cfg pid w) (\<lambda>_ t. good (t_sys t)) (given_back good)"
proof -
  have log: "good y \<Longrightarrow> good (y_log_state Y old new y)" for old new y using assms unfolding regains_def by blast
  have run: "triple (\<lambda>_. True) (sys_act (y_run Y (resume_cmd (cfg_destination cfg) pid) 10))
      (\<lambda>(code, out, err) t. code = 0 \<longrightarrow> good (t_sys t)) (\<lambda>e t. \<exists>b. e = Builtin b)"
    using assms by (intro tripleI) (auto simp: sys_act_def regains_def split: prod.split sum.split)
  have failed: "triple P (bind_act (transition Y FAILED) (\<lambda>_. fail_act (Wraith (RollbackError w cause)))) Q
      (\<lambda>e t. (\<exists>b. e = Builtin b) \<or> t_state t = FAILED)" for cause P and Q :: "unit \<Rightarrow> 'y tele \<Rightarrow> bool"
    by (rule triple_bind [where R = "\<lambda>_ t. t_state t = FAILED"])
      (auto intro!: triple_effect triple_fail simp: transition_to_def)
  have escalated: "triple P (bind_act (transition Y FAILED) (\<lambda>_. fail_act (Wraith (RollbackError w cause)))) Q
      (given_back good)" for cause P and Q :: "unit \<Rightarrow> 'y tele \<Rightarrow> bool"
    by (rule triple_bind [where R = "\<lambda>_ t. t_state t = FAILED"])
      (auto intro!: triple_effect triple_fail simp: transition_to_def given_back_def)
  have inner: "triple (\<lambda>_. True) (bind_act (sys_act (y_run Y (resume_cmd (cfg_destination cfg) pid) 10)) (\<lambda>(code, out, err).
      if code = 0 then transition Y ROLLED_BACK
      else bind_act (transition Y FAILED) (\<lambda>_. fail_act (Wraith (RollbackError w (ResumeStderr (py_strip err)))))))
      (\<lambda>_ t. good (t_sys t)) (\<lambda>e t. (\<exists>b. e = Builtin b) \<or> t_state t = FAILED)"
  proof (rule triple_bind)
    show "triple (\<lambda>_. True) (sys_act (y_run Y (resume_cmd (cfg_destination cfg) pid) 10))
        (\<lambda>x t. fst x = 0 \<longrightarrow> good (t_sys t)) (\<lambda>e t. (\<exists>b. e = Builtin b) \<or> t_state t = FAILED)"
      by (rule triple_weaken [OF run]) auto
    show "triple (\<lambda>t. fst x = 0 \<longrightarrow> good (t_sys t)) (case x of (code, out, err) \<Rightarrow>
        if code = 0 then transition Y ROLLED_BACK
        else bind_act (transition Y FAILED) (\<lambda>_. fail_act (Wraith (RollbackError w (ResumeStderr (py_strip err))))))
        (\<lambda>_ t. good (t_sys t)) (\<lambda>e t. (\<exists>b. e = Builtin b) \<or> t_state t = FAILED)" for x
    proof (cases "fst x = 0")
      case True
      then show ?thesis by (cases x) (auto intro!: triple_effect simp: transition_to_def log)
    next
      case False
      then show ?thesis using failed by (cases x) simp
    qed
  qed
  have outer: "triple (\<lambda>t. (\<exists>b. e = Builtin b) \<or> t_state t = FAILED) (case e of
      Builtin b \<Rightarrow>
        if b = TimeoutExpired then bind_act (transition Y FAILED) (\<lambda>_. fail_act (Wraith (RollbackError w ResumeTimedOut)))
        else if b = Interrupt then fail_act e
        else bind_act (transition Y FAILED) (\<lambda>_. fail_act (Wraith (RollbackError w (ResumeRaised b))))
    | Wraith x \<Rightarrow> fail_act e) (\<lambda>(_ :: unit) t. good (t_sys t)) (given_back good)" for e
  proof (cases e)
    case (Builtin b)
    show ?thesis
      unfolding Builtin exn.case by (intro triple_if escalated triple_fail) (simp add: given_back_def)
  next
    case (Wraith x)
    show ?thesis unfolding Wraith exn.case by (rule triple_fail) (auto simp: given_back_def)
  qed
  show ?thesis
    unfolding rollback_def Let_def
    by (rule triple_bind [OF triple_effect triple_catch [OF inner outer]]) simp
qed

lemma handler_gives_back:
  assumes "regains Y cfg pid good"
  shows "triple (\<lambda>_. True) (migrate_handler Y cfg pid e) (\<lambda>_ _. True) (given_back good)"
proof (cases e)
  case (Wraith w)
  show ?thesis
    unfolding migrate_handler_def Wraith exn.case
  proof (rule triple_if)
    assume "is_preflight w"
    then show "triple (\<lambda>_. True) (bind_act (transition Y ROLLED_BACK) (\<lambda>_. fail_act (Wraith w))) (\<lambda>_ _. True) (given_back good)"
      by (intro triple_bind [OF triple_effect] triple_fail) (simp_all add: given_back_def)
  next
    show "triple (\<lambda>_. True) (bind_act (rollback Y cfg pid w) (\<lambda>_. fail_act (Wraith w))) (\<lambda>_ _. True) (given_back good)"
      by (rule triple_bind [OF rollback_gives_back [OF assms]]) (auto intro!: triple_fail simp: given_back_def)
  qed
qed (auto intro!: triple_fail simp: migrate_handler_def given_back_def)

lemma cleanup_gives_back:
  assumes "regains Y cfg pid good"
  shows "triple (given_back good e) (cleanup_snapshot Y) (\<lambda>_. given_back good e) (given_back good)"
proof (rule tripleI)
  fix t assume t: "given_back good e t"
  have good: "given_back good e (t\<lparr>t_sys := z\<rparr>)" if "y_unlink Y path (t_sys t) = (r, z)" for path r z
  proof -
    have "good (t_sys t) \<Longrightarrow> good z" using assms that unfolding regains_def by (metis snd_conv)
    with t show ?thesis by (simp add: given_back_def)
  qed
  have builtin: "given_back good (Builtin b) u" for b u by (simp add: given_back_def)
  show "case cleanup_snapshot Y t of (Inr x, u) \<Rightarrow> given_back good e u | (Inl d, u) \<Rightarrow> given_back good d u"
    using t good builtin
    by (auto simp: cleanup_snapshot_def sys_act_def catch_act_def act_simps split: option.split prod.split sum.split exn.split)
qed

lemma migrate_gives_back:
  assumes "regains Y cfg pid good" "migrate Y F cfg mid pid vo (new_tele y) = (Inl e, t)"
  shows "given_back good e t"
proof -
  have connect: "triple (\<lambda>t. t = new_tele y) (session_connect Y (cfg_destination cfg)) (\<lambda>_ _. True) (given_back good)"
    by (rule tripleI) (auto simp: session_connect_def new_tele_def given_back_def split: prod.split sum.split)
  have any: "triple (\<lambda>_. True) (migrate_phases Y F cfg mid pid vo) (\<lambda>_ _. True) (\<lambda>_ _. True)"
    by (rule tripleI) (simp split: prod.split sum.split)
  have removed: "triple (\<lambda>_. True) (cleanup_snapshot Y) (\<lambda>_ _. True) (given_back good)"
    by (rule triple_weaken [OF cleanup_gives_back [OF assms(1), of "Builtin Interrupt"]]) (simp_all add: given_back_def)
  have close: "triple (given_back good e) (effect_act (session_close Y)) (\<lambda>_. given_back good e) (given_back good)" for e
    using assms(1) by (intro triple_effect) (auto simp: given_back_def session_close_def regains_def)
  have "triple (\<lambda>t. t = new_tele y) (migrate Y F cfg mid pid vo) (\<lambda>_ _. True) (given_back good)"
    unfolding migrate_def
    by (rule triple_bind [OF connect triple_finally [where Q' = "\<lambda>_ _. True" and E' = "given_back good",
          OF triple_finally [where Q' = "\<lambda>_ _. True" and E' = "given_back good", OF triple_catch [OF any handler_gives_back [OF assms(1)]] removed cleanup_gives_back [OF assms(1)]]
          _ close]])
      (rule triple_effect, simp)
  from tripleD [OF this refl assms(2)] show ?thesis by simp
qed

section \<open>Together\<close>

text \<open>The system of the orchestrator holds the machine of the source, \<open>src\<close>, and a run of
  \<open>wraith-capturer resume\<close> that ends does to it what the model of the program says, with its exit
  status. Writing the log, removing the snapshot and closing the connection do not freeze a process.\<close>

definition hosts_resume ::
    "'y pysys \<Rightarrow> destination \<Rightarrow> int \<Rightarrow> ('y \<Rightarrow> 'k) \<Rightarrow> (command \<Rightarrow> 'k \<Rightarrow> (nat \<times> out_line list) \<times> 'k) \<Rightarrow> bool" where
  "hosts_resume Y d pid src program \<longleftrightarrow> (\<forall>n y code out err z.
     y_run Y (resume_cmd d pid) n y = (Inr (code, out, err), z) \<longrightarrow>
     (\<exists>status shown. program (Resume (of_int pid)) (src y) = ((status, shown), src z) \<and> code = int status))"

definition quiet_ending :: "'y pysys \<Rightarrow> ('y \<Rightarrow> bool) \<Rightarrow> bool" where
  "quiet_ending Y frozen \<longleftrightarrow> (\<forall>y. \<not> frozen y \<longrightarrow> (\<forall>old new. \<not> frozen (y_log_state Y old new y)) \<and>
     (\<forall>path. \<not> frozen (snd (y_unlink Y path y))) \<and> \<not> frozen (y_ssh_close Y y))"

lemma capturer_regains:
  fixes src :: "'y \<Rightarrow> 'k" and pid :: int
  assumes "tracer K cv sysc"
    and "hosts_resume Y (cfg_destination cfg) pid src (capturer_main K ck f64_secs host encode decode text)"
    and "quiet_ending Y (\<lambda>y. c_stopped (cv (src y) (of_int pid)))"
  shows "regains Y cfg pid (\<lambda>y. \<not> c_stopped (cv (src y) (of_int pid)))"
proof -
  have "\<not> c_stopped (cv (src z) (of_int pid))"
    if "y_run Y (resume_cmd (cfg_destination cfg) pid) n y = (Inr (0, out, err), z)" for n y out err z
  proof -
    from assms(2) that obtain shown where
      "capturer_main K ck f64_secs host encode decode text (Resume (of_int pid)) (src y) = ((0, shown), src z)"
      unfolding hosts_resume_def by fastforce
    then show ?thesis by (rule capturer_resumes [OF assms(1)])
  qed
  with assms(3) show ?thesis unfolding regains_def quiet_ending_def by blast
qed

text \<open>C11: A rollback gives the source back as a running process. When \<open>migrate\<close> fails with an error of
  its own, other than a refusal by its checks, and ends in the state \<open>ROLLED_BACK\<close>, then the source
  process is not stopped, whatever the capturer, a timeout or anything else had left of it before: the
  last thing that was done to it is a \<open>resume\<close> that succeeded, and that has detached it.\<close>

theorem rolled_back_source_runs:
  fixes src :: "'y \<Rightarrow> 'k" and pid :: int
  assumes "tracer K cv sysc"
    and "hosts_resume Y (cfg_destination cfg) pid src (capturer_main K ck f64_secs host encode decode text)"
    and "quiet_ending Y (\<lambda>y. c_stopped (cv (src y) (of_int pid)))"
    and "migrate Y F cfg mid pid vo (new_tele y) = (Inl (Wraith w), t)"
    and "\<not> is_preflight w" "t_state t = ROLLED_BACK"
  shows "\<not> c_stopped (cv (src (t_sys t)) (of_int pid))"
  using migrate_gives_back [OF capturer_regains [OF assms(1-3)] assms(4)] assms(5,6) by (simp add: given_back_def)

text \<open>The witness: a desk whose events say how often \<open>resume\<close> was run on the source, the reference
  machine, which a capturer has left frozen.\<close>

abbreviation sample_program :: "command \<Rightarrow> machine \<Rightarrow> (nat \<times> out_line list) \<times> machine" where
  "sample_program \<equiv> capturer_main machine_kernel sum_ck no_secs ''x86_64'' (\<lambda>_. [1]) (\<lambda>_. None) (\<lambda>_. ''?'')"

definition resumes :: "event list \<Rightarrow> nat" where
  "resumes es = length (filter (\<lambda>ev. case ev of Ran cmd r \<Rightarrow> cmd = desk_resume | _ \<Rightarrow> False) es)"

definition desk_source :: "string list \<times> event list \<Rightarrow> machine" where
  "desk_source y = ((\<lambda>m. snd (sample_program (Resume 7) m)) ^^ resumes (snd y)) frozen_machine"

lemma sample_resume:
  "\<exists>shown. sample_program (Resume 7) (source_machine\<lparr>mc_child := c, mc_status := st\<rparr>) =
     ((0, shown), source_machine\<lparr>mc_child := c\<lparr>c_stopped := False\<rparr>, mc_status := Stopped SIGSTOP\<rparr>)"
proof -
  let ?m = "source_machine\<lparr>mc_child := c, mc_status := st\<rparr>"
  let ?f = "source_machine\<lparr>mc_child := c\<lparr>c_stopped := True\<rparr>, mc_status := Stopped SIGSTOP\<rparr>"
  have pid: "pid_exists machine_kernel 7 ?m"
    by (simp add: pid_exists_def proc_dir_def machine_kernel_def mk_exists_def source_machine_def sample_machine_def
        show_pid_def desk_numbers)
  then have "lock_attach machine_kernel 7 ?m = (Inr \<lparr>lock_pid = 7, lock_detached = False\<rparr>, ?f)"
    by (simp add: lock_attach_def act_simps machine_kernel_def mk_attach_def mk_waitpid_def source_machine_def sample_machine_def)
  moreover have "k_detach machine_kernel 7 ?f = (Inr (), ?f\<lparr>mc_child := c\<lparr>c_stopped := False\<rparr>\<rparr>)"
    by (simp add: machine_kernel_def mk_detach_def on_stopped_def source_machine_def sample_machine_def)
  ultimately show ?thesis
    using pid by (simp add: capturer_main_def capturer_command_def cmd_resume_def act_simps lock_detach_def lock_drop_def)
qed

lemma desk_source_form:
  "\<exists>c st. ((\<lambda>m. snd (sample_program (Resume 7) m)) ^^ n) frozen_machine = source_machine\<lparr>mc_child := c, mc_status := st\<rparr>"
proof (induction n)
  case 0
  show ?case by (intro exI) simp
next
  case (Suc n)
  then obtain c st where
    "((\<lambda>m. snd (sample_program (Resume 7) m)) ^^ n) frozen_machine = source_machine\<lparr>mc_child := c, mc_status := st\<rparr>" by blast
  with sample_resume [where c = c and st = st]
  have "((\<lambda>m. snd (sample_program (Resume 7) m)) ^^ Suc n) frozen_machine =
      source_machine\<lparr>mc_child := c\<lparr>c_stopped := False\<rparr>, mc_status := Stopped SIGSTOP\<rparr>" by auto
  then show ?case by blast
qed

lemma desk_hosts_resume:
  "hosts_resume (recorded (desk all_well out code)) (cfg_destination plain_config) 7 desk_source sample_program"
proof -
  have "\<exists>status shown. sample_program (Resume 7) (desk_source y) = ((status, shown), desk_source z) \<and> c = int status"
    if run: "y_run (recorded (desk all_well out code)) desk_resume n y = (Inr (c, out', err), z)" for n y c out' err z
  proof -
    obtain ys es where y: "y = (ys, es)" by fastforce
    with run have z: "z = (ys, es @ [Ran desk_resume (Inr (0, [], []))])" "c = 0"
      by (simp_all add: desk_calls all_well_def)
    obtain d st where "desk_source y = source_machine\<lparr>mc_child := d, mc_status := st\<rparr>"
      using desk_source_form unfolding desk_source_def by blast
    with sample_resume [where c = d and st = st] obtain shown t where
      p: "sample_program (Resume 7) (desk_source y) = ((0, shown), t)" by fastforce
    then have "desk_source z = t" by (simp add: desk_source_def y z resumes_def)
    with p z(2) show ?thesis by auto
  qed
  then show ?thesis by (simp add: hosts_resume_def desk_commands)
qed

lemma rolled_back_source_runs_witness:
  "\<not> c_stopped (child_of (desk_source (t_sys (snd (desk_run all_well 1)))) 7) \<and> c_stopped (child_of (desk_source ([], [])) 7)"
proof -
  let ?Y = "recorded (desk all_well ''Process 42 is now running'' 1)"
  have quiet: "quiet_ending ?Y (\<lambda>y. c_stopped (child_of (desk_source y) (of_int 7)))"
    by (auto simp: quiet_ending_def desk_calls desk_source_def resumes_def)
  have "\<not> is_preflight (RestorerExited 1 [])" by simp
  from rolled_back_source_runs [OF machine_tracer desk_hosts_resume quiet desk_restorer_fails [unfolded desk_run_def] this]
  have "\<not> c_stopped (child_of (desk_source (t_sys (snd (desk_run all_well 1)))) (of_int 7))"
    by (simp add: desk_restorer_fails desk_tele_def)
  then show ?thesis
    by (simp add: desk_source_def resumes_def child_of_def source_machine_def sample_machine_def)
qed

end
