(* ===== verification/Spec2Isabelle.thy ===== *)
theory Spec2Isabelle
  imports Programs Handover UnitTests Reception WraithCli Custody
begin

text \<open>
  A verification library for Wraith, which moves a running Linux x86-64 process to another machine:
  it freezes the process, writes its state to a snapshot, sends the snapshot over the network, and
  rebuilds the process from it there.

  PARTS. The core is in Rust, in two halves. The capture half (\<open>wraith-rust/src/capturer.rs\<close> with
  \<open>ptrace_ops.rs\<close>, \<open>registers.rs\<close>, \<open>memory.rs\<close>, \<open>fd_enum.rs\<close>, \<open>snapshot.rs\<close> and
  \<open>utils.rs\<close>) attaches to a process, reads its registers, its memory map and memory, and its
  descriptors, detaches, and builds the protobuf message. The restore half (\<open>restorer.rs\<close> with
  \<open>aslr.rs\<close> and \<open>fd_restore.rs\<close>) validates the snapshot's address-space layout, forks a stub
  child, makes it execute system calls by patching its code, fills its memory through /proc,
  sets its registers, reopens descriptors and lets it go. \<open>main.rs\<close> and \<open>bin/restorer.rs\<close> are
  the two programs around the halves; \<open>proto/wraith.proto\<close> is the message between them. The
  transport is in Go (\<open>wraith-go\<close>): \<open>pkg/delta\<close> finds changed pages, \<open>pkg/transport\<close> is the
  protocol with its client and server, and \<open>cmd/transmitter\<close> and \<open>cmd/receiver\<close> are the programs
  around them. The orchestrator is in Python (\<open>wraith-control/wraith\<close>): \<open>cli.py\<close> builds a
  \<open>Teleporter\<close> (\<open>teleporter.py\<close>), which checks both machines (\<open>checks.py\<close>), runs the four programs,
  those of the destination over a \<open>RemoteSession\<close> (\<open>remote.py\<close>), kills the source when the
  destination has confirmed, and otherwise rolls back.

  THEORIES, in the order they build on each other.
  For the Rust core: Prelude (machine integers, results, actions), RustStr (the operations of \<open>str\<close>,
  parsing and printing of numbers), Proto (the messages), Kernel (the operating system as a record
  of calls, the errors), Interfaces (pages, regions, the layout interface), Aslr (\<open>aslr.rs\<close>),
  Tracee (a traced process and the laws of the kernel), Injector (\<open>SyscallInjector\<close>,
  \<open>child_stub\<close>, \<open>write_to_child_mem\<close>), FdRestore (\<open>fd_restore.rs\<close>), Restorer
  (\<open>ProcessRestorer\<close>), Descriptors (what becomes of restored descriptors), Machine (an
  executable reference kernel), Utils, Memory, FdEnum, Registers, PtraceOps, Snapshot, ProcFiles, Capturer
  and Cli (the files of these names; Cli is \<open>main.rs\<close> and \<open>bin/restorer.rs\<close>). Lifecycle is
  the step relation of a traced process under the operations of its guard, Handover what a
  captured snapshot guarantees to the restorer, UnitTests the unit tests of the repository, each an
  executable proposition about the model. Restoration, RestorePaths, Capturing, Freezing and
  Programs hold the properties that need the reference kernel for their witnesses.
  For the Go transport: GoJson and JsonRoundtrip (\<open>encoding/json\<close> on the messages of the protocol),
  GoBytes (slices and \<open>encoding/binary\<close>), Delta (\<open>delta.go\<close>), Wire (\<open>protocol.go\<close> and the
  connection), Transmitter (\<open>client.go\<close> and its program), Receiver (\<open>server.go\<close> and its program),
  Transport (an exchange of the two), Delivery (what the exchange delivers) and Reception (what the
  receiver accepts from anybody); GoFlags is the package \<open>flag\<close> with the flags of both programs.
  For the orchestrator: PyText (\<open>str\<close> and \<open>int\<close>), PyEnv (\<open>exceptions.py\<close>, \<open>config.py\<close>,
  \<open>remote.py\<close>, and the calls of the system), Checks, Teleporter and WraithCli (the files of these
  names), Protocol (the step relation of a migration, with its invariants), Orchestration (the
  phases satisfy it, as triples over the actions), Migrations (what a migration guarantees, and a
  system to run one on), Readers (where Python reads what Rust writes, and where both read the same
  file), CommandLines (the command line of the transmitter, read by its own flags), Completion (when
  a migration succeeds) and Custody (the source process after a rollback, with the capturer as it is
  in Rust). The properties that span capture, transfer and restoration are below.

  CORRESPONDENCE. A struct or class is a record, an enum a datatype, \<open>u64\<close> and its relatives are words
  (subtraction, sums and products wrap, as in a release build), a Python \<open>int\<close> is an integer.
  \<open>Result\<close> is a sum with the error on the left, and so are Go's error results, with its panics as
  one more error, and Python's exceptions; the text of a message is a constructor that carries the
  values the message interpolates, so every error branch of the code is a branch of the model. A
  function that calls the operating system is an action, a function of the state of the system that
  returns its result and the new state; \<open>try_act\<close> and \<open>bind_act\<close> are the question mark with and
  without \<open>map_err\<close>, \<open>catch_act\<close> and \<open>finally_act\<close> are \<open>except\<close> and \<open>finally\<close>. The operating system
  itself is a parameter: the record \<open>kernel\<close> has a field per call of the Rust and Go programs
  (\<open>ptrace\<close> requests, \<open>waitpid\<close>, \<open>kill\<close>, \<open>fork\<close>, \<open>open\<close>, /proc files), the record \<open>pysys\<close> one per
  call of the orchestrator (\<open>subprocess\<close>, \<open>os\<close>, \<open>paramiko\<close>); \<open>recorded\<close> makes a \<open>pysys\<close> note its
  calls. The end of scope of the \<open>ProcessLock\<close> is the call \<open>lock_drop\<close>. A connection is a record of
  the bytes to be read, the bytes written and the faults to come; an exchange lets both ends run in
  turn until they rest, and two rounds suffice because the transmitter waits only once. A loop is
  recursion over what it walks; the loop that retries a block runs on a counter of 64 bits that wraps,
  as Go's \<open>int\<close> does, and has a termination proof of its own. Fuel appears in three places, and never runs out: the reader of JSON has
  twice the length of its text and one, a proven bound; the parts of a duration are at most as many
  as its characters; the exchange has at least two rounds. Parameters as well are the checksum of
  the crate \<open>crc\<close> (\<open>ck\<close>), the codec of the crate \<open>prost\<close> (\<open>encode\<close>, \<open>decode\<close>), xxHash-64, the
  floating-point arithmetic of all three languages, and the host architecture. Texts in Python are
  sequences of code points below 256.

  LAWS. Properties of effects assume the laws of the kernel, as locales over an arbitrary
  \<open>kernel\<close> with a view \<open>cv\<close> of each traced process: \<open>tracer\<close> says what a call that succeeded has
  done (from the manual pages of ptrace, proc, mmap, mprotect and dup2), \<open>live_tracer\<close> when a
  ptrace call succeeds, \<open>serving_tracer\<close> that the other legitimate requests succeed as well,
  \<open>guarding_tracer\<close> what the wait for an attached process can report, its stop or its end, and that
  refused requests change nothing, \<open>fd_kernel\<close> what happens to descriptor tables. Stopped means
  stopped for its tracer; stops of job control are not in view. The kernel \<open>machine_kernel\<close> of Machine satisfies all of them, and the witnesses run
  the programs on it. Properties of control flow hold for every kernel and every \<open>pysys\<close>; the
  orchestrator's witnesses run on the system \<open>desk\<close> of Migrations.

  WHAT IS SHOWN. Aslr: validation is exact, its errors are genuine, the safe base is safe, the
  conflict test and the byte total are exact. Injector and Tracee: an injected call has the
  effect of the system call and nothing else, and a live child completes it; the patch leaves
  the upper bytes alone. Restorer: a restoration that can succeed does; afterwards the memory
  of every region, the registers and the floating-point state are those of the snapshot, other
  memory is that of the restorer, every descriptor is accounted for, and a failed child is
  killed and reaped, except when the stub itself did not stop as expected. Descriptors: the
  restored descriptors never reach the process, and the restorer leaks none of
  its own. Memory and FdEnum: the tables of the kernel are read back exactly. ProcFiles: so are
  the owner and the sizes in the \<open>status\<close> file, and it is known which field of the \<open>stat\<close> file
  the age of a process comes from. Capturer: a snapshot is true of the frozen process, no
  readable mapping is lost, and the message is well-formed. Lifecycle: in every interleaving of the guard's
  operations with the process, with its being killed and with others that share its memory, the
  process is frozen exactly while it is there and its guard has not been released, and what it does
  not share does not change meanwhile; that it is there the guard does not know, because the status
  of the wait is ignored. \<open>capture\<close> and \<open>resume\<close> are such runs, so the process is released on every
  path but one, a failed wait. Programs: the printed report and the
  exit status. Handover: a captured snapshot passes the restorer's checks and is restored by every
  destination that is ready for it. Delta: the pages reported bring the old snapshot up to date.
  Wire and JsonRoundtrip: frames, blocks and handshakes are read back from the wire. Delivery and
  Reception: a transfer over a working connection delivers the snapshot; what the receiver accepts
  from anybody is made of verified blocks inside the announced size; a retry after half a write, a
  negative number of retries and an early end are not noticed by the sender, which reads nothing
  after the answer to its handshake; the attempts at a block are bounded, but with the largest \<open>int\<close>
  as number of retries they end only in a panic. Orchestration and
  Migrations: whatever the system answers, a migration follows its protocol, so the source is killed
  only after the destination has confirmed, and an error of the orchestrator's own after the capture
  has begun always runs \<open>resume\<close>; exceptions of Python do not. Completion: on a system that cooperates
  it completes. Custody: with the capturer as the program that is run by \<open>resume\<close>, a migration that
  ends rolled back leaves a source that is not stopped. Readers: the orchestrator reads the
  identifier that the restorer prints, and the sizes that the capturer reads. CommandLines and
  WraithCli: the exit status of \<open>wraith migrate\<close> tells how the rollback went, and is never 0 with
  the transmitter of the repository, which refuses the timeout it is given. Below: a
  process that is captured, sent over the network and restored has the registers and the memory of
  the frozen one.

  NOT MODELLED: logging; the command-line parsers clap and click, and what \<open>wraith\<close> prints; the texts of
  errors, which are constructors, and the \<open>Debug\<close> form of strings; the generated protobuf code; the
  transport messages of the schema, which no program uses; the C library inside the forked
  child; signals sent by third parties while a process is traced, other than to kill it; threads
  (version 1 captures one thread; other threads appear in Lifecycle as whoever shares the memory of a
  process); deadlines and waits, except that of the orchestrator for the receiver and for the signal;
  the transfer of files over SFTP (\<open>upload\<close>, \<open>download\<close>, \<open>file_exists\<close>, \<open>read_remote_text\<close> of
  \<open>remote.py\<close>), which nothing calls; the elapsed time of a migration; crate glue, packaging and
  examples.
\<close>

section \<open>From capture to restoration\<close>

text \<open>A migrated process is the process that was captured. Take a snapshot of a process on one
  machine and restore its registers and regions on another: the new process has the registers
  of the frozen one (with \<open>orig_rax\<close> cleared) and its floating-point state, and at every
  captured address the byte the frozen process had there.\<close>

theorem migration_preserves_process:
  assumes "tracer K cv sysc" "capture K ck f64_secs host p s = (Inr snap, s')"
    and "lock_attach K p s = (Inr l, u)"
    and "fd_kernel K2 cv2 sysc2 pfds" "restore K2 ck2 host2 snap2 d = (Inr res, d')"
    and "fork_stub K2 d = (Inr q, v)" "restorable (cv2 v q) snap2 regs"
    and "snap_registers snap2 = snap_registers snap" "memory_regions snap2 = memory_regions snap"
  shows "continues (memory_regions snap) (cv u p) (cv2 d' (res_pid res))"
  using assms by (rule migrated_continues)

definition migrated_snapshot :: "fd_spec process_snapshot" where
  "migrated_snapshot = sample_snapshot (Some (regs_to_proto sample_registers_captured))
     [region_to_proto sample_captured_region] []"

lemma migrated_result:
  "fst (restore machine_kernel sum_ck ''x86_64'' migrated_snapshot sample_machine) =
     Inr \<lparr>res_pid = 42, regions_ok = 1,
       fd_report = \<lparr>rr_restored = [], rr_skipped = [], rr_failed = []\<rparr>\<rparr>"
  by code_simp

lemma captured_region_fields:
  "start_addr (region_to_proto sample_captured_region) = 0x10000"
  "size_bytes (region_to_proto sample_captured_region) = 4"
  "data (region_to_proto sample_captured_region) = [0, 0, 0, 0]"
  by (simp_all add: region_to_proto_def sample_captured_region_def region_of_entry_def
      source_entry_def region_size_def)

lemma migrated_restorable:
  "restorable (child_of forked_machine 42) migrated_snapshot (regs_to_proto sample_registers_captured)"
proof -
  let ?r = "region_to_proto sample_captured_region"
  have rip: "pr_rip (regs_to_proto sample_registers_captured) = 0x10000"
    by (simp add: regs_to_proto_def sample_registers_captured_def registers_of_def source_child_def
        gp_of_proto_def sample_registers_def)
  have m: "mapped (load_regions code_page [?r]) 0x10000 8"
    "executable (load_regions code_page [?r]) 0x10000 3" by code_simp+
  have "in_pages 0x10000 4 x \<Longrightarrow> in_pages 0x10000 0x1000 x" for x
    by (simp add: in_pages_def page_up_def)
  then have "code_clear (child_of forked_machine 42) 0x10000 4"
    using code_clear_sample unfolding code_clear_def by blast
  with m rip show ?thesis
    by (simp add: restorable_def migrated_snapshot_def sample_snapshot_def captured_region_fields
        forked_child)
qed

lemma migration_preserves_process_witness:
  "c_regs (child_of (snd (restore machine_kernel sum_ck ''x86_64'' migrated_snapshot sample_machine)) 42) =
     (c_regs source_child)\<lparr>ur_orig_rax := - 1\<rparr>"
proof -
  obtain snap t where run: "sample_capture = (Inr snap, t)"
    and rs: "memory_regions snap = [region_to_proto sample_captured_region]"
    using sample_run by blast
  have regs: "snap_registers snap = Some (regs_to_proto sample_registers_captured)"
    using tracer.capture_effect [OF machine_tracer run sample_attach]
    by (simp add: child_of_def source_machine_def sample_machine_def sample_registers_captured_def
        source_child_def)
  have "snap_registers migrated_snapshot = snap_registers snap"
    "memory_regions migrated_snapshot = memory_regions snap"
    by (simp_all add: migrated_snapshot_def sample_snapshot_def rs regs)
  note m = migration_preserves_process [OF machine_tracer run sample_attach machine_fds
      run_step [OF migrated_result] forked_run migrated_restorable this]
  have "c_regs (child_of frozen_machine 7) = c_regs source_child"
    by (simp add: child_of_def source_machine_def sample_machine_def)
  with m show ?thesis by (simp add: continues_def)
qed

section \<open>The handover\<close>

text \<open>What the capture writes, the restorer accepts. From a process whose memory map is one the
  kernel prints, every captured snapshot with at least one region passes all the checks the
  restorer makes before it forks.\<close>

theorem captured_snapshot_accepted:
  assumes "capture K ck f64_secs host p s = (Inr snap, t)"
    and "k_read_to_string K (proc_file p ''maps'') s = Inr (show_maps ms)" "kernel_table ms"
    and "snap_arch snap2 = snap_arch snap" "snap_registers snap2 = snap_registers snap"
    and "memory_regions snap2 = memory_regions snap" "memory_regions snap \<noteq> []"
  shows "restorer_validate host snap2 = Inr ()"
  using assms by (rule captured_validates)

lemma sample_table: "k_read_to_string machine_kernel (proc_file 7 ''maps'') source_machine =
    Inr (show_maps [source_entry])" "kernel_table [source_entry]"
proof -
  show "k_read_to_string machine_kernel (proc_file 7 ''maps'') source_machine =
      Inr (show_maps [source_entry])"
    by (simp add: proc_7 machine_kernel_def mk_read_to_string_def source_machine_def)
  have "page_aligned 0x10000" by code_simp
  then show "kernel_table [source_entry]"
    using source_entry_ok by (simp add: kernel_table_def user_entry_def) (simp add: source_entry_def)
qed

lemma sample_handover: "\<exists>snap t. sample_capture = (Inr snap, t) \<and>
    snap_arch migrated_snapshot = snap_arch snap \<and>
    snap_registers migrated_snapshot = snap_registers snap \<and>
    memory_regions migrated_snapshot = memory_regions snap \<and>
    memory_regions snap = [region_to_proto sample_captured_region]"
proof -
  obtain snap t where run: "sample_capture = (Inr snap, t)"
    and rs: "memory_regions snap = [region_to_proto sample_captured_region]"
    using sample_run by blast
  have regs: "snap_registers snap = Some (regs_to_proto sample_registers_captured)"
    using tracer.capture_effect [OF machine_tracer run sample_attach]
    by (simp add: child_of_def source_machine_def sample_machine_def sample_registers_captured_def
        source_child_def)
  from run obtain x v where "assemble machine_kernel no_secs ''x86_64'' 7 x v = Inr snap"
    by (rule capture_phases)
  then have "snap_arch snap = ''x86_64''" by (cases x) (auto dest: assemble_snapshot)
  with run regs rs show ?thesis by (simp add: migrated_snapshot_def sample_snapshot_def)
qed

lemma captured_snapshot_accepted_witness: "restorer_validate ''x86_64'' migrated_snapshot = Inr ()"
  using sample_handover captured_snapshot_accepted [OF _ sample_table] by (metis list.distinct(1))

text \<open>C2: Migration is total: what was captured from a process with such a memory map is restored,
  on every destination that serves legitimate requests, whose stub is clear of the regions, and
  which grants the mappings. No error is left that the two programs could report.\<close>

theorem migration_completes:
  assumes "tracer K cv sysc" "capture K ck f64_secs host p s = (Inr snap, t)"
    and "lock_attach K p s = (Inr l, u)"
    and "k_read_to_string K (proc_file p ''maps'') s = Inr (show_maps ms)" "kernel_table ms"
    and "snap_arch snap2 = snap_arch snap" "snap_registers snap2 = snap_registers snap"
    and "memory_regions snap2 = memory_regions snap" "memory_regions snap \<noteq> []"
    and "serving_tracer K2 cv2 sysc2" "fork_stub K2 d = (Inr q, v)"
    and "destination_ready sysc2 (cv2 v q) (memory_regions snap) (ur_rip (c_regs (cv u p)))"
  shows "\<exists>res d'. restore K2 ck host snap2 d = (Inr res, d')"
  using assms by (rule captured_restores)

lemma sample_ready:
  "destination_ready sys_ref (child_of forked_machine 42) [region_to_proto sample_captured_region] 0x10000"
proof -
  have "mapped code_page 0x400010 8" "executable code_page 0x400010 3" by code_simp+
  then have inj: "injectable (child_of forked_machine 42)"
    by (simp only: injectable_def forked_child)
  have "page_aligned 0x10000" by code_simp
  then have "mmap_granted sys_ref 0x10000 4"
    by (simp add: mmap_granted_def sys_ref_mmap is_errno_def)
  then show ?thesis
    using migrated_restorable inj
    by (simp add: destination_ready_def restorable_def captured_region_fields regs_to_proto_def
        sample_registers_captured_def registers_of_def source_child_def gp_of_proto_def
        sample_registers_def migrated_snapshot_def sample_snapshot_def)
qed

lemma sample_ip: "ur_rip (c_regs (child_of frozen_machine 7)) = 0x10000"
  by (simp add: child_of_def source_machine_def sample_machine_def source_child_def
      gp_of_proto_def sample_registers_def)

lemma migration_completes_witness:
  "\<exists>res d'. restore machine_kernel sum_ck ''x86_64'' migrated_snapshot sample_machine = (Inr res, d')"
proof -
  obtain snap t where run: "sample_capture = (Inr snap, t)"
    and same: "snap_arch migrated_snapshot = snap_arch snap"
      "snap_registers migrated_snapshot = snap_registers snap"
      "memory_regions migrated_snapshot = memory_regions snap"
    and rs: "memory_regions snap = [region_to_proto sample_captured_region]"
    using sample_handover by blast
  with sample_ready show ?thesis
    by (intro migration_completes [OF machine_tracer run sample_attach sample_table same _
        machine_serving forked_run]) (simp, simp only: sample_ip)
qed

text \<open>The two programs together move a process. If \<open>wraith-capturer capture\<close> exits with 0 on the
  source, its file reaches the destination and is understood there, and the destination is
  ready for the regions, then \<open>wraith-restorer\<close> exits with 0, says that the process runs, and
  the process it started runs with the registers and the captured memory of the frozen one.\<close>

theorem programs_migrate:
  assumes "tracer K cv sysc" "lock_attach K p s = (Inr l, u)"
    and "capturer_main K ck f64_secs host encode decode text (Capture p output) s = ((0, printed), t)"
    and "k_read_to_string K (proc_file p ''maps'') s = Inr (show_maps ms)" "kernel_table ms"
    and "\<And>bs w w'. k_write_file K output bs w = (Inr (), w') \<Longrightarrow> k_read_file K output w' = Inr bs"
    and "k_read_file K2 path d = k_read_file K output t"
    and "serving_tracer K2 cv2 sysc2" "fd_kernel K2 cv2 sysc2 pfds" "fork_stub K2 d = (Inr q, v)"
    and "\<And>snap w. capture K ck f64_secs host p s = (Inr snap, w) \<Longrightarrow> memory_regions snap \<noteq> [] \<and>
      understands decode2 (encode snap) snap \<and>
      destination_ready sysc2 (cv2 v q) (memory_regions snap) (ur_rip (c_regs (cv u p)))"
  shows "\<exists>snap w shown d'. capture K ck f64_secs host p s = (Inr snap, w) \<and>
     restorer_main K2 ck host decode2 text dbg path False d = ((0, shown @ running_lines q), d') \<and>
     continues (memory_regions snap) (cv u p) (cv2 d' q) \<and> \<not> c_stopped (cv2 d' q)"
proof -
  obtain snap w where cap: "capture K ck f64_secs host p s = (Inr snap, w)"
    and "k_write_file K output (encode snap) w = (Inr (), t)"
    using assms(3) by (rule capture_command_done)
  then have "k_read_file K2 path d = Inr (encode snap)" using assms(6,7) by simp
  with assms(11) [OF cap] programs_continue [OF assms(1) cap assms(2,4,5) _ _ _ assms(8-10)] cap
  show ?thesis by blast
qed

lemma stored_run:
  "fork_stub machine_kernel stored_machine = (Inr 42, forked_machine\<lparr>mc_bytes := (\<lambda>_. Some [1])\<rparr>)"
  by (simp add: forked_machine_def fork_stub_def act_simps machine_kernel_def mk_fork_def
      mk_waitpid_def child_stub_def is_stopped_def sample_machine_def sample_child_def Let_def
      stored_machine_def)

section \<open>Over the network\<close>

text \<open>C20: The two transfer programs together copy a file. Whatever the file of the source is, as long as it
  is not empty and within the limit, both programs exit with 0, the transmitter reports all pages
  as sent, and the receiver has written exactly the bytes of the file.\<close>

theorem programs_transfer_file:
  assumes "path \<noteq> []" "k_read_file K path s = Inr bs" "transferable bs (flag_options node pid0 ver retries)"
    and "0 \<le> sint retries" "k_write_file K2 output bs d = (Inr (), d')"
  shows "exchange (Suc (Suc n)) (transmitter_end K F xxh node path pid0 ver retries s [None, None, None])
       (receiver_end K2 xxh output d) =
     ((0, transfer_report F (full_stats F bs)),
      ((0, receive_report output bs (decoded (handshake_of bs (flag_options node pid0 ver retries)))), d')) \<and>
    ts_pages_sent (full_stats F bs) = page_count PageSize bs \<and> unat (ts_bytes_sent (full_stats F bs)) = length bs"
  by (intro conjI file_arrives [OF assms] full_stats_counts [OF assms(3), THEN conjunct1]
      full_stats_counts [OF assms(3), THEN conjunct2])

lemma toy_flags: "transferable [1] (flag_options ''src'' 7 ''1.0'' 3)"
proof -
  have "length (handshake_json (handshake_of [1] (flag_options ''src'' 7 ''1.0'' 3))) < 200" by code_simp
  then show ?thesis by (simp add: transferable_def)
qed

lemma programs_transfer_file_witness:
  "snd (snd (exchange 2 (transmitter_end machine_kernel toy_floats toy_hash ''src'' ''/tmp/s.pb'' 7 ''1.0'' 3
       stored_machine [None, None, None]) (receiver_end machine_kernel toy_hash ''/tmp/r.pb'' sample_machine))) =
   sample_machine\<lparr>mc_bytes := (mc_bytes sample_machine)(''/tmp/r.pb'' \<mapsto> [1])\<rparr>"
proof -
  have "k_read_file machine_kernel ''/tmp/s.pb'' stored_machine = Inr [1]"
    by (simp add: machine_kernel_def mk_read_file_def stored_machine_def)
  moreover have "k_write_file machine_kernel ''/tmp/r.pb'' [1] sample_machine =
      (Inr (), sample_machine\<lparr>mc_bytes := (mc_bytes sample_machine)(''/tmp/r.pb'' \<mapsto> [1])\<rparr>)"
    by (simp add: machine_kernel_def mk_write_file_def)
  ultimately show ?thesis
    using programs_transfer_file [OF _ _ toy_flags, of "''/tmp/s.pb''" machine_kernel stored_machine machine_kernel
        "''/tmp/r.pb''" sample_machine _ 0 toy_floats toy_hash]
    by (simp add: numeral_2_eq_2)
qed

text \<open>C1: The four programs together move a process over the network. \<open>wraith-capturer capture\<close> exits with
  0 on the source; \<open>wraith-transmitter\<close> sends its file to \<open>wraith-receiver\<close> on the destination, and
  both exit with 0; \<open>wraith-restorer\<close> reads what the receiver wrote, exits with 0 and says that the
  process runs; and the process it started runs with the registers and the captured memory of the
  frozen one. The file has to be within the limits of the transfer, and the destination ready.\<close>

theorem network_migrates:
  assumes "tracer K cv sysc" "lock_attach K p s = (Inr l, u)"
    and "capturer_main K ck f64_secs host encode decode text (Capture p output) s = ((0, printed), t)"
    and "k_read_to_string K (proc_file p ''maps'') s = Inr (show_maps ms)" "kernel_table ms"
    and "\<And>bs w w'. k_write_file K output bs w = (Inr (), w') \<Longrightarrow> k_read_file K output w' = Inr bs"
    and "\<And>bs w w'. k_write_file K2 path bs w = (Inr (), w') \<Longrightarrow> k_read_file K2 path w' = Inr bs"
    and "output \<noteq> []" "0 \<le> sint retries"
    and "serving_tracer K2 cv2 sysc2" "fd_kernel K2 cv2 sysc2 pfds" "fork_stub K2 d = (Inr q, v)"
    and "\<And>snap w. capture K ck f64_secs host p s = (Inr snap, w) \<Longrightarrow> memory_regions snap \<noteq> [] \<and>
      understands decode2 (encode snap) snap \<and>
      transferable (encode snap) (flag_options node pid0 ver retries) \<and>
      k_write_file K2 path (encode snap) d0 = (Inr (), d) \<and>
      destination_ready sysc2 (cv2 v q) (memory_regions snap) (ur_rip (c_regs (cv u p)))"
  shows "\<exists>snap w sent received shown d'. capture K ck f64_secs host p s = (Inr snap, w) \<and>
     exchange (Suc (Suc n)) (transmitter_end K F xxh node output pid0 ver retries t [None, None, None])
       (receiver_end K2 xxh path d0) = ((0, sent), ((0, received), d)) \<and>
     restorer_main K2 ck host decode2 text dbg path False d = ((0, shown @ running_lines q), d') \<and>
     continues (memory_regions snap) (cv u p) (cv2 d' q) \<and> \<not> c_stopped (cv2 d' q)"
proof -
  obtain snap w where cap: "capture K ck f64_secs host p s = (Inr snap, w)"
    and saved: "k_write_file K output (encode snap) w = (Inr (), t)"
    using assms(3) by (rule capture_command_done)
  note dest = assms(13) [OF cap]
  have stored: "k_read_file K output t = Inr (encode snap)" using assms(6) [OF saved] .
  have same: "k_read_file K2 path d = k_read_file K output t" using assms(7) dest stored by auto
  have "\<exists>snap w shown d'. capture K ck f64_secs host p s = (Inr snap, w) \<and>
     restorer_main K2 ck host decode2 text dbg path False d = ((0, shown @ running_lines q), d') \<and>
     continues (memory_regions snap) (cv u p) (cv2 d' q) \<and> \<not> c_stopped (cv2 d' q)"
    by (rule programs_migrate [OF assms(1-6) same assms(10-12)]) (use assms(13) in blast)+
  with cap file_arrives [OF assms(8) stored, of node pid0 ver retries K2 path d0 d n F xxh] dest assms(9)
  show ?thesis by (metis prod.inject sum.inject(2))
qed

lemma network_migrates_witness:
  "\<exists>sent received shown d'.
     exchange 2 (transmitter_end machine_kernel toy_floats toy_hash ''src'' ''/tmp/s.pb'' 7 ''1.0'' 3
         (snd (capturer_main machine_kernel sum_ck no_secs ''x86_64'' (\<lambda>_. [1]) (\<lambda>_. None) (\<lambda>_. [])
           (Capture 7 ''/tmp/s.pb'') source_machine)) [None, None, None])
       (receiver_end machine_kernel toy_hash ''/tmp/s.pb'' stored_machine) =
       ((0, sent), ((0, received), stored_machine)) \<and>
     restorer_main machine_kernel sum_ck ''x86_64'' (\<lambda>_. Some migrated_snapshot) (\<lambda>_. []) (\<lambda>x. x)
       ''/tmp/s.pb'' False stored_machine = ((0, shown @ running_lines 42), d') \<and>
     c_fp (child_of d' 42) = replicate 512 0"
proof -
  let ?e = "\<lambda>_. [1] :: u8 list" and ?none = "\<lambda>_. None"
  let ?out = "capturer_main machine_kernel sum_ck no_secs ''x86_64'' ?e ?none (\<lambda>_. [])
      (Capture 7 ''/tmp/s.pb'') source_machine"
  let ?v = "forked_machine\<lparr>mc_bytes := (\<lambda>_. Some [1])\<rparr>"
  obtain snap t where run: "sample_capture = (Inr snap, t)"
    and same: "snap_arch migrated_snapshot = snap_arch snap"
      "snap_registers migrated_snapshot = snap_registers snap"
      "memory_regions migrated_snapshot = memory_regions snap"
    and rs: "memory_regions snap = [region_to_proto sample_captured_region]"
    using sample_handover by blast
  have wr: "k_write_file machine_kernel path bs u = (Inr (), u\<lparr>mc_bytes := (mc_bytes u)(path \<mapsto> bs)\<rparr>)"
    for path bs u by (simp add: machine_kernel_def mk_write_file_def)
  have arrived: "k_write_file machine_kernel ''/tmp/s.pb'' [1] stored_machine = (Inr (), stored_machine)"
    by (simp add: wr stored_machine_def fun_upd_idem)
  have out: "?out = ((0, map Out (capture_report ''/tmp/s.pb'' snap)), snd ?out)"
    by (simp add: capturer_main_def capturer_command_def cmd_capture_def save_def act_simps run wr)
  have v: "child_of ?v 42 = child_of forked_machine 42" by (simp add: child_of_def)
  have old: "child_of frozen_machine 7 = source_child\<lparr>c_stopped := True\<rparr>"
    by (simp add: child_of_def source_machine_def sample_machine_def)
  have "\<exists>x w sent received shown d'. sample_capture = (Inr x, w) \<and>
      exchange (Suc (Suc 0)) (transmitter_end machine_kernel toy_floats toy_hash ''src'' ''/tmp/s.pb'' 7 ''1.0'' 3
          (snd ?out) [None, None, None]) (receiver_end machine_kernel toy_hash ''/tmp/s.pb'' stored_machine) =
        ((0, sent), ((0, received), stored_machine)) \<and>
      restorer_main machine_kernel sum_ck ''x86_64'' (\<lambda>_. Some migrated_snapshot) (\<lambda>_. []) (\<lambda>x. x)
        ''/tmp/s.pb'' False stored_machine = ((0, shown @ running_lines 42), d') \<and>
      continues (memory_regions x) (child_of frozen_machine 7) (child_of d' 42) \<and>
      \<not> c_stopped (child_of d' 42)"
  proof (rule network_migrates [OF machine_tracer sample_attach out sample_table machine_file_law machine_file_law
        _ _ machine_serving machine_fds stored_run])
    fix x w assume "sample_capture = (Inr x, w)"
    with run have x: "x = snap" by simp
    show "memory_regions x \<noteq> [] \<and> understands (\<lambda>_. Some migrated_snapshot) (?e x) x \<and>
        transferable (?e x) (flag_options ''src'' 7 ''1.0'' 3) \<and>
        k_write_file machine_kernel ''/tmp/s.pb'' (?e x) stored_machine = (Inr (), stored_machine) \<and>
        destination_ready sys_ref (child_of ?v 42) (memory_regions x)
          (ur_rip (c_regs (child_of frozen_machine 7)))"
      unfolding x v sample_ip using rs same sample_ready arrived toy_flags by (simp add: understands_def)
  qed simp_all
  then show ?thesis
    unfolding continues_def old numeral_2_eq_2 One_nat_def by (auto simp: source_child_def)
qed

end
